theory Spec2Isabelle
  imports Main "HOL-Library.Sublist" "HOL-Library.Multiset"
begin

section \<open>Path strings: the part of path/filepath (Unix) that main.go calls\<close>

text \<open>
  Go strings are byte sequences; they are modelled as \<^typ>\<open>string\<close>.  The program builds
  every path with \<^verbatim>\<open>filepath.Join\<close>, which joins the non-empty suffix of its arguments
  with the separator and applies \<^verbatim>\<open>filepath.Clean\<close>.  Clean is modelled element by
  element: empty elements and \<^verbatim>\<open>.\<close> are dropped, \<^verbatim>\<open>..\<close> removes the element before it
  (at the root it is dropped, at the start of a relative path it is kept), and an empty
  result is \<^verbatim>\<open>.\<close>.
\<close>

fun split_path :: "string \<Rightarrow> string list" where
  "split_path [] = [[]]"
| "split_path (c # cs) =
     (let r = split_path cs in
      if c = CHR ''/'' then [] # r else (c # hd r) # tl r)"

fun join_sep :: "string list \<Rightarrow> string" where
  "join_sep [] = []"
| "join_sep [x] = x"
| "join_sep (x # y # ys) = x @ CHR ''/'' # join_sep (y # ys)"

fun clean_step :: "bool \<Rightarrow> nat \<times> string list \<Rightarrow> string \<Rightarrow> nat \<times> string list" where
  "clean_step rooted (ups, st) c =
     (if c = [] \<or> c = ''.'' then (ups, st)
      else if c = ''..'' then
        (if st \<noteq> [] then (ups, butlast st)
         else if rooted then (ups, st)
         else (Suc ups, st))
      else (ups, st @ [c]))"

definition clean_elems :: "bool \<Rightarrow> string list \<Rightarrow> string list" where
  "clean_elems rooted cs =
     (case foldl (clean_step rooted) (0, []) cs of (ups, st) \<Rightarrow> replicate ups ''..'' @ st)"

definition is_rooted :: "string \<Rightarrow> bool" where
  "is_rooted path = (case path of [] \<Rightarrow> False | c # _ \<Rightarrow> c = CHR ''/'')"

definition filepath_Clean :: "string \<Rightarrow> string" where
  "filepath_Clean path =
     (let body = join_sep (clean_elems (is_rooted path) (split_path path)) in
      if is_rooted path then CHR ''/'' # body
      else if body = [] then ''.''
      else body)"

definition filepath_Join :: "string list \<Rightarrow> string" where
  "filepath_Join elem =
     (case dropWhile (\<lambda>e. e = []) elem of
        [] \<Rightarrow> []
      | e # es \<Rightarrow> filepath_Clean (join_sep (e # es)))"

definition strings_HasPrefix :: "string \<Rightarrow> string \<Rightarrow> bool" where
  "strings_HasPrefix s p = (take (length p) s = p)"

section \<open>The two static tables\<close>

text \<open>The map literal \<^verbatim>\<open>dirs\<close> of createDirectoriesAndFiles, in the order it is written.\<close>

definition dirs :: "(string \<times> string list) list" where
  "dirs =
     [(''cmd'', [''main.go'']),
      (''pkg/router'', [''router.go'']),
      (''pkg/middleware'', [''middleware.go'']),
      (''pkg/handlers'', [''handlers.go'']),
      (''pkg/models'', [''models.go'']),
      (''pkg/db'', [''db.go'']),
      (''config'', [''config.yaml''])]"

definition dockerFiles :: "string list" where
  "dockerFiles = [''Dockerfile'', ''docker-compose.yaml'', ''Makefile'', ''.air.toml'']"

definition templateMapping :: "(string \<times> string) list" where
  "templateMapping =
     [(''main.go'', ''templates/main.txt''),
      (''router.go'', ''templates/routes.txt''),
      (''middleware.go'', ''templates/middleware.txt''),
      (''handlers.go'', ''templates/handlers.txt''),
      (''models.go'', ''templates/models.txt''),
      (''db.go'', ''templates/db.txt''),
      (''Dockerfile'', ''templates/dockers.txt''),
      (''docker-compose.yaml'', ''templates/docker.txt''),
      (''Makefile'', ''templates/makerun.txt''),
      (''.air.toml'', ''templates/air.txt''),
      (''config.yaml'', ''templates/config.txt'')]"

text \<open>Indexing a Go map with a missing key gives the zero value, here the empty string.\<close>

definition getTemplateFileName :: "string \<Rightarrow> string" where
  "getTemplateFileName fileName =
     (case map_of templateMapping fileName of Some t \<Rightarrow> t | None \<Rightarrow> [])"

definition produced_files :: "string list" where
  "produced_files = concat (map snd dirs) @ dockerFiles"


section \<open>strings.TrimSpace and bufio.Reader.ReadString\<close>

text \<open>
  TrimSpace removes every leading and trailing code point that \<^verbatim>\<open>unicode.IsSpace\<close> accepts.
  A Go string is UTF-8, so a white space code point is one of the following byte
  sequences: tab, line feed, vertical tab, form feed, carriage return, space, U+0085,
  U+00A0, U+1680, U+2000 to U+200A, U+2028, U+2029, U+202F, U+205F and U+3000.
\<close>

definition space_runes :: "string list" where
  "space_runes =
     [[CHR 0x09],
      [CHR 0x0A],
      [CHR 0x0B],
      [CHR 0x0C],
      [CHR 0x0D],
      [CHR 0x20],
      [CHR 0xC2, CHR 0x85],
      [CHR 0xC2, CHR 0xA0],
      [CHR 0xE1, CHR 0x9A, CHR 0x80],
      [CHR 0xE2, CHR 0x80, CHR 0x80],
      [CHR 0xE2, CHR 0x80, CHR 0x81],
      [CHR 0xE2, CHR 0x80, CHR 0x82],
      [CHR 0xE2, CHR 0x80, CHR 0x83],
      [CHR 0xE2, CHR 0x80, CHR 0x84],
      [CHR 0xE2, CHR 0x80, CHR 0x85],
      [CHR 0xE2, CHR 0x80, CHR 0x86],
      [CHR 0xE2, CHR 0x80, CHR 0x87],
      [CHR 0xE2, CHR 0x80, CHR 0x88],
      [CHR 0xE2, CHR 0x80, CHR 0x89],
      [CHR 0xE2, CHR 0x80, CHR 0x8A],
      [CHR 0xE2, CHR 0x80, CHR 0xA8],
      [CHR 0xE2, CHR 0x80, CHR 0xA9],
      [CHR 0xE2, CHR 0x80, CHR 0xAF],
      [CHR 0xE2, CHR 0x81, CHR 0x9F],
      [CHR 0xE3, CHR 0x80, CHR 0x80]]"

text \<open>Drop sequences of \<open>rs\<close> from the front for as long as one of them is a prefix.\<close>

function strip_runes :: "string list \<Rightarrow> string \<Rightarrow> string" where
  "strip_runes rs s =
     (case find (\<lambda>r. r \<noteq> [] \<and> prefix r s) rs of
        None \<Rightarrow> s
      | Some r \<Rightarrow> strip_runes rs (drop (length r) s))"
  by pat_completeness auto
termination
proof (relation "measure (\<lambda>(rs, s). length s)")
  show "wf (measure (\<lambda>(rs, s). length s))" by simp
next
  fix rs :: "string list" and s r :: string
  assume "find (\<lambda>r. r \<noteq> [] \<and> prefix r s) rs = Some r"
  then have "r \<noteq> []" and "prefix r s"
    by (auto simp: find_Some_iff)
  then have "length (drop (length r) s) < length s"
    by (cases s) (auto simp: prefix_def)
  then show "((rs, drop (length r) s), (rs, s)) \<in> measure (\<lambda>(rs, s). length s)"
    by simp
qed

declare strip_runes.simps [simp del]

definition strings_TrimSpace :: "string \<Rightarrow> string" where
  "strings_TrimSpace s =
     rev (strip_runes (map rev space_runes) (rev (strip_runes space_runes s)))"

text \<open>
  \<^verbatim>\<open>reader.ReadString('\n')\<close> returns the input up to and including the first line feed,
  or all that is left when there is none (the error, then io.EOF, is discarded by main).
  The result is the line and the input that remains.
\<close>

definition ReadString :: "string \<Rightarrow> string \<times> string" where
  "ReadString inp =
     (if CHR 0x0A \<in> set inp
      then (takeWhile (\<lambda>c. c \<noteq> CHR 0x0A) inp @ [CHR 0x0A],
            tl (dropWhile (\<lambda>c. c \<noteq> CHR 0x0A) inp))
      else (inp, []))"

section \<open>The world the program runs in\<close>

text \<open>
  The file system maps an absolute path, a list of names from the root, to a directory
  or to a regular file with its bytes.  There are no symbolic links, so the kernel
  resolves a path string lexically: a relative string starts at the working directory.
\<close>

type_synonym fpath = "string list"

datatype node = Dir | File string

type_synonym filesystem = "fpath \<Rightarrow> node option"

datatype errno = EEXIST | ENOENT | ENOTDIR | EISDIR | EACCES | EIO

fun errno_text :: "errno \<Rightarrow> string" where
  "errno_text EEXIST = ''file exists''"
| "errno_text ENOENT = ''no such file or directory''"
| "errno_text ENOTDIR = ''not a directory''"
| "errno_text EISDIR = ''is a directory''"
| "errno_text EACCES = ''permission denied''"
| "errno_text EIO = ''input/output error''"

text \<open>The text of an \<^verbatim>\<open>*fs.PathError\<close>, as \<^verbatim>\<open>%v\<close> prints it.\<close>

definition PathError :: "string \<Rightarrow> string \<Rightarrow> errno \<Rightarrow> string" where
  "PathError opn name e = opn @ '' '' @ name @ '': '' @ errno_text e"

record user =
  HomeDir :: string

text \<open>
  What a run cannot change: the working directory, the search path, the user database,
  the order in which the runtime walks the map \<open>dirs\<close>, the faults of the operating
  system (a path whose creation it refuses, a file it will not read, a write it cuts
  short after some bytes) and what an external command does to the file system
  (its error, if any, and the file system it leaves).
\<close>

record env =
  cwd :: fpath
  look_path :: "string \<Rightarrow> bool"
  user_Current :: "string + user"
  map_order :: "(string \<times> string list) list"
  deny_create :: "fpath \<Rightarrow> bool"
  deny_read :: "fpath \<Rightarrow> bool"
  write_limit :: "fpath \<Rightarrow> nat option"
  exec_effect :: "string \<Rightarrow> string \<Rightarrow> string list \<Rightarrow> filesystem \<Rightarrow> string option \<times> filesystem"

text \<open>
  What a run changes: the file system, the unread standard input, the strings the
  program itself wrote to standard output (one per call) and the external commands it
  started (working directory, command, arguments).
\<close>

record world =
  fs :: filesystem
  stdin :: string
  stdout :: "string list"
  procs :: "(string \<times> string \<times> string list) list"

text \<open>\<^verbatim>\<open>log.Fatal\<close> and \<^verbatim>\<open>log.Fatalf\<close> print the message and exit with status 1.\<close>

datatype 'a outcome = Returns 'a | Exits string

subsection \<open>System calls\<close>

definition abs_path :: "env \<Rightarrow> string \<Rightarrow> fpath" where
  "abs_path E name =
     clean_elems True ((if is_rooted name then [] else cwd E) @ split_path name)"

text \<open>
  The empty string names no file (ENOENT).  Every string the program hands to the system
  is cleaned (it comes from Join) or is a literal template path, so \<^verbatim>\<open>..\<close> can only
  stand at the start of a relative string, where it leads from the working directory
  upwards.
\<close>

definition os_resolve :: "env \<Rightarrow> string \<Rightarrow> fpath option" where
  "os_resolve E name = (if name = [] then None else Some (abs_path E name))"

definition mkdir_at :: "env \<Rightarrow> fpath \<Rightarrow> filesystem \<Rightarrow> errno option \<times> filesystem" where
  "mkdir_at E q f =
     (if f q \<noteq> None \<or> q = [] then (Some EEXIST, f)
      else (case f (butlast q) of
              None \<Rightarrow> (Some ENOENT, f)
            | Some (File _) \<Rightarrow> (Some ENOTDIR, f)
            | Some Dir \<Rightarrow>
                if deny_create E q then (Some EACCES, f) else (None, f(q \<mapsto> Dir))))"

definition os_Mkdir :: "env \<Rightarrow> string \<Rightarrow> world \<Rightarrow> string option \<times> world" where
  "os_Mkdir E name w =
     (case os_resolve E name of
        None \<Rightarrow> (Some (PathError ''mkdir'' name ENOENT), w)
      | Some q \<Rightarrow>
          (case mkdir_at E q (fs w) of
             (Some e, f') \<Rightarrow> (Some (PathError ''mkdir'' name e), w\<lparr>fs := f'\<rparr>)
           | (None, f') \<Rightarrow> (None, w\<lparr>fs := f'\<rparr>)))"

text \<open>
  \<^verbatim>\<open>os.MkdirAll\<close>: nothing to do for a directory, an error for a file; otherwise the
  parent is made first (with its own parents) and then the directory itself.
\<close>

function mkdir_all_at :: "env \<Rightarrow> fpath \<Rightarrow> filesystem \<Rightarrow> errno option \<times> filesystem" where
  "mkdir_all_at E q f =
     (case f q of
        Some Dir \<Rightarrow> (None, f)
      | Some (File _) \<Rightarrow> (Some ENOTDIR, f)
      | None \<Rightarrow>
          if q = [] then (Some ENOENT, f)
          else (case mkdir_all_at E (butlast q) f of
                  (Some e, f') \<Rightarrow> (Some e, f')
                | (None, f') \<Rightarrow> mkdir_at E q f'))"
  by pat_completeness auto
termination
  by (relation "measure (\<lambda>(E, q, f). length q)") auto

declare mkdir_all_at.simps [simp del]

definition os_MkdirAll :: "env \<Rightarrow> string \<Rightarrow> world \<Rightarrow> string option \<times> world" where
  "os_MkdirAll E name w =
     (case os_resolve E name of
        None \<Rightarrow> (Some (PathError ''mkdir'' name ENOENT), w)
      | Some q \<Rightarrow>
          (case mkdir_all_at E q (fs w) of
             (Some e, f') \<Rightarrow> (Some (PathError ''mkdir'' name e), w\<lparr>fs := f'\<rparr>)
           | (None, f') \<Rightarrow> (None, w\<lparr>fs := f'\<rparr>)))"

text \<open>
  An open file (\<^verbatim>\<open>*os.File\<close>): the name it was opened under and the file it denotes.
  \<^verbatim>\<open>os.Create\<close> opens for writing, creating the file or truncating an existing one.
\<close>

record os_File =
  Name :: string
  target :: fpath

definition os_Create :: "env \<Rightarrow> string \<Rightarrow> world \<Rightarrow> (string + os_File) \<times> world" where
  "os_Create E name w =
     (case os_resolve E name of
        None \<Rightarrow> (Inl (PathError ''open'' name ENOENT), w)
      | Some q \<Rightarrow>
          (case fs w q of
             Some Dir \<Rightarrow> (Inl (PathError ''open'' name EISDIR), w)
           | Some (File _) \<Rightarrow>
               if deny_create E q then (Inl (PathError ''open'' name EACCES), w)
               else (Inr \<lparr>Name = name, target = q\<rparr>, w\<lparr>fs := (fs w)(q \<mapsto> File [])\<rparr>)
           | None \<Rightarrow>
               if q = [] then (Inl (PathError ''open'' name EISDIR), w)
               else (case fs w (butlast q) of
                       None \<Rightarrow> (Inl (PathError ''open'' name ENOENT), w)
                     | Some (File _) \<Rightarrow> (Inl (PathError ''open'' name ENOTDIR), w)
                     | Some Dir \<Rightarrow>
                         if deny_create E q then (Inl (PathError ''open'' name EACCES), w)
                         else (Inr \<lparr>Name = name, target = q\<rparr>,
                               w\<lparr>fs := (fs w)(q \<mapsto> File [])\<rparr>))))"

definition ioutil_ReadFile :: "env \<Rightarrow> string \<Rightarrow> world \<Rightarrow> string + string" where
  "ioutil_ReadFile E name w =
     (case os_resolve E name of
        None \<Rightarrow> Inl (PathError ''open'' name ENOENT)
      | Some q \<Rightarrow>
          (case fs w q of
             None \<Rightarrow> Inl (PathError ''open'' name ENOENT)
           | Some Dir \<Rightarrow> Inl (PathError ''read'' name EISDIR)
           | Some (File c) \<Rightarrow>
               if deny_read E q then Inl (PathError ''open'' name EACCES) else Inr c))"

text \<open>
  \<^verbatim>\<open>f.Write\<close> at offset 0, the only write the program makes to a file it opened: the
  bytes replace the start of the file.  A write the system cuts short leaves the bytes
  it took and reports an error.
\<close>

definition file_content :: "filesystem \<Rightarrow> fpath \<Rightarrow> string" where
  "file_content f q = (case f q of Some (File c) \<Rightarrow> c | _ \<Rightarrow> [])"

definition file_Write :: "env \<Rightarrow> os_File \<Rightarrow> string \<Rightarrow> world \<Rightarrow> string option \<times> world" where
  "file_Write E f b w =
     (let q = target f;
          taken = (case write_limit E q of
                     None \<Rightarrow> b
                   | Some n \<Rightarrow> take n b);
          w' = w\<lparr>fs := (fs w)(q \<mapsto> File (taken @ drop (length taken) (file_content (fs w) q)))\<rparr>
      in if length taken < length b then (Some (PathError ''write'' (Name f) EIO), w')
         else (None, w'))"

definition Print :: "string \<Rightarrow> world \<Rightarrow> world" where
  "Print s w = w\<lparr>stdout := stdout w @ [s]\<rparr>"


section \<open>The program (main.go)\<close>

definition checkCommandExists :: "env \<Rightarrow> string \<Rightarrow> bool" where
  "checkCommandExists E cmd = look_path E cmd"

definition install_command :: string where
  "install_command =
     ''curl -sSfL https://raw.githubusercontent.com/air-verse/air/master/install.sh | sh -s -- -b $(go env GOPATH)/bin''"

definition air_missing_message :: string where
  "air_missing_message =
     ''Error: 'air' is not installed. Please install it by running:''
       @ [CHR 0x0A, CHR 0x0A, CHR 0x09] @ install_command @ [CHR 0x0A]"

definition ensureAirInstalled :: "env \<Rightarrow> world \<Rightarrow> unit outcome \<times> world" where
  "ensureAirInstalled E w =
     (if \<not> checkCommandExists E ''air'' then (Exits air_missing_message, w)
      else (Returns (), w))"

definition writeContentFromTemplate ::
    "env \<Rightarrow> os_File \<Rightarrow> string \<Rightarrow> world \<Rightarrow> unit outcome \<times> world" where
  "writeContentFromTemplate E f templatePath w =
     (case ioutil_ReadFile E templatePath w of
        Inl err \<Rightarrow> (Exits (''Error reading template file '' @ templatePath @ '': '' @ err), w)
      | Inr content \<Rightarrow>
          (case file_Write E f content w of
             (Some err, w1) \<Rightarrow>
               (Exits (''Error writing content to file '' @ Name f @ '': '' @ err), w1)
           | (None, w1) \<Rightarrow> (Returns (), w1)))"

text \<open>
  The body of the loop \<^verbatim>\<open>for _, file := range files\<close>; the loop over \<open>dockerFiles\<close> has
  the same body with \<open>basePath\<close> for \<open>dirPath\<close>.  The deferred \<^verbatim>\<open>f.Close()\<close> calls have no
  effect on the file system and are left out.
\<close>

definition create_file :: "env \<Rightarrow> string \<Rightarrow> string \<Rightarrow> world \<Rightarrow> unit outcome \<times> world" where
  "create_file E dirPath file w =
     (let filePath = filepath_Join [dirPath, file] in
      case os_Create E filePath w of
        (Inl err, w1) \<Rightarrow> (Exits (''Error creating file '' @ filePath @ '': '' @ err), w1)
      | (Inr f, w1) \<Rightarrow>
          writeContentFromTemplate E f (getTemplateFileName file)
            (Print (''Created file: '' @ filePath @ [CHR 0x0A]) w1))"

fun range_files :: "env \<Rightarrow> string \<Rightarrow> string list \<Rightarrow> world \<Rightarrow> unit outcome \<times> world" where
  "range_files E dirPath [] w = (Returns (), w)"
| "range_files E dirPath (file # files) w =
     (case create_file E dirPath file w of
        (Exits m, w1) \<Rightarrow> (Exits m, w1)
      | (Returns _, w1) \<Rightarrow> range_files E dirPath files w1)"

text \<open>
  The first half of the body of \<^verbatim>\<open>for dir, files := range dirs\<close>: the directory is made
  and its path is kept for the files.
\<close>

definition make_dir :: "env \<Rightarrow> string \<Rightarrow> string \<Rightarrow> world \<Rightarrow> string outcome \<times> world" where
  "make_dir E basePath dir w =
     (let dirPath = filepath_Join [basePath, dir] in
      case os_MkdirAll E dirPath w of
        (Some err, w1) \<Rightarrow> (Exits (''Error creating directory '' @ dirPath @ '': '' @ err), w1)
      | (None, w1) \<Rightarrow> (Returns dirPath, Print (''Created directory: '' @ dirPath @ [CHR 0x0A]) w1))"

text \<open>The loop over the map, taking its entries in the order given.\<close>

fun range_dirs ::
    "env \<Rightarrow> string \<Rightarrow> (string \<times> string list) list \<Rightarrow> world \<Rightarrow> unit outcome \<times> world" where
  "range_dirs E basePath [] w = (Returns (), w)"
| "range_dirs E basePath ((dir, files) # rest) w =
     (case make_dir E basePath dir w of
        (Exits m, w1) \<Rightarrow> (Exits m, w1)
      | (Returns dirPath, w1) \<Rightarrow>
          (case range_files E dirPath files w1 of
             (Exits m, w2) \<Rightarrow> (Exits m, w2)
           | (Returns _, w2) \<Rightarrow> range_dirs E basePath rest w2))"

definition createDirectoriesAndFiles :: "env \<Rightarrow> string \<Rightarrow> world \<Rightarrow> unit outcome \<times> world" where
  "createDirectoriesAndFiles E basePath w =
     (case range_dirs E basePath (map_order E) w of
        (Exits m, w1) \<Rightarrow> (Exits m, w1)
      | (Returns _, w1) \<Rightarrow> range_files E basePath dockerFiles w1)"

text \<open>
  \<^verbatim>\<open>cmd.Run()\<close> starts the command in \<open>dir\<close> and waits for it; its error covers a failed
  start and a non-zero exit status.  After \<^verbatim>\<open>log.Fatalf\<close> the function returns \<open>err\<close>,
  which is nil there.
\<close>

definition runCommand ::
    "env \<Rightarrow> string \<Rightarrow> string \<Rightarrow> string list \<Rightarrow> world \<Rightarrow> string option outcome \<times> world" where
  "runCommand E dir command args w =
     (let w1 = w\<lparr>procs := procs w @ [(dir, command, args)]\<rparr> in
      case exec_effect E dir command args (fs w1) of
        (Some err, f') \<Rightarrow> (Exits (''Error running command: '' @ err), w1\<lparr>fs := f'\<rparr>)
      | (None, f') \<Rightarrow> (Returns None, w1\<lparr>fs := f'\<rparr>))"

definition initializeGoMod :: "env \<Rightarrow> string \<Rightarrow> string \<Rightarrow> world \<Rightarrow> unit outcome \<times> world" where
  "initializeGoMod E basePath projectName w =
     (case runCommand E basePath ''go'' [''mod'', ''init'', projectName]
             (Print (''Initializing Go module...'' @ [CHR 0x0A]) w) of
        (Exits m, w1) \<Rightarrow> (Exits m, w1)
      | (Returns (Some err), w1) \<Rightarrow> (Exits (''Error initializing Go module: '' @ err), w1)
      | (Returns None, w1) \<Rightarrow>
          (case runCommand E basePath ''go'' [''mod'', ''tidy'']
                  (Print (''Tidying up Go module dependencies...'' @ [CHR 0x0A]) w1) of
             (Exits m, w2) \<Rightarrow> (Exits m, w2)
           | (Returns (Some err), w2) \<Rightarrow> (Exits (''Error tidying Go module: '' @ err), w2)
           | (Returns None, w2) \<Rightarrow>
               (Returns (), Print (''Go module initialized successfully!'' @ [CHR 0x0A]) w2)))"

text \<open>ExpandTilde returns the pair (path, error) of the Go function, and the world.\<close>

definition ExpandTilde :: "env \<Rightarrow> string \<Rightarrow> world \<Rightarrow> (string \<times> string option) \<times> world" where
  "ExpandTilde E path w =
     (if strings_HasPrefix path ''~/'' then
        (case user_Current E of
           Inl err \<Rightarrow> (([], Some err), w)
         | Inr usr \<Rightarrow> ((filepath_Join [HomeDir usr, drop 2 path], None), w))
      else ((path, None), w))"

definition base_prompt :: string where
  "base_prompt = ''Enter the base path where you want to create the project: ''"

definition name_prompt :: string where
  "name_prompt = ''Enter the project name: ''"

definition main :: "env \<Rightarrow> world \<Rightarrow> unit outcome \<times> world" where
  "main E w =
     (case ensureAirInstalled E w of
        (Exits m, w0) \<Rightarrow> (Exits m, w0)
      | (Returns _, w0) \<Rightarrow>
     let w1 = Print base_prompt w0;
         (line1, rest1) = ReadString (stdin w1);
         w2 = w1\<lparr>stdin := rest1\<rparr>;
         baseInput = strings_TrimSpace line1
     in if baseInput = [] then (Exits ''Base path cannot be empty'', w2)
     else
     (case ExpandTilde E baseInput w2 of
        ((_, Some err), w3) \<Rightarrow> (Exits (''Error expanding base path: '' @ err), w3)
      | ((expandedBasePath, None), w3) \<Rightarrow>
     let w4 = Print name_prompt w3;
         (line2, rest2) = ReadString (stdin w4);
         w5 = w4\<lparr>stdin := rest2\<rparr>;
         projectName = strings_TrimSpace line2
     in if projectName = [] then (Exits ''Project name cannot be empty'', w5)
     else
     let basePath = filepath_Join [expandedBasePath, projectName] in
     (case os_Mkdir E basePath w5 of
        (Some err, w6) \<Rightarrow> (Exits (''Failed to create project base directory: '' @ err), w6)
      | (None, w6) \<Rightarrow>
     (case createDirectoriesAndFiles E basePath
             (Print (''Created project base directory: '' @ basePath @ [CHR 0x0A]) w6) of
        (Exits m, w7) \<Rightarrow> (Exits m, w7)
      | (Returns _, w7) \<Rightarrow> initializeGoMod E basePath projectName w7))))"

section \<open>A concrete machine\<close>

text \<open>
  A machine on which the generator runs to the end: the templates are in the working
  directory \<^verbatim>\<open>/w\<close>, the user types \<^verbatim>\<open>~/x\<close> and \<^verbatim>\<open>demo\<close>, and \<^verbatim>\<open>go mod init\<close> writes the
  module file.
\<close>

definition demo_templates :: "(fpath \<times> node) list" where
  "demo_templates =
     map (\<lambda>(f, t). ([''w''] @ split_path t, File (''template of '' @ f))) templateMapping"

definition demo_fs :: filesystem where
  "demo_fs = map_of
     ([([], Dir), ([''w''], Dir), ([''w'', ''templates''], Dir),
       ([''home''], Dir), ([''home'', ''u''], Dir), ([''home'', ''u'', ''x''], Dir)]
      @ demo_templates)"

definition demo_exec :: "string \<Rightarrow> string \<Rightarrow> string list \<Rightarrow> filesystem \<Rightarrow> string option \<times> filesystem" where
  "demo_exec dir command args f =
     (if command = ''go'' \<and> take 2 args = [''mod'', ''init'']
      then (None, f(clean_elems True (split_path dir) @ [''go.mod'']
                     \<mapsto> File (''module '' @ concat (drop 2 args) @ [CHR 0x0A])))
      else (None, f))"

definition demo_env :: env where
  "demo_env =
     \<lparr>cwd = [''w''],
      look_path = (\<lambda>c. c = ''air'' \<or> c = ''go''),
      user_Current = Inr \<lparr>HomeDir = ''/home/u''\<rparr>,
      map_order = rev dirs,
      deny_create = (\<lambda>_. False),
      deny_read = (\<lambda>_. False),
      write_limit = (\<lambda>_. None),
      exec_effect = demo_exec\<rparr>"

definition demo_world :: world where
  "demo_world =
     \<lparr>fs = demo_fs,
      stdin = '' ~/x '' @ [CHR 0x0A] @ ''demo'' @ [CHR 0x0D, CHR 0x0A],
      stdout = [],
      procs = []\<rparr>"


section \<open>Vocabulary of the specification\<close>

text \<open>An ordinary path element: not empty, not \<^verbatim>\<open>.\<close> or \<^verbatim>\<open>..\<close>, and without a separator.\<close>

definition plain :: "string \<Rightarrow> bool" where
  "plain c = (c \<noteq> [] \<and> c \<noteq> ''.'' \<and> c \<noteq> ''..'' \<and> CHR ''/'' \<notin> set c)"


text \<open>
  The loops of createDirectoriesAndFiles, flattened: one step makes a directory (the
  first half of the body of the outer loop), one step creates a file and fills it (the
  body of the two file loops).
\<close>

datatype step = MakeDir string string | MakeFile string string

fun run_step :: "env \<Rightarrow> step \<Rightarrow> world \<Rightarrow> unit outcome \<times> world" where
  "run_step E (MakeDir basePath dir) w =
     (case make_dir E basePath dir w of
        (Exits m, w1) \<Rightarrow> (Exits m, w1)
      | (Returns _, w1) \<Rightarrow> (Returns (), w1))"
| "run_step E (MakeFile dirPath file) w = create_file E dirPath file w"

fun run_steps :: "env \<Rightarrow> step list \<Rightarrow> world \<Rightarrow> unit outcome \<times> world" where
  "run_steps E [] w = (Returns (), w)"
| "run_steps E (s # ss) w =
     (case run_step E s w of
        (Exits m, w1) \<Rightarrow> (Exits m, w1)
      | (Returns _, w1) \<Rightarrow> run_steps E ss w1)"

definition entry_steps :: "string \<Rightarrow> string \<times> string list \<Rightarrow> step list" where
  "entry_steps basePath e =
     MakeDir basePath (fst e) # map (MakeFile (filepath_Join [basePath, fst e])) (snd e)"

definition scaffold_steps :: "env \<Rightarrow> string \<Rightarrow> step list" where
  "scaffold_steps E basePath =
     concat (map (entry_steps basePath) (map_order E)) @ map (MakeFile basePath) dockerFiles"

text \<open>The path a step works on, and the line it prints when it succeeds.\<close>

fun step_target :: "env \<Rightarrow> step \<Rightarrow> fpath" where
  "step_target E (MakeDir basePath dir) = abs_path E (filepath_Join [basePath, dir])"
| "step_target E (MakeFile dirPath file) = abs_path E (filepath_Join [dirPath, file])"

fun step_line :: "step \<Rightarrow> string" where
  "step_line (MakeDir basePath dir) =
     ''Created directory: '' @ filepath_Join [basePath, dir] @ [CHR 0x0A]"
| "step_line (MakeFile dirPath file) =
     ''Created file: '' @ filepath_Join [dirPath, file] @ [CHR 0x0A]"

fun is_MakeDir :: "step \<Rightarrow> bool" where
  "is_MakeDir (MakeDir _ _) = True"
| "is_MakeDir (MakeFile _ _) = False"

fun step_file :: "step \<Rightarrow> string" where
  "step_file (MakeDir _ _) = []"
| "step_file (MakeFile _ file) = file"

text \<open>
  A step is well formed when the directory it starts from is named and, for a file, the
  file name is an ordinary path element.
\<close>

fun step_ok :: "step \<Rightarrow> bool" where
  "step_ok (MakeDir basePath dir) = (basePath \<noteq> [])"
| "step_ok (MakeFile dirPath file) = (dirPath \<noteq> [] \<and> plain file)"

text \<open>
  The paths a list of steps turns into directories (the targets and everything above
  them) and into files.
\<close>

definition dir_targets :: "env \<Rightarrow> step list \<Rightarrow> fpath set" where
  "dir_targets E S = {p. \<exists>s\<in>set S. is_MakeDir s \<and> prefix p (step_target E s)}"

definition file_targets :: "env \<Rightarrow> step list \<Rightarrow> fpath set" where
  "file_targets E S = {p. \<exists>s\<in>set S. \<not> is_MakeDir s \<and> p = step_target E s}"

text \<open>A file system is a tree: whatever exists below the root lies in a directory.\<close>

definition wf_fs :: "filesystem \<Rightarrow> bool" where
  "wf_fs f = (\<forall>p. p \<noteq> [] \<and> f p \<noteq> None \<longrightarrow> f (butlast p) = Some Dir)"

text \<open>The bytes of the template resource of a file name, in a given file system.\<close>

definition template_path :: "env \<Rightarrow> string \<Rightarrow> fpath" where
  "template_path E file = abs_path E (getTemplateFileName file)"

definition template_content :: "env \<Rightarrow> filesystem \<Rightarrow> string \<Rightarrow> string" where
  "template_content E f file = file_content f (template_path E file)"

text \<open>
  The steps do not get in each other's way: no template is a file the steps write,
  and no file the steps write lies on the way to a directory they make.
\<close>

definition steps_good :: "env \<Rightarrow> step list \<Rightarrow> bool" where
  "steps_good E S =
     ((\<forall>s\<in>set S. step_ok s)
      \<and> (\<forall>s\<in>set S. \<forall>s'\<in>set S. \<not> is_MakeDir s \<and> \<not> is_MakeDir s' \<longrightarrow>
            template_path E (step_file s') \<noteq> step_target E s)
      \<and> (\<forall>s\<in>set S. \<forall>s'\<in>set S. \<not> is_MakeDir s \<and> is_MakeDir s' \<longrightarrow>
            \<not> prefix (step_target E s) (step_target E s')))"

text \<open>
  The tree of section 6 of the specification, relative to the project directory: the
  directories of the table with their parents, and the files.
\<close>

definition rel_dirs :: "fpath list" where
  "rel_dirs = remdups (concat (map (\<lambda>e. tl (prefixes (split_path (fst e)))) dirs))"

definition rel_files :: "fpath list" where
  "rel_files =
     concat (map (\<lambda>e. map (\<lambda>file. split_path (fst e) @ [file]) (snd e)) dirs)
       @ map (\<lambda>file. [file]) dockerFiles"

definition scaffold_tree :: "env \<Rightarrow> filesystem \<Rightarrow> fpath \<Rightarrow> (fpath \<times> node) list" where
  "scaffold_tree E f B =
     map (\<lambda>r. (B @ r, Dir)) rel_dirs
       @ map (\<lambda>r. (B @ r, File (template_content E f (last r)))) rel_files"

text \<open>
  What main reads: the two trimmed input lines, the expanded base path, the path of the
  project directory, and the world once both prompts are printed and both lines read.
\<close>

definition base_line :: "world \<Rightarrow> string" where
  "base_line w = strings_TrimSpace (fst (ReadString (stdin w)))"

definition name_line :: "world \<Rightarrow> string" where
  "name_line w = strings_TrimSpace (fst (ReadString (snd (ReadString (stdin w)))))"

definition expanded_base :: "env \<Rightarrow> world \<Rightarrow> string" where
  "expanded_base E w = fst (fst (ExpandTilde E (base_line w) w))"

definition project_path :: "env \<Rightarrow> world \<Rightarrow> string" where
  "project_path E w = filepath_Join [expanded_base E w, name_line w]"

definition asked :: "world \<Rightarrow> world" where
  "asked w =
     w\<lparr>stdin := snd (ReadString (snd (ReadString (stdin w)))),
       stdout := stdout w @ [base_prompt, name_prompt]\<rparr>"

text \<open>The inputs let main reach the creation of the project directory.\<close>

definition inputs_ok :: "env \<Rightarrow> world \<Rightarrow> bool" where
  "inputs_ok E w =
     (look_path E ''air'' \<and> base_line w \<noteq> []
      \<and> snd (fst (ExpandTilde E (base_line w) w)) = None \<and> name_line w \<noteq> [])"

text \<open>What the two module commands, run one after the other, make of a file system.\<close>

definition go_mod_effect :: "env \<Rightarrow> string \<Rightarrow> string \<Rightarrow> filesystem \<Rightarrow> filesystem" where
  "go_mod_effect E basePath projectName f =
     snd (exec_effect E basePath ''go'' [''mod'', ''tidy'']
            (snd (exec_effect E basePath ''go'' [''mod'', ''init'', projectName] f)))"

text \<open>The directory a step starts from.\<close>

fun step_dir :: "step \<Rightarrow> string" where
  "step_dir (MakeDir basePath _) = basePath"
| "step_dir (MakeFile dirPath _) = dirPath"

text \<open>External commands that never remove an entry of the file system.\<close>

definition exec_keeps :: "env \<Rightarrow> bool" where
  "exec_keeps E =
     (\<forall>dir command args f p. f p \<noteq> None \<longrightarrow> snd (exec_effect E dir command args f) p \<noteq> None)"

text \<open>
  A string of white space only, and a string that neither starts nor ends with white
  space.
\<close>

definition blank :: "string \<Rightarrow> bool" where
  "blank s = (\<exists>ws. set ws \<subseteq> set space_runes \<and> s = concat ws)"

definition trimmed :: "string \<Rightarrow> bool" where
  "trimmed t = (\<forall>r\<in>set space_runes. \<not> prefix r t \<and> \<not> suffix r t)"

text \<open>
  More worlds and machines: input lines of white space only, a project directory that
  exists already, the world of a second run, a module command that fails, and a system
  that refuses to create one file, with the worlds of that run before and after the
  refusal.
\<close>

definition blank_base_world :: world where
  "blank_base_world =
     demo_world\<lparr>stdin := '' '' @ [CHR 0x09, CHR 0x0D, CHR 0x0A] @ ''demo'' @ [CHR 0x0A]\<rparr>"

definition blank_name_world :: world where
  "blank_name_world = demo_world\<lparr>stdin := ''/tmp'' @ [CHR 0x0A]\<rparr>"

definition existing_world :: world where
  "existing_world = demo_world\<lparr>stdin := ''~/'' @ [CHR 0x0A] @ ''x'' @ [CHR 0x0A]\<rparr>"

definition demo_again :: world where
  "demo_again = (snd (main demo_env demo_world))\<lparr>stdin := stdin demo_world\<rparr>"

definition broken_go_env :: env where
  "broken_go_env = demo_env\<lparr>exec_effect := (\<lambda>dir command args f. (Some ''exit status 1'', f))\<rparr>"

definition failing_env :: env where
  "failing_env =
     demo_env\<lparr>deny_create := (\<lambda>p. p = [''home'', ''u'', ''x'', ''demo'', ''pkg'', ''db'', ''db.go''])\<rparr>"

definition demo_steps :: "step list" where
  "demo_steps = scaffold_steps failing_env ''/home/u/x/demo''"

definition demo_mkdir_world :: world where
  "demo_mkdir_world =
     Print (''Created project base directory: '' @ ''/home/u/x/demo'' @ [CHR 0x0A])
       (snd (os_Mkdir failing_env ''/home/u/x/demo'' (asked demo_world)))"

definition demo_before_failure :: world where
  "demo_before_failure = snd (run_steps failing_env (take 3 demo_steps) demo_mkdir_world)"

definition demo_after_failure :: world where
  "demo_after_failure = snd (run_step failing_env (demo_steps ! 3) demo_before_failure)"

section \<open>Facts about paths\<close>

text \<open>
  The models of Clean, Join, TrimSpace and ReadString on inputs whose results are known
  from the documentation and the tests of the Go library.
\<close>

lemma Clean_examples:
  "map filepath_Clean
     [''abc'', ''abc/def'', ''.'', ''..'', ''../..'', ''../../abc'', ''/abc'', ''/'', '''',
      ''abc/'', ''a/b/c/'', ''./'', ''../'', ''../../'', ''/abc/'', ''abc//def//ghi'', ''abc//'',
      ''abc/./def'', ''/./abc/def'', ''abc/.'', ''abc/def/ghi/../jkl'', ''abc/def/../ghi/../jkl'',
      ''abc/def/..'', ''abc/def/../..'', ''/abc/def/../..'', ''abc/def/../../..'',
      ''/abc/def/../../..'', ''abc/def/../../../ghi/jkl/../../../mno'', ''/../abc'',
      ''abc/./../def'', ''abc//./../def'', ''abc/../../././../def'', ''//abc'', ''///abc'',
      ''//abc//'']
   = [''abc'', ''abc/def'', ''.'', ''..'', ''../..'', ''../../abc'', ''/abc'', ''/'', ''.'',
      ''abc'', ''a/b/c'', ''.'', ''..'', ''../..'', ''/abc'', ''abc/def/ghi'', ''abc'',
      ''abc/def'', ''/abc/def'', ''abc'', ''abc/def/jkl'', ''abc/jkl'',
      ''abc'', ''.'', ''/'', ''..'',
      ''/'', ''../../mno'', ''/abc'',
      ''def'', ''def'', ''../../def'', ''/abc'', ''/abc'',
      ''/abc'']"
  by code_simp

lemma Join_examples:
  "map filepath_Join
     [[], [''''], [''/''], [''a''], [''a'', ''b''], [''a'', ''''], ['''', ''b''], [''/'', ''a''],
      [''/'', ''a/b''], [''/'', ''''], [''/a'', ''b''], [''a'', ''/b''], [''/a'', ''/b''],
      [''a/'', ''b''], [''a/'', ''''], ['''', ''''], [''//'', ''a'']]
   = ['''', '''', ''/'', ''a'', ''a/b'', ''a'', ''b'', ''/a'',
      ''/a/b'', ''/'', ''/a/b'', ''a/b'', ''/a/b'',
      ''a/b'', ''a'', '''', ''/a'']"
  by code_simp

lemma TrimSpace_examples:
  "map strings_TrimSpace
     ['''', [CHR 0x0A], '' a b '' @ [CHR 0x0D, CHR 0x0A], [CHR 0xC2, CHR 0xA0] @ ''x'' @ [CHR 0xE2, CHR 0x80, CHR 0x83],
      [CHR 0xC2] @ ''x'', ''x'' @ [CHR 0x85]]
   = ['''', '''', ''a b'', ''x'', [CHR 0xC2] @ ''x'', ''x'' @ [CHR 0x85]]"
  by code_simp

lemma ReadString_examples:
  "map ReadString ['''', ''abc'', ''abc'' @ [CHR 0x0A], ''a'' @ [CHR 0x0A] @ ''b'' @ [CHR 0x0A]]
   = [('''', ''''), (''abc'', ''''), (''abc'' @ [CHR 0x0A], ''''), (''a'' @ [CHR 0x0A], ''b'' @ [CHR 0x0A])]"
  by code_simp



lemma split_path_ne [simp]: "split_path s \<noteq> []"
  by (induction s) (auto simp: Let_def)

lemma split_path_append:
  "split_path (a @ CHR ''/'' # b) = split_path a @ split_path b"
  by (induction a) (auto simp: Let_def)

lemma split_path_noslash: "CHR ''/'' \<notin> set c \<Longrightarrow> split_path c = [c]"
  by (induction c) (auto simp: Let_def)

lemma split_path_elems: "x \<in> set (split_path s) \<Longrightarrow> CHR ''/'' \<notin> set x"
proof (induction s arbitrary: x)
  case Nil
  then show ?case by simp
next
  case (Cons c s)
  then show ?case
    by (cases "split_path s") (auto simp: Let_def split: if_splits)
qed

lemma split_join:
  "cs \<noteq> [] \<Longrightarrow> \<forall>c\<in>set cs. CHR ''/'' \<notin> set c \<Longrightarrow> split_path (join_sep cs) = cs"
proof (induction cs rule: join_sep.induct)
  case 1
  then show ?case by simp
next
  case (2 x)
  then show ?case by (simp add: split_path_noslash)
next
  case (3 x y ys)
  then show ?case by (simp add: split_path_append split_path_noslash)
qed

lemma clean_step_skip [simp]: "clean_step r s [] = s" "clean_step r s ''.'' = s"
  by (cases s; simp)+

lemma foldl_plain:
  "list_all plain cs \<Longrightarrow> foldl (clean_step r) (u, st) cs = (u, st @ cs)"
  by (induction cs arbitrary: st) (auto simp: plain_def)

lemma plain_butlast: "list_all plain st \<Longrightarrow> list_all plain (butlast st)"
  by (auto simp: list_all_iff dest: in_set_butlastD)

lemma clean_step_inv:
  assumes "clean_step r (u, st) c = (u', st')" "list_all plain st" "CHR ''/'' \<notin> set c"
  shows "list_all plain st' \<and> (r \<longrightarrow> u' = u) \<and> u \<le> u'"
proof (cases "c = [] \<or> c = ''.''")
  case True
  with assms show ?thesis by auto
next
  case False
  note n1 = this
  show ?thesis
  proof (cases "c = ''..''")
    case True
    with assms(1) have "(u', st') = (if st \<noteq> [] then (u, butlast st)
         else if r then (u, st) else (Suc u, st))"
      by simp
    with assms(2) plain_butlast[OF assms(2)] show ?thesis
      by (simp split: if_splits)
  next
    case False
    with n1 assms(1) have "u' = u" "st' = st @ [c]" by simp_all
    moreover from n1 False assms(3) have "plain c" by (simp add: plain_def)
    ultimately show ?thesis using assms(2) by simp
  qed
qed

lemma foldl_clean_inv:
  assumes "foldl (clean_step r) (u, st) cs = (u', st')" "list_all plain st"
    "\<forall>c\<in>set cs. CHR ''/'' \<notin> set c"
  shows "list_all plain st' \<and> (r \<longrightarrow> u' = u) \<and> u \<le> u'"
  using assms
proof (induction cs arbitrary: u st)
  case Nil
  then show ?case by simp
next
  case (Cons c cs)
  obtain u1 st1 where s: "clean_step r (u, st) c = (u1, st1)" by (cases "clean_step r (u, st) c")
  from clean_step_inv[OF s] Cons.prems have i: "list_all plain st1" "r \<longrightarrow> u1 = u" "u \<le> u1" by auto
  from Cons.prems s have "foldl (clean_step r) (u1, st1) cs = (u', st')" by simp
  from Cons.IH[OF this i(1)] Cons.prems(3) i show ?case by auto
qed

text \<open>Cleaning a relative path first and resolving the result is resolving the path.\<close>

lemma two_stage:
  assumes "foldl (clean_step False) (0, []) xs = (u, st)" "\<forall>c\<in>set xs. CHR ''/'' \<notin> set c"
  shows "foldl (clean_step True) A (replicate u ''..'' @ st) = foldl (clean_step True) A xs"
  using assms
proof (induction xs arbitrary: u st rule: rev_induct)
  case Nil
  then show ?case by simp
next
  case (snoc x xs)
  obtain u0 st0 where s: "foldl (clean_step False) (0, []) xs = (u0, st0)"
    by (cases "foldl (clean_step False) (0, []) xs")
  from snoc.prems have ns: "\<forall>c\<in>set xs. CHR ''/'' \<notin> set c" by simp
  from foldl_clean_inv[OF s _ ns] have pl: "list_all plain st0" by simp
  from snoc.IH[OF s ns]
  have IH: "foldl (clean_step True) A (replicate u0 ''..'' @ st0) = foldl (clean_step True) A xs" .
  from snoc.prems s have step: "clean_step False (u0, st0) x = (u, st)" by simp
  obtain a b where A: "foldl (clean_step True) A (replicate u0 ''..'') = (a, b)"
    by (cases "foldl (clean_step True) A (replicate u0 ''..'')")
  have run: "\<And>ys. list_all plain ys \<Longrightarrow>
      foldl (clean_step True) A (replicate u0 ''..'' @ ys) = (a, b @ ys)"
    by (simp add: A foldl_plain)
  show ?case
  proof (cases "x = [] \<or> x = ''.''")
    case True
    with step IH show ?thesis by auto
  next
    case False
    note nx = this
    show ?thesis
    proof (cases "x = ''..''")
      case False
      with nx step have "u = u0" "st = st0 @ [x]" by auto
      with IH show ?thesis by simp
    next
      case True
      show ?thesis
      proof (cases "st0 = []")
        case True
        with \<open>x = ''..''\<close> step have "u = Suc u0" "st = []" by auto
        moreover have "replicate (Suc u0) ''..'' = replicate u0 ''..'' @ [''..'']"
          by (simp add: replicate_append_same)
        ultimately show ?thesis using IH True \<open>x = ''..''\<close>
          by (simp del: replicate_Suc)
      next
        case False
        with \<open>x = ''..''\<close> step have e: "u = u0" "st = butlast st0" by auto
        have "list_all plain (butlast st0)" by (rule plain_butlast[OF pl])
        from run[OF this] run[OF pl] False butlast_append[of b st0]
        have "foldl (clean_step True) A (replicate u0 ''..'' @ butlast st0) =
              clean_step True (foldl (clean_step True) A (replicate u0 ''..'' @ st0)) ''..''"
          by simp
        with IH e \<open>x = ''..''\<close> show ?thesis by simp
      qed
    qed
  qed
qed


lemma join_sep_hd:
  "cs \<noteq> [] \<Longrightarrow> \<forall>c\<in>set cs. c \<noteq> [] \<Longrightarrow> join_sep cs \<noteq> [] \<and> hd (join_sep cs) = hd (hd cs)"
  by (induction cs rule: join_sep.induct) auto

lemma plain_noslash: "list_all plain cs \<Longrightarrow> \<forall>c\<in>set cs. CHR ''/'' \<notin> set c \<and> c \<noteq> []"
  by (auto simp: list_all_iff plain_def)

lemma is_rooted_append: "b \<noteq> [] \<Longrightarrow> is_rooted (b @ x) = is_rooted b"
  by (cases b) (auto simp: is_rooted_def)

lemma Join2: "b \<noteq> [] \<Longrightarrow> filepath_Join [b, s] = filepath_Clean (b @ CHR ''/'' # s)"
  by (simp add: filepath_Join_def)

lemma Clean_nonempty: "filepath_Clean p \<noteq> []"
  by (simp add: filepath_Clean_def Let_def)

lemma Join2_nonempty: "b \<noteq> [] \<Longrightarrow> filepath_Join [b, s] \<noteq> []"
  by (simp add: Join2 Clean_nonempty)

lemma abs_path_Join:
  assumes b: "b \<noteq> []" and s: "list_all plain (split_path s)"
  shows "abs_path E (filepath_Join [b, s]) = abs_path E b @ split_path s"
proof -
  let ?r = "is_rooted b"
  let ?ss = "split_path s"
  obtain u st where f: "foldl (clean_step ?r) (0, []) (split_path b) = (u, st)"
    by (cases "foldl (clean_step ?r) (0, []) (split_path b)")
  have nsb: "\<forall>c\<in>set (split_path b). CHR ''/'' \<notin> set c"
    by (auto dest: split_path_elems)
  from foldl_clean_inv[OF f _ nsb] have st: "list_all plain st" and ur: "?r \<longrightarrow> u = 0"
    by simp_all
  let ?cs = "replicate u ''..'' @ st @ ?ss"
  have cs_ne: "?cs \<noteq> []" by simp
  have cs_ok: "\<forall>c\<in>set ?cs. CHR ''/'' \<notin> set c \<and> c \<noteq> []"
    using plain_noslash[OF st] plain_noslash[OF s] by auto
  have ce: "clean_elems ?r (split_path b @ ?ss) = ?cs"
    by (simp add: clean_elems_def f foldl_plain[OF s])
  have body: "join_sep ?cs \<noteq> []" "hd (join_sep ?cs) = hd (hd ?cs)"
    using join_sep_hd[OF cs_ne] cs_ok by blast+
  have sj: "split_path (join_sep ?cs) = ?cs"
    using split_join[OF cs_ne] cs_ok by blast
  have J: "filepath_Join [b, s] = (if ?r then CHR ''/'' # join_sep ?cs else join_sep ?cs)"
    using body(1) by (simp add: Join2[OF b] filepath_Clean_def Let_def
        is_rooted_append[OF b] split_path_append ce)
  show ?thesis
  proof (cases ?r)
    case True
    with ur have u0: "u = 0" by simp
    have "list_all plain (st @ ?ss)" using st s by simp
    from foldl_plain[OF this, of True 0 "[]"]
    have "clean_elems True ([] # st @ ?ss) = st @ ?ss"
      by (simp add: clean_elems_def)
    moreover have "abs_path E b = st"
      using True f u0 by (simp add: abs_path_def clean_elems_def)
    ultimately show ?thesis
      using True J u0 sj by (simp add: abs_path_def is_rooted_def Let_def)
  next
    case False
    have "hd (hd ?cs) \<noteq> CHR ''/''"
    proof -
      have "hd ?cs \<in> set ?cs" using cs_ne by (rule hd_in_set)
      with cs_ok have "CHR ''/'' \<notin> set (hd ?cs)" "hd ?cs \<noteq> []" by blast+
      then show ?thesis by (cases "hd ?cs") auto
    qed
    with body have nr: "\<not> is_rooted (join_sep ?cs)"
      by (cases "join_sep ?cs") (auto simp: is_rooted_def)
    let ?A = "foldl (clean_step True) (0, []) (cwd E)"
    obtain u2 st2 where g: "foldl (clean_step True) ?A (split_path b) = (u2, st2)"
      by (cases "foldl (clean_step True) ?A (split_path b)")
    from False f have f': "foldl (clean_step False) (0, []) (split_path b) = (u, st)" by simp
    have "foldl (clean_step True) ?A (replicate u ''..'' @ st) = (u2, st2)"
      using two_stage[OF f' nsb, of ?A] g by simp
    then have "foldl (clean_step True) (0, []) (cwd E @ ?cs) = (u2, st2 @ ?ss)"
      using foldl_plain[OF s, of True u2 st2] by simp
    then have "clean_elems True (cwd E @ ?cs) = replicate u2 ''..'' @ st2 @ ?ss"
      by (simp add: clean_elems_def)
    moreover have "abs_path E b = replicate u2 ''..'' @ st2"
      using False g by (simp add: abs_path_def clean_elems_def)
    ultimately show ?thesis
      using False J nr sj by (simp add: abs_path_def)
  qed
qed


lemma join_split: "join_sep (split_path s) = s"
proof (induction s)
  case Nil
  then show ?case by simp
next
  case (Cons c s)
  show ?case
  proof (cases "split_path s")
    case Nil
    then show ?thesis by simp
  next
    case (Cons x xs)
    with Cons.IH show ?thesis
      by (cases xs) (auto simp: Let_def)
  qed
qed

lemma join_sep_append:
  "xs \<noteq> [] \<Longrightarrow> ys \<noteq> [] \<Longrightarrow> join_sep (xs @ ys) = join_sep xs @ CHR ''/'' # join_sep ys"
  by (induction xs rule: join_sep.induct) (auto simp: neq_Nil_conv)

lemma Join_literal:
  assumes h: "filepath_Clean h = h" "is_rooted h" "h \<noteq> ''/''"
    and r: "list_all plain (split_path r)"
  shows "filepath_Join [h, r] = h @ CHR ''/'' # r"
proof -
  from h(2) have hne: "h \<noteq> []" by (auto simp: is_rooted_def)
  obtain u st where f: "foldl (clean_step True) (0, []) (split_path h) = (u, st)"
    by (cases "foldl (clean_step True) (0, []) (split_path h)")
  have nsb: "\<forall>c\<in>set (split_path h). CHR ''/'' \<notin> set c"
    by (auto dest: split_path_elems)
  from foldl_clean_inv[OF f _ nsb] have u0: "u = 0" by simp
  from h(1,2) f u0 have hh: "h = CHR ''/'' # join_sep st"
    by (simp add: filepath_Clean_def clean_elems_def)
  with h(3) have st: "st \<noteq> []" by auto
  have "filepath_Join [h, r] = CHR ''/'' # join_sep (st @ split_path r)"
    using h(2) f u0
    by (simp add: Join2[OF hne] filepath_Clean_def is_rooted_append[OF hne]
        split_path_append clean_elems_def foldl_plain[OF r])
  also have "\<dots> = CHR ''/'' # join_sep st @ CHR ''/'' # join_sep (split_path r)"
    using st by (simp add: join_sep_append)
  finally show ?thesis using hh by (simp add: join_split)
qed


section \<open>Facts about the file system and the steps\<close>

lemma run_steps_append:
  "run_steps E (a @ b) w =
     (case run_steps E a w of (Exits m, w1) \<Rightarrow> (Exits m, w1) | (Returns _, w1) \<Rightarrow> run_steps E b w1)"
  by (induction a arbitrary: w) (auto split: prod.splits outcome.splits)

lemma range_files_steps: "range_files E dp files w = run_steps E (map (MakeFile dp) files) w"
  by (induction files arbitrary: w) (auto split: prod.splits outcome.splits)

lemma make_dir_Returns:
  "make_dir E bp d w = (Returns x, w1) \<Longrightarrow> x = filepath_Join [bp, d]"
  by (auto simp: make_dir_def Let_def split: prod.splits option.splits)

lemma range_dirs_steps:
  "range_dirs E bp es w = run_steps E (concat (map (entry_steps bp) es)) w"
proof (induction es arbitrary: w)
  case Nil
  then show ?case by simp
next
  case (Cons e es)
  obtain d files where e: "e = (d, files)" by (cases e)
  show ?case
  proof (cases "make_dir E bp d w")
    case (Pair r w1)
    show ?thesis
    proof (cases r)
      case (Exits m)
      with Pair e show ?thesis by (simp add: entry_steps_def)
    next
      case (Returns x)
      with Pair have x: "x = filepath_Join [bp, d]" by (auto dest: make_dir_Returns)
      with Pair Returns e Cons.IH show ?thesis
        by (simp add: entry_steps_def run_steps_append range_files_steps
            split: prod.splits outcome.splits)
    qed
  qed
qed

lemma createDirectoriesAndFiles_steps:
  "createDirectoriesAndFiles E bp w = run_steps E (scaffold_steps E bp) w"
  by (simp add: createDirectoriesAndFiles_def scaffold_steps_def run_steps_append
      range_dirs_steps range_files_steps split: prod.splits outcome.splits)


subsection \<open>Directories\<close>

lemma mkdir_at_cases:
  assumes "mkdir_at E q f = (r, f')"
  shows "(r = None \<and> f q = None \<and> q \<noteq> [] \<and> f (butlast q) = Some Dir \<and> \<not> deny_create E q
            \<and> f' = f(q \<mapsto> Dir))
         \<or> (r \<noteq> None \<and> f' = f)"
  using assms by (auto simp: mkdir_at_def split: if_splits option.splits node.splits)

lemma wf_fs_put_dir:
  assumes "wf_fs f" "f q = None" "q \<noteq> []" "f (butlast q) = Some Dir"
  shows "wf_fs (f(q \<mapsto> Dir))"
  unfolding wf_fs_def
proof (intro allI impI)
  fix p assume p: "p \<noteq> [] \<and> (f(q \<mapsto> Dir)) p \<noteq> None"
  show "(f(q \<mapsto> Dir)) (butlast p) = Some Dir"
  proof (cases "p = q")
    case True
    with assms show ?thesis by auto
  next
    case False
    with p assms(1) have "f (butlast p) = Some Dir" by (auto simp: wf_fs_def)
    then show ?thesis by simp
  qed
qed

lemma wf_fs_put_file:
  assumes "wf_fs f"
    and "(\<exists>c. f q = Some (File c)) \<or> (f q = None \<and> q \<noteq> [] \<and> f (butlast q) = Some Dir)"
  shows "wf_fs (f(q \<mapsto> File x))"
  unfolding wf_fs_def
proof (intro allI impI)
  fix p assume p: "p \<noteq> [] \<and> (f(q \<mapsto> File x)) p \<noteq> None"
  show "(f(q \<mapsto> File x)) (butlast p) = Some Dir"
  proof (cases "p = q")
    case True
    with p assms have "f (butlast q) = Some Dir" by (auto simp: wf_fs_def)
    moreover from this assms(2) have "butlast q \<noteq> q" by auto
    ultimately show ?thesis using True by simp
  next
    case False
    with p assms(1) have d: "f (butlast p) = Some Dir" by (auto simp: wf_fs_def)
    with assms(2) have "butlast p \<noteq> q" by auto
    with d show ?thesis by simp
  qed
qed

lemma prefix_butlast_trans: "prefix p (butlast q) \<Longrightarrow> prefix p q"
  by (metis prefix_order.trans prefixeq_butlast)

lemma mkdir_all_at_props:
  "mkdir_all_at E q f = (r, f') \<Longrightarrow>
     (\<forall>p. f p \<noteq> None \<longrightarrow> f' p = f p)
   \<and> (\<forall>p. f' p \<noteq> f p \<longrightarrow> f' p = Some Dir \<and> prefix p q)
   \<and> (r = None \<longrightarrow> f' q = Some Dir)
   \<and> (wf_fs f \<longrightarrow> wf_fs f')"
proof (induction E q f arbitrary: r f' rule: mkdir_all_at.induct)
  case (1 E q f)
  note eq = "1.prems"
  show ?case
  proof (cases "f q")
    case (Some n)
    from Some eq have "f' = f \<and> (r = None \<longrightarrow> n = Dir)"
      by (cases n) (auto simp add: mkdir_all_at.simps[of E q])
    with Some show ?thesis by simp
  next
    case None
    show ?thesis
    proof (cases "q = []")
      case True
      with None eq have "f' = f" "r \<noteq> None"
        by (auto simp: mkdir_all_at.simps[of E "[]"])
      then show ?thesis by auto
    next
      case False
      obtain r1 f1 where m: "mkdir_all_at E (butlast q) f = (r1, f1)"
        by (cases "mkdir_all_at E (butlast q) f")
      from "1.IH"[OF None False m]
      have k: "\<forall>p. f p \<noteq> None \<longrightarrow> f1 p = f p"
        and n: "\<forall>p. f1 p \<noteq> f p \<longrightarrow> f1 p = Some Dir \<and> prefix p (butlast q)"
        and wf: "wf_fs f \<longrightarrow> wf_fs f1"
        by blast+
      from n have n': "\<forall>p. f1 p \<noteq> f p \<longrightarrow> f1 p = Some Dir \<and> prefix p q"
        using prefix_butlast_trans by blast
      show ?thesis
      proof (cases r1)
        case (Some e)
        with None False m eq have "r = Some e" "f' = f1"
          by (simp_all add: mkdir_all_at.simps[of E q])
        with k n' wf show ?thesis by simp
      next
        case r1: None
        with None False m eq have e: "mkdir_at E q f1 = (r, f')"
          by (simp add: mkdir_all_at.simps[of E q])
        from mkdir_at_cases[OF e] show ?thesis
        proof
          assume a: "r = None \<and> f1 q = None \<and> q \<noteq> [] \<and> f1 (butlast q) = Some Dir
              \<and> \<not> deny_create E q \<and> f' = f1(q \<mapsto> Dir)"
          then have f': "f' = f1(q \<mapsto> Dir)" and q1: "f1 q = None" by simp_all
          have 1: "\<forall>p. f p \<noteq> None \<longrightarrow> f' p = f p"
          proof (intro allI impI)
            fix p assume "f p \<noteq> None"
            with k have "f1 p = f p" by blast
            with \<open>f p \<noteq> None\<close> q1 have "p \<noteq> q" by auto
            with \<open>f1 p = f p\<close> f' show "f' p = f p" by simp
          qed
          have 2: "\<forall>p. f' p \<noteq> f p \<longrightarrow> f' p = Some Dir \<and> prefix p q"
          proof (intro allI impI)
            fix p assume d: "f' p \<noteq> f p"
            show "f' p = Some Dir \<and> prefix p q"
            proof (cases "p = q")
              case True
              with f' show ?thesis by simp
            next
              case False
              with f' d have "f1 p \<noteq> f p" "f' p = f1 p" by auto
              with n' show ?thesis by metis
            qed
          qed
          have 3: "wf_fs f \<longrightarrow> wf_fs f'"
            using a wf wf_fs_put_dir[of f1 q] by blast
          have 4: "f' q = Some Dir" using f' by simp
          from 1 2 3 4 show ?thesis by blast
        next
          assume a: "r \<noteq> None \<and> f' = f1"
          with k n' wf show ?thesis by auto
        qed
      qed
    qed
  qed
qed

lemma wf_fs_ancestors:
  assumes "wf_fs f" "f q \<noteq> None" "prefix p q" "p \<noteq> q"
  shows "f p = Some Dir"
  using assms
proof (induction q rule: rev_induct)
  case Nil
  then show ?case by simp
next
  case (snoc x xs)
  from snoc.prems(1,2) have d: "f xs = Some Dir" by (auto simp: wf_fs_def)
  from snoc.prems(3,4) have "prefix p xs" by (auto simp: prefix_snoc)
  show ?case
  proof (cases "p = xs")
    case True
    with d show ?thesis by simp
  next
    case False
    with snoc.IH[OF snoc.prems(1) _ \<open>prefix p xs\<close>] d show ?thesis by simp
  qed
qed


subsection \<open>Single steps\<close>

lemma os_Create_cases:
  assumes "os_Create E name w = (r, w1)" "name \<noteq> []"
  shows "((\<exists>e. r = Inl e) \<and> w1 = w)
       \<or> (r = Inr \<lparr>Name = name, target = abs_path E name\<rparr>
          \<and> w1 = w\<lparr>fs := (fs w)(abs_path E name \<mapsto> File [])\<rparr>
          \<and> ((\<exists>c. fs w (abs_path E name) = Some (File c))
              \<or> (fs w (abs_path E name) = None \<and> abs_path E name \<noteq> []
                  \<and> fs w (butlast (abs_path E name)) = Some Dir)))"
  using assms
  by (auto simp: os_Create_def os_resolve_def split: option.splits node.splits if_splits)

lemma ReadFile_Inr:
  "ioutil_ReadFile E tn w = Inr c \<Longrightarrow> tn \<noteq> [] \<and> fs w (abs_path E tn) = Some (File c)"
  by (auto simp: ioutil_ReadFile_def os_resolve_def split: option.splits node.splits if_splits)

lemma writeContentFromTemplate_cases:
  assumes "writeContentFromTemplate E f tn w = (r, w')"
  shows "((\<exists>m. r = Exits m) \<and> w' = w)
       \<or> (\<exists>c x. ioutil_ReadFile E tn w = Inr c
            \<and> w' = w\<lparr>fs := (fs w)(target f \<mapsto> File x)\<rparr>
            \<and> (r = Returns () \<or> (\<exists>m. r = Exits m))
            \<and> (r = Returns () \<longrightarrow> x = c @ drop (length c) (file_content (fs w) (target f))))"
proof (cases "ioutil_ReadFile E tn w")
  case (Inl e)
  with assms show ?thesis by (auto simp add: writeContentFromTemplate_def)
next
  case (Inr c)
  obtain e w1 where fw: "file_Write E f c w = (e, w1)" by (cases "file_Write E f c w")
  then obtain x where w1: "w1 = w\<lparr>fs := (fs w)(target f \<mapsto> File x)\<rparr>"
    and x: "e = None \<longrightarrow> x = c @ drop (length c) (file_content (fs w) (target f))"
    by (auto simp: file_Write_def Let_def split: if_splits option.splits)
  from assms Inr fw have "w' = w1" "r = Returns () \<longleftrightarrow> e = None" "r = Returns () \<or> (\<exists>m. r = Exits m)"
    by (auto simp: writeContentFromTemplate_def split: option.splits)
  with Inr w1 x show ?thesis by auto
qed

lemma file_target:
  "dp \<noteq> [] \<Longrightarrow> plain file \<Longrightarrow>
     abs_path E (filepath_Join [dp, file]) = abs_path E dp @ [file]"
  using abs_path_Join[of dp "file" E] by (simp add: split_path_noslash plain_def)

lemma MakeDir_effect:
  assumes "run_step E (MakeDir bp d) w = (r, w')" "bp \<noteq> []"
  shows "stdin w' = stdin w \<and> procs w' = procs w
    \<and> (\<forall>p. fs w p \<noteq> None \<longrightarrow> fs w' p = fs w p)
    \<and> (\<forall>p. fs w' p \<noteq> fs w p \<longrightarrow> fs w' p = Some Dir \<and> prefix p (step_target E (MakeDir bp d)))
    \<and> (wf_fs (fs w) \<longrightarrow> wf_fs (fs w'))
    \<and> (r = Returns () \<longrightarrow> fs w' (step_target E (MakeDir bp d)) = Some Dir
          \<and> stdout w' = stdout w @ [step_line (MakeDir bp d)])
    \<and> (r \<noteq> Returns () \<longrightarrow> stdout w' = stdout w)"
proof -
  let ?n = "filepath_Join [bp, d]"
  have n: "?n \<noteq> []" using assms(2) by (rule Join2_nonempty)
  obtain e f' where m: "mkdir_all_at E (abs_path E ?n) (fs w) = (e, f')"
    by (cases "mkdir_all_at E (abs_path E ?n) (fs w)")
  from assms(1) n m have w': "fs w' = f'" "stdin w' = stdin w" "procs w' = procs w"
    and r: "r = Returns () \<longleftrightarrow> e = None"
    and o: "stdout w' = (if e = None then stdout w @ [step_line (MakeDir bp d)] else stdout w)"
    by (auto simp: make_dir_def os_MkdirAll_def os_resolve_def Print_def Let_def
        split: option.splits)
  from mkdir_all_at_props[OF m] w' r o show ?thesis by auto
qed

lemma MakeDir_success:
  assumes "run_step E (MakeDir bp d) w = (Returns (), w')" "bp \<noteq> []" "wf_fs (fs w)"
  shows "fs w' p = (if prefix p (step_target E (MakeDir bp d)) then Some Dir else fs w p)"
proof -
  let ?q = "step_target E (MakeDir bp d)"
  note e = MakeDir_effect[OF assms(1,2)]
  from e assms(3) have wf: "wf_fs (fs w')" and q: "fs w' ?q = Some Dir" by blast+
  show ?thesis
  proof (cases "prefix p ?q")
    case True
    then have "fs w' p = Some Dir"
      using wf_fs_ancestors[OF wf _ True] q by (cases "p = ?q") auto
    with True show ?thesis by simp
  next
    case False
    with e have "fs w' p = fs w p" by blast
    with False show ?thesis by simp
  qed
qed

lemma MakeFile_effect:
  assumes "run_step E (MakeFile dp file) w = (r, w')" "dp \<noteq> []"
  shows "stdin w' = stdin w \<and> procs w' = procs w
    \<and> (\<forall>p. p \<noteq> step_target E (MakeFile dp file) \<longrightarrow> fs w' p = fs w p)
    \<and> (\<forall>p. fs w p \<noteq> None \<longrightarrow> fs w' p \<noteq> None)
    \<and> (wf_fs (fs w) \<longrightarrow> wf_fs (fs w'))
    \<and> (r = Returns () \<longrightarrow> stdout w' = stdout w @ [step_line (MakeFile dp file)])
    \<and> (r = Returns () \<and> template_path E file \<noteq> step_target E (MakeFile dp file) \<longrightarrow>
          fs w (template_path E file) = Some (File (template_content E (fs w) file))
          \<and> fs w' = (fs w)(step_target E (MakeFile dp file)
                       \<mapsto> File (template_content E (fs w) file)))"
proof -
  let ?n = "filepath_Join [dp, file]"
  let ?q = "abs_path E ?n"
  let ?T = "template_path E file"
  have n: "?n \<noteq> []" using assms(2) by (rule Join2_nonempty)
  obtain c w1 where cr: "os_Create E ?n w = (c, w1)" by (cases "os_Create E ?n w")
  from os_Create_cases[OF cr n] show ?thesis
  proof
    assume "(\<exists>e. c = Inl e) \<and> w1 = w"
    with assms(1) cr have "w' = w" "r \<noteq> Returns ()"
      by (auto simp: create_file_def Let_def)
    then show ?thesis by simp
  next
    assume a: "c = Inr \<lparr>Name = ?n, target = ?q\<rparr> \<and> w1 = w\<lparr>fs := (fs w)(?q \<mapsto> File [])\<rparr>
       \<and> ((\<exists>c. fs w ?q = Some (File c))
            \<or> (fs w ?q = None \<and> ?q \<noteq> [] \<and> fs w (butlast ?q) = Some Dir))"
    let ?w2 = "Print (step_line (MakeFile dp file)) w1"
    let ?f2 = "(fs w)(?q \<mapsto> File [])"
    from a have f2: "fs ?w2 = ?f2" "stdin ?w2 = stdin w" "procs ?w2 = procs w"
      "stdout ?w2 = stdout w @ [step_line (MakeFile dp file)]"
      by (simp_all add: Print_def)
    from assms(1) cr a
    have wc: "writeContentFromTemplate E \<lparr>Name = ?n, target = ?q\<rparr> (getTemplateFileName file) ?w2
        = (r, w')"
      by (simp add: create_file_def Let_def)
    have ex: "(\<exists>c. fs w ?q = Some (File c))
            \<or> (fs w ?q = None \<and> ?q \<noteq> [] \<and> fs w (butlast ?q) = Some Dir)"
      using a by blast
    from writeContentFromTemplate_cases[OF wc] show ?thesis
    proof
      assume b: "(\<exists>m. r = Exits m) \<and> w' = ?w2"
      then have "fs w' = ?f2" "stdin w' = stdin w" "procs w' = procs w" "r \<noteq> Returns ()"
        using f2 by auto
      with ex wf_fs_put_file[of "fs w" ?q "[]"] show ?thesis by auto
    next
      assume "\<exists>c x. ioutil_ReadFile E (getTemplateFileName file) ?w2 = Inr c
            \<and> w' = ?w2\<lparr>fs := (fs ?w2)(target \<lparr>Name = ?n, target = ?q\<rparr> \<mapsto> File x)\<rparr>
            \<and> (r = Returns () \<or> (\<exists>m. r = Exits m))
            \<and> (r = Returns () \<longrightarrow>
                 x = c @ drop (length c) (file_content (fs ?w2) (target \<lparr>Name = ?n, target = ?q\<rparr>)))"
      then obtain c x where rd: "ioutil_ReadFile E (getTemplateFileName file) ?w2 = Inr c"
        and w': "w' = ?w2\<lparr>fs := ?f2(?q \<mapsto> File x)\<rparr>"
        and x: "r = Returns () \<longrightarrow> x = c"
        using f2 by (auto simp: file_content_def)
      from ReadFile_Inr[OF rd] f2 have t: "?f2 ?T = Some (File c)"
        by (simp add: template_path_def)
      from w' f2 have g: "fs w' = (fs w)(?q \<mapsto> File x)" "stdin w' = stdin w" "procs w' = procs w"
        "stdout w' = stdout w @ [step_line (MakeFile dp file)]"
        by simp_all
      have 1: "\<forall>p. p \<noteq> ?q \<longrightarrow> fs w' p = fs w p" using g by simp
      have 2: "\<forall>p. fs w p \<noteq> None \<longrightarrow> fs w' p \<noteq> None" using g by simp
      have 3: "wf_fs (fs w) \<longrightarrow> wf_fs (fs w')"
        using g ex wf_fs_put_file[of "fs w" ?q x] by auto
      have 4: "r = Returns () \<and> ?T \<noteq> ?q \<longrightarrow>
          fs w ?T = Some (File (template_content E (fs w) file))
          \<and> fs w' = (fs w)(?q \<mapsto> File (template_content E (fs w) file))"
        using t x g by (auto simp: template_content_def file_content_def)
      from 1 2 3 4 g show ?thesis by simp
    qed
  qed
qed


subsection \<open>Lists of steps\<close>

lemma steps_good_Cons: "steps_good E (s # S) \<Longrightarrow> steps_good E S"
  by (simp add: steps_good_def)

lemma file_step_last:
  assumes "step_ok s" "\<not> is_MakeDir s"
  shows "last (step_target E s) = step_file s"
  using assms by (cases s) (simp_all add: file_target)

lemma steps_success:
  assumes "run_steps E S w = (Returns (), w')" "wf_fs (fs w)" "steps_good E S"
  shows "wf_fs (fs w')
    \<and> (\<forall>p. fs w' p =
          (if p \<in> dir_targets E S then Some Dir
           else if p \<in> file_targets E S
             then Some (File (template_content E (fs w) (last p)))
           else fs w p))
    \<and> (\<forall>s\<in>set S. \<not> is_MakeDir s \<longrightarrow>
          fs w (template_path E (step_file s))
            = Some (File (template_content E (fs w) (step_file s))))
    \<and> stdout w' = stdout w @ map step_line S
    \<and> stdin w' = stdin w \<and> procs w' = procs w"
  using assms
proof (induction S arbitrary: w)
  case Nil
  then show ?case by (simp add: dir_targets_def file_targets_def)
next
  case (Cons s S)
  obtain r w1 where st: "run_step E s w = (r, w1)" by (cases "run_step E s w")
  with Cons.prems(1) have r: "r = Returns ()" and rest: "run_steps E S w1 = (Returns (), w')"
    by (auto split: outcome.splits)
  note st = st[unfolded r]
  from Cons.prems(3) have good: "steps_good E S" by (rule steps_good_Cons)
  from Cons.prems(3) have ok: "step_ok s" and oks: "\<forall>s'\<in>set S. step_ok s'"
    by (simp_all add: steps_good_def)
  let ?q = "step_target E s"
  let ?tc = "\<lambda>f n. template_content E f n"
  \<comment> \<open>what the first step does, and what it leaves alone\<close>
  have first: "wf_fs (fs w1) \<and> stdout w1 = stdout w @ [step_line s]
      \<and> stdin w1 = stdin w \<and> procs w1 = procs w
      \<and> (\<forall>p. fs w1 p = (if is_MakeDir s then (if prefix p ?q then Some Dir else fs w p)
                         else if p = ?q then Some (File (?tc (fs w) (step_file s))) else fs w p))
      \<and> (\<not> is_MakeDir s \<longrightarrow>
            fs w (template_path E (step_file s)) = Some (File (?tc (fs w) (step_file s))))
      \<and> (\<forall>p. fs w p \<noteq> fs w1 p \<longrightarrow>
            (is_MakeDir s \<and> fs w p = None \<and> fs w1 p = Some Dir) \<or> (\<not> is_MakeDir s \<and> p = ?q))"
  proof (cases s)
    case (MakeDir bp d)
    with ok have bp: "bp \<noteq> []" by simp
    from st MakeDir have st': "run_step E (MakeDir bp d) w = (Returns (), w1)" by simp
    note e = MakeDir_effect[OF st' bp]
    note su = MakeDir_success[OF st' bp Cons.prems(2)]
    from e Cons.prems(2) have a: "wf_fs (fs w1)" "stdout w1 = stdout w @ [step_line s]"
      "stdin w1 = stdin w" "procs w1 = procs w"
      unfolding MakeDir by blast+
    have b: "\<forall>p. fs w p \<noteq> fs w1 p \<longrightarrow> fs w p = None \<and> fs w1 p = Some Dir"
    proof (intro allI impI)
      fix p assume d: "fs w p \<noteq> fs w1 p"
      with e have "fs w1 p = Some Dir" by metis
      moreover from d e have "fs w p = None" by metis
      ultimately show "fs w p = None \<and> fs w1 p = Some Dir" by simp
    qed
    from a b su show ?thesis by (simp add: MakeDir)
  next
    case (MakeFile dp fl)
    with ok have dp: "dp \<noteq> []" by simp
    from st MakeFile have st': "run_step E (MakeFile dp fl) w = (Returns (), w1)" by simp
    from Cons.prems(3) MakeFile
    have ne: "template_path E fl \<noteq> step_target E (MakeFile dp fl)"
      by (simp add: steps_good_def)
    note e = MakeFile_effect[OF st' dp]
    from e Cons.prems(2) have a: "wf_fs (fs w1)" "stdout w1 = stdout w @ [step_line s]"
      "stdin w1 = stdin w" "procs w1 = procs w"
      unfolding MakeFile by blast+
    from e ne have t: "fs w (template_path E fl) = Some (File (template_content E (fs w) fl))"
      and f: "fs w1 = (fs w)(step_target E (MakeFile dp fl) \<mapsto> File (template_content E (fs w) fl))"
      by blast+
    from a t f show ?thesis by (simp add: MakeFile)
  qed
  then have wf1: "wf_fs (fs w1)" by blast
  from Cons.IH[OF rest wf1 good]
  have wf': "wf_fs (fs w')"
    and pt: "\<And>p. fs w' p =
          (if p \<in> dir_targets E S then Some Dir
           else if p \<in> file_targets E S then Some (File (?tc (fs w1) (last p)))
           else fs w1 p)"
    and tm: "\<And>s'. s' \<in> set S \<Longrightarrow> \<not> is_MakeDir s' \<Longrightarrow>
          fs w1 (template_path E (step_file s')) = Some (File (?tc (fs w1) (step_file s')))"
    and io: "stdout w' = stdout w1 @ map step_line S" "stdin w' = stdin w1" "procs w' = procs w1"
    by blast+
  \<comment> \<open>the templates of the later steps are not touched by the first step\<close>
  have keep: "fs w1 (template_path E (step_file s')) = fs w (template_path E (step_file s'))"
    if "s' \<in> set S" "\<not> is_MakeDir s'" for s'
  proof (rule ccontr)
    assume "fs w1 (template_path E (step_file s')) \<noteq> fs w (template_path E (step_file s'))"
    moreover from first have "\<forall>p. fs w p \<noteq> fs w1 p \<longrightarrow>
            (is_MakeDir s \<and> fs w p = None \<and> fs w1 p = Some Dir) \<or> (\<not> is_MakeDir s \<and> p = ?q)"
      by (elim conjE)
    ultimately have "(is_MakeDir s \<and> fs w1 (template_path E (step_file s')) = Some Dir)
        \<or> (\<not> is_MakeDir s \<and> template_path E (step_file s') = ?q)"
      by metis
    moreover from tm[OF that] have "fs w1 (template_path E (step_file s')) \<noteq> Some Dir" by simp
    moreover from Cons.prems(3) that
    have "\<not> is_MakeDir s \<longrightarrow> template_path E (step_file s') \<noteq> ?q"
      by (simp add: steps_good_def)
    ultimately show False by blast
  qed
  have tc: "?tc (fs w1) (step_file s') = ?tc (fs w) (step_file s')"
    if "s' \<in> set S" "\<not> is_MakeDir s'" for s'
    using keep[OF that] by (simp add: template_content_def file_content_def)
  have tcl: "?tc (fs w1) (last p) = ?tc (fs w) (last p)" if "p \<in> file_targets E S" for p
  proof -
    from that obtain s' where s': "s' \<in> set S" "\<not> is_MakeDir s'" "p = step_target E s'"
      by (auto simp: file_targets_def)
    with oks have "last p = step_file s'" by (simp add: file_step_last)
    with tc[OF s'(1,2)] show ?thesis by simp
  qed
  have dt: "dir_targets E (s # S) = (if is_MakeDir s then {p. prefix p ?q} else {}) \<union> dir_targets E S"
    by (auto simp: dir_targets_def)
  have ft: "file_targets E (s # S) = (if is_MakeDir s then {} else {?q}) \<union> file_targets E S"
    by (auto simp: file_targets_def)
  have noclash: "\<not> prefix p ?q" if "p \<in> file_targets E S" "is_MakeDir s" for p
    using that Cons.prems(3) by (auto simp: file_targets_def steps_good_def)
  have lastq: "\<not> is_MakeDir s \<Longrightarrow> last ?q = step_file s"
    using ok by (simp add: file_step_last)
  have point: "fs w' p =
          (if p \<in> dir_targets E (s # S) then Some Dir
           else if p \<in> file_targets E (s # S)
             then Some (File (?tc (fs w) (last p)))
           else fs w p)" for p
  proof (cases "is_MakeDir s")
    case True
    with first have f1: "fs w1 p = (if prefix p ?q then Some Dir else fs w p)" by metis
    show ?thesis
      using True f1 pt[of p] tcl[of p] noclash[of p] by (auto simp: dt ft)
  next
    case False
    with first have f1: "fs w1 p = (if p = ?q then Some (File (?tc (fs w) (step_file s))) else fs w p)"
      by metis
    show ?thesis
      using False f1 pt[of p] tcl[of p] lastq by (auto simp: dt ft)
  qed
  have tmpl: "\<forall>s'\<in>set (s # S). \<not> is_MakeDir s' \<longrightarrow>
          fs w (template_path E (step_file s'))
            = Some (File (?tc (fs w) (step_file s')))"
  proof (intro ballI impI)
    fix s' assume s': "s' \<in> set (s # S)" "\<not> is_MakeDir s'"
    show "fs w (template_path E (step_file s')) = Some (File (?tc (fs w) (step_file s')))"
    proof (cases "s' = s")
      case True
      with first s'(2) show ?thesis by blast
    next
      case False
      with s'(1) have "s' \<in> set S" by simp
      from tm[OF this s'(2)] keep[OF this s'(2)] tc[OF this s'(2)] show ?thesis by simp
    qed
  qed
  from first have io1: "stdout w1 = stdout w @ [step_line s]" "stdin w1 = stdin w"
    "procs w1 = procs w" by blast+
  have so: "stdout w' = stdout w @ map step_line (s # S)" using io io1 by simp
  have si: "stdin w' = stdin w" "procs w' = procs w" using io io1 by simp_all
  from point have point': "\<forall>p. fs w' p =
          (if p \<in> dir_targets E (s # S) then Some Dir
           else if p \<in> file_targets E (s # S)
             then Some (File (?tc (fs w) (last p)))
           else fs w p)" by blast
  from wf' point' tmpl so si show ?case by blast
qed


subsection \<open>The scaffold\<close>

lemma abs_path_rel_plain:
  assumes "\<not> is_rooted n" "list_all plain (split_path n)"
  shows "abs_path E n = clean_elems True (cwd E) @ split_path n"
proof -
  obtain u st where f: "foldl (clean_step True) (0, []) (cwd E) = (u, st)"
    by (cases "foldl (clean_step True) (0, []) (cwd E)")
  with assms show ?thesis
    by (simp add: abs_path_def clean_elems_def foldl_plain)
qed

lemma template_path_last:
  assumes "f \<in> set produced_files"
  shows "last (template_path E f) \<notin> set produced_files"
proof -
  have "\<exists>t. getTemplateFileName f = ''templates/'' @ t \<and> plain t \<and> t \<notin> set produced_files"
    using assms
    by (auto simp: produced_files_def dirs_def dockerFiles_def getTemplateFileName_def
        templateMapping_def plain_def)
  then obtain t where t: "getTemplateFileName f = ''templates/'' @ t" "plain t"
    "t \<notin> set produced_files" by blast
  have sp: "split_path (''templates/'' @ t) = [''templates'', t]"
    using split_path_append[of "''templates''" t] t(2)
    by (simp add: split_path_noslash plain_def)
  have "abs_path E (''templates/'' @ t) = clean_elems True (cwd E) @ [''templates'', t]"
    using abs_path_rel_plain[of "''templates/'' @ t" E] sp t(2)
    by (simp add: is_rooted_def plain_def)
  with t show ?thesis by (simp add: template_path_def)
qed

lemma dirs_plain: "e \<in> set dirs \<Longrightarrow> list_all plain (split_path (fst e))"
  by (auto simp: dirs_def plain_def Let_def)

lemma produced_plain: "f \<in> set produced_files \<Longrightarrow> plain f"
  by (auto simp: produced_files_def dirs_def dockerFiles_def plain_def)

lemma dirs_files_produced: "e \<in> set dirs \<Longrightarrow> f \<in> set (snd e) \<Longrightarrow> f \<in> set produced_files"
  by (auto simp: produced_files_def)

lemma docker_produced: "f \<in> set dockerFiles \<Longrightarrow> f \<in> set produced_files"
  by (auto simp: produced_files_def)

lemma dir_elems_not_files:
  "e \<in> set dirs \<Longrightarrow> x \<in> set (split_path (fst e)) \<Longrightarrow> x \<notin> set produced_files"
  by (auto simp: produced_files_def dirs_def dockerFiles_def Let_def)


lemma set_scaffold_steps:
  assumes "set (map_order E) = set dirs"
  shows "set (scaffold_steps E bp) =
     (\<lambda>e. MakeDir bp (fst e)) ` set dirs
     \<union> {MakeFile (filepath_Join [bp, fst e]) f | e f. e \<in> set dirs \<and> f \<in> set (snd e)}
     \<union> MakeFile bp ` set dockerFiles"
  using assms by (auto simp: scaffold_steps_def entry_steps_def)

lemma scaffold_target_dir:
  assumes "bp \<noteq> []" "e \<in> set dirs"
  shows "step_target E (MakeDir bp (fst e)) = abs_path E bp @ split_path (fst e)"
  using abs_path_Join[OF assms(1) dirs_plain[OF assms(2)]] by simp

lemma scaffold_target_file:
  assumes "bp \<noteq> []" "e \<in> set dirs" "f \<in> set (snd e)"
  shows "step_target E (MakeFile (filepath_Join [bp, fst e]) f)
     = abs_path E bp @ split_path (fst e) @ [f]"
proof -
  have "plain f" using assms(2,3) by (intro produced_plain dirs_files_produced)
  with file_target[OF Join2_nonempty[OF assms(1)], of f E "fst e"]
    abs_path_Join[OF assms(1) dirs_plain[OF assms(2)], of E]
  show ?thesis by simp
qed

lemma scaffold_target_root:
  assumes "bp \<noteq> []" "f \<in> set dockerFiles"
  shows "step_target E (MakeFile bp f) = abs_path E bp @ [f]"
  using file_target[OF assms(1) produced_plain[OF docker_produced[OF assms(2)]]] by simp

text \<open>Every step of the scaffold, seen from the project directory.\<close>

lemma scaffold_step_shape:
  assumes "s \<in> set (scaffold_steps E bp)" "set (map_order E) = set dirs" "bp \<noteq> []"
  shows "step_ok s \<and>
     (if is_MakeDir s
      then \<exists>e\<in>set dirs. step_target E s = abs_path E bp @ split_path (fst e)
      else step_file s \<in> set produced_files
           \<and> (\<exists>r. step_target E s = abs_path E bp @ r @ [step_file s]
                 \<and> r @ [step_file s] \<in> set rel_files))"
proof -
  from assms(1) set_scaffold_steps[OF assms(2), of bp]
  consider e where "e \<in> set dirs" "s = MakeDir bp (fst e)"
    | e f where "e \<in> set dirs" "f \<in> set (snd e)" "s = MakeFile (filepath_Join [bp, fst e]) f"
    | f where "f \<in> set dockerFiles" "s = MakeFile bp f"
    by auto
  then show ?thesis
  proof cases
    case 1
    with assms(3) scaffold_target_dir[OF assms(3) 1(1), of E] show ?thesis by auto
  next
    case 2
    have "split_path (fst e) @ [f] \<in> set rel_files"
      using 2(1,2) by (auto simp: rel_files_def)
    with 2 assms(3) scaffold_target_file[OF assms(3) 2(1,2), of E]
      produced_plain[OF dirs_files_produced[OF 2(1,2)]] dirs_files_produced[OF 2(1,2)]
    show ?thesis by (auto simp: Join2_nonempty)
  next
    case 3
    have "[] @ [f] \<in> set rel_files" using 3(1) by (auto simp: rel_files_def)
    with 3 assms(3) scaffold_target_root[OF assms(3) 3(1), of E]
      produced_plain[OF docker_produced[OF 3(1)]] docker_produced[OF 3(1)]
    show ?thesis by (metis append_Nil is_MakeDir.simps(2) step_file.simps(2) step_ok.simps(2))
  qed
qed

lemma rel_file_not_prefix:
  assumes "e \<in> set dirs" "f \<in> set produced_files"
  shows "\<not> prefix (r @ [f]) (split_path (fst e))"
proof
  assume "prefix (r @ [f]) (split_path (fst e))"
  then have "f \<in> set (split_path (fst e))" by (auto simp: prefix_def)
  with dir_elems_not_files[OF assms(1)] assms(2) show False by blast
qed

lemma scaffold_good:
  assumes "set (map_order E) = set dirs" "bp \<noteq> []"
  shows "steps_good E (scaffold_steps E bp)"
  unfolding steps_good_def
proof (intro conjI ballI impI)
  fix s assume "s \<in> set (scaffold_steps E bp)"
  from scaffold_step_shape[OF this assms] show "step_ok s" by simp
next
  fix s s' assume s: "s \<in> set (scaffold_steps E bp)" and s': "s' \<in> set (scaffold_steps E bp)"
    and k: "\<not> is_MakeDir s \<and> \<not> is_MakeDir s'"
  from scaffold_step_shape[OF s assms] k
  have "last (step_target E s) \<in> set produced_files" by auto
  moreover from scaffold_step_shape[OF s' assms] k
  have "step_file s' \<in> set produced_files" by auto
  then have "last (template_path E (step_file s')) \<notin> set produced_files"
    by (rule template_path_last)
  ultimately show "template_path E (step_file s') \<noteq> step_target E s" by auto
next
  fix s s' assume s: "s \<in> set (scaffold_steps E bp)" and s': "s' \<in> set (scaffold_steps E bp)"
    and k: "\<not> is_MakeDir s \<and> is_MakeDir s'"
  from scaffold_step_shape[OF s assms] k obtain r
    where r: "step_target E s = abs_path E bp @ r @ [step_file s]"
      "step_file s \<in> set produced_files" by auto
  from scaffold_step_shape[OF s' assms] k obtain e
    where e: "e \<in> set dirs" "step_target E s' = abs_path E bp @ split_path (fst e)" by auto
  from rel_file_not_prefix[OF e(1) r(2), of r] r(1) e(2)
  show "\<not> prefix (step_target E s) (step_target E s')" by simp
qed


lemma set_tl_prefixes: "set (tl (prefixes xs)) = {p. prefix p xs \<and> p \<noteq> []}"
  by (cases xs) (auto simp: prefix_Cons)

lemma set_rel_dirs:
  "set rel_dirs = {r. r \<noteq> [] \<and> (\<exists>e\<in>set dirs. prefix r (split_path (fst e)))}"
  by (auto simp: rel_dirs_def set_tl_prefixes)

lemma set_rel_files:
  "set rel_files =
     {split_path (fst e) @ [f] | e f. e \<in> set dirs \<and> f \<in> set (snd e)}
     \<union> {[f] | f. f \<in> set dockerFiles}"
  by (auto simp: rel_files_def)

lemma dirs_nonempty: "\<exists>e. e \<in> set dirs"
  by (auto simp: dirs_def)

lemma scaffold_dir_targets:
  assumes "set (map_order E) = set dirs" "bp \<noteq> []"
  shows "dir_targets E (scaffold_steps E bp)
     = {p. prefix p (abs_path E bp)} \<union> (\<lambda>r. abs_path E bp @ r) ` set rel_dirs"
    (is "?L = ?R")
proof -
  let ?B = "abs_path E bp"
  have L: "?L = {p. \<exists>e\<in>set dirs. prefix p (?B @ split_path (fst e))}"
  proof (intro set_eqI iffI)
    fix p assume "p \<in> ?L"
    then obtain s where s: "s \<in> set (scaffold_steps E bp)" "is_MakeDir s"
      "prefix p (step_target E s)" by (auto simp: dir_targets_def)
    with scaffold_step_shape[OF s(1) assms]
    obtain e where "e \<in> set dirs" "step_target E s = ?B @ split_path (fst e)" by auto
    with s(3)
    show "p \<in> {p. \<exists>e\<in>set dirs. prefix p (?B @ split_path (fst e))}" by force
  next
    fix p assume "p \<in> {p. \<exists>e\<in>set dirs. prefix p (?B @ split_path (fst e))}"
    then obtain e where e: "e \<in> set dirs" "prefix p (?B @ split_path (fst e))" by auto
    then have "MakeDir bp (fst e) \<in> set (scaffold_steps E bp)"
      by (auto simp: set_scaffold_steps[OF assms(1)])
    with e scaffold_target_dir[OF assms(2) e(1), of E] show "p \<in> ?L"
      unfolding dir_targets_def by force
  qed
  show ?thesis
  proof (intro set_eqI iffI)
    fix p assume "p \<in> ?L"
    with L obtain e where e: "e \<in> set dirs" "prefix p (?B @ split_path (fst e))" by auto
    from e(2) consider "prefix p ?B" | us where "p = ?B @ us" "prefix us (split_path (fst e))"
      by (auto simp: prefix_append)
    then show "p \<in> ?R"
    proof cases
      case 1
      then show ?thesis by simp
    next
      case 2
      show ?thesis
      proof (cases "us = []")
        case True
        with 2 show ?thesis by simp
      next
        case False
        with 2 e(1) have "us \<in> set rel_dirs" by (auto simp: set_rel_dirs)
        with 2 show ?thesis by simp
      qed
    qed
  next
    fix p assume "p \<in> ?R"
    then consider "prefix p ?B" | r where "r \<in> set rel_dirs" "p = ?B @ r" by auto
    then show "p \<in> ?L"
    proof cases
      case 1
      with dirs_nonempty L show ?thesis by (auto simp: prefix_append)
    next
      case 2
      then obtain e where "e \<in> set dirs" "prefix r (split_path (fst e))"
        by (auto simp: set_rel_dirs)
      with 2 L show ?thesis by auto
    qed
  qed
qed

lemma scaffold_file_targets:
  assumes "set (map_order E) = set dirs" "bp \<noteq> []"
  shows "file_targets E (scaffold_steps E bp) = (\<lambda>r. abs_path E bp @ r) ` set rel_files"
    (is "?L = ?R")
proof (intro set_eqI iffI)
  fix p assume "p \<in> ?L"
  then obtain s where s: "s \<in> set (scaffold_steps E bp)" "\<not> is_MakeDir s"
    "p = step_target E s" by (auto simp: file_targets_def)
  with scaffold_step_shape[OF s(1) assms] show "p \<in> ?R" by auto
next
  fix p assume "p \<in> ?R"
  then obtain r where r: "r \<in> set rel_files" "p = abs_path E bp @ r" by auto
  from r(1) consider e f where "e \<in> set dirs" "f \<in> set (snd e)" "r = split_path (fst e) @ [f]"
    | f where "f \<in> set dockerFiles" "r = [f]"
    by (auto simp: set_rel_files)
  then show "p \<in> ?L"
  proof cases
    case 1
    then have "MakeFile (filepath_Join [bp, fst e]) f \<in> set (scaffold_steps E bp)"
      by (auto simp: set_scaffold_steps[OF assms(1)])
    with scaffold_target_file[OF assms(2) 1(1,2), of E] r(2) 1(3) show ?thesis
      unfolding file_targets_def by force
  next
    case 2
    then have "MakeFile bp f \<in> set (scaffold_steps E bp)"
      by (auto simp: set_scaffold_steps[OF assms(1)])
    with scaffold_target_root[OF assms(2) 2(1), of E] r(2) 2(2) show ?thesis
      unfolding file_targets_def by force
  qed
qed

lemma map_of_under:
  "map_of (map (\<lambda>r. (B @ r, g r)) rs) p =
     (if p \<in> (\<lambda>r. B @ r) ` set rs then Some (g (drop (length B) p)) else None)"
  by (induction rs) auto

lemma rel_dirs_files_disjoint: "set rel_dirs \<inter> set rel_files = {}"
proof -
  have "r \<notin> set rel_dirs" if "r \<in> set rel_files" for r
  proof
    assume d: "r \<in> set rel_dirs"
    from that obtain r' f where r: "r = r' @ [f]" "f \<in> set produced_files"
      by (auto simp: set_rel_files dest: dirs_files_produced docker_produced)
    from d obtain e where "e \<in> set dirs" "prefix r (split_path (fst e))"
      by (auto simp: set_rel_dirs)
    with rel_file_not_prefix[OF this(1) r(2), of r'] r(1) show False by simp
  qed
  then show ?thesis by auto
qed

lemma rel_files_nonempty: "r \<in> set rel_files \<Longrightarrow> r \<noteq> []"
  by (auto simp: set_rel_files)

lemma rel_dirs_nonempty: "r \<in> set rel_dirs \<Longrightarrow> r \<noteq> []"
  by (auto simp: set_rel_dirs)


lemma scaffold_tree_lookup:
  "map_of (scaffold_tree E f B) p =
     (if p \<in> (\<lambda>r. B @ r) ` set rel_dirs then Some Dir
      else if p \<in> (\<lambda>r. B @ r) ` set rel_files
        then Some (File (template_content E f (last p)))
      else None)"
proof -
  have l: "last (drop (length B) p) = last p" if "p \<in> (\<lambda>r. B @ r) ` set rel_files"
    using that rel_files_nonempty by auto
  show ?thesis
    unfolding scaffold_tree_def map_of_append map_add_def map_of_under
    using l by (simp split: option.splits)
qed

lemma produced_is_step:
  assumes "f \<in> set produced_files" "set (map_order E) = set dirs"
  shows "\<exists>s\<in>set (scaffold_steps E bp). \<not> is_MakeDir s \<and> step_file s = f"
proof -
  from assms(1) consider e where "e \<in> set dirs" "f \<in> set (snd e)" | "f \<in> set dockerFiles"
    by (auto simp: produced_files_def)
  then show ?thesis
  proof cases
    case 1
    then have "MakeFile (filepath_Join [bp, fst e]) f \<in> set (scaffold_steps E bp)"
      by (auto simp: set_scaffold_steps[OF assms(2)])
    then show ?thesis by force
  next
    case 2
    then have "MakeFile bp f \<in> set (scaffold_steps E bp)"
      by (auto simp: set_scaffold_steps[OF assms(2)])
    then show ?thesis by force
  qed
qed

text \<open>What a successful createDirectoriesAndFiles leaves behind.\<close>

lemma scaffold_success:
  assumes run: "createDirectoriesAndFiles E bp w = (Returns (), w')"
    and bp: "bp \<noteq> []" and wf: "wf_fs (fs w)" and ord: "set (map_order E) = set dirs"
    and base: "fs w (abs_path E bp) = Some Dir"
  shows "fs w' = fs w ++ map_of (scaffold_tree E (fs w) (abs_path E bp))"
    and "wf_fs (fs w')"
    and "stdout w' = stdout w @ map step_line (scaffold_steps E bp)"
    and "stdin w' = stdin w" and "procs w' = procs w"
    and "\<forall>f\<in>set produced_files.
           fs w (template_path E f) = Some (File (template_content E (fs w) f))"
proof -
  let ?B = "abs_path E bp"
  let ?S = "scaffold_steps E bp"
  from run have rs: "run_steps E ?S w = (Returns (), w')"
    by (simp add: createDirectoriesAndFiles_steps)
  note ss = steps_success[OF rs wf scaffold_good[OF ord bp]]
  from ss show "wf_fs (fs w')" "stdout w' = stdout w @ map step_line ?S"
    "stdin w' = stdin w" "procs w' = procs w" by blast+
  from ss have tm: "\<forall>s\<in>set ?S. \<not> is_MakeDir s \<longrightarrow>
      fs w (template_path E (step_file s)) = Some (File (template_content E (fs w) (step_file s)))"
    by blast
  show "\<forall>f\<in>set produced_files.
           fs w (template_path E f) = Some (File (template_content E (fs w) f))"
  proof
    fix f assume "f \<in> set produced_files"
    from produced_is_step[OF this ord, of bp] tm show
      "fs w (template_path E f) = Some (File (template_content E (fs w) f))" by auto
  qed
  from ss have pt: "\<And>p. fs w' p =
          (if p \<in> dir_targets E ?S then Some Dir
           else if p \<in> file_targets E ?S
             then Some (File (template_content E (fs w) (last p)))
           else fs w p)" by blast
  show "fs w' = fs w ++ map_of (scaffold_tree E (fs w) ?B)"
  proof
    fix p
    have above: "fs w p = Some Dir" if "prefix p ?B"
      using wf_fs_ancestors[OF wf _ that] base by (cases "p = ?B") auto
    have notkey: "p \<notin> (\<lambda>r. ?B @ r) ` set rel_dirs" "p \<notin> (\<lambda>r. ?B @ r) ` set rel_files"
      if "prefix p ?B"
      using that rel_dirs_nonempty rel_files_nonempty by (auto simp: prefix_def)
    have dis: "p \<notin> (\<lambda>r. ?B @ r) ` set rel_files" if "p \<in> (\<lambda>r. ?B @ r) ` set rel_dirs"
      using that rel_dirs_files_disjoint by auto
    show "fs w' p = (fs w ++ map_of (scaffold_tree E (fs w) ?B)) p"
      unfolding pt[of p] scaffold_dir_targets[OF ord bp] scaffold_file_targets[OF ord bp]
        map_add_def scaffold_tree_lookup
      using above notkey dis by auto
  qed
qed


subsection \<open>The main function\<close>

lemma ExpandTilde_world [simp]: "snd (ExpandTilde E path w) = w"
  by (cases "user_Current E") (simp_all add: ExpandTilde_def)

lemma main_reaches_mkdir:
  assumes "inputs_ok E w"
  shows "main E w =
     (case os_Mkdir E (project_path E w) (asked w) of
        (Some err, w6) \<Rightarrow> (Exits (''Failed to create project base directory: '' @ err), w6)
      | (None, w6) \<Rightarrow>
          (case createDirectoriesAndFiles E (project_path E w)
                  (Print (''Created project base directory: '' @ project_path E w @ [CHR 0x0A]) w6) of
             (Exits m, w7) \<Rightarrow> (Exits m, w7)
           | (Returns _, w7) \<Rightarrow> initializeGoMod E (project_path E w) (name_line w) w7))"
proof -
  obtain l1 r1 where a: "ReadString (stdin w) = (l1, r1)" by (cases "ReadString (stdin w)")
  obtain l2 r2 where b: "ReadString r1 = (l2, r2)" by (cases "ReadString r1")
  obtain x e w3 where c: "ExpandTilde E (strings_TrimSpace l1) (w\<lparr>stdout := stdout w @ [base_prompt], stdin := r1\<rparr>) = ((x, e), w3)"
    by (metis surj_pair)
  from c have w3: "w3 = w\<lparr>stdout := stdout w @ [base_prompt], stdin := r1\<rparr>"
    using ExpandTilde_world[of E "strings_TrimSpace l1" "w\<lparr>stdout := stdout w @ [base_prompt], stdin := r1\<rparr>"]
    by simp
  have d: "fst (ExpandTilde E (strings_TrimSpace l1) w) = (x, e)"
    using c by (cases "user_Current E") (auto simp: ExpandTilde_def split: if_splits)
  from assms a b d have ok: "look_path E ''air''" "strings_TrimSpace l1 \<noteq> []" "e = None"
    "strings_TrimSpace l2 \<noteq> []"
    by (simp_all add: inputs_ok_def base_line_def name_line_def)
  have pp: "project_path E w = filepath_Join [x, strings_TrimSpace l2]"
    using a b d by (simp add: project_path_def expanded_base_def base_line_def name_line_def)
  have as: "asked w = w\<lparr>stdout := stdout w @ [base_prompt], stdin := r1,
      stdout := stdout w @ [base_prompt, name_prompt], stdin := r2\<rparr>"
    using a b by (simp add: asked_def)
  have nl: "name_line w = strings_TrimSpace l2"
    using a b by (simp add: name_line_def)
  show ?thesis
    unfolding pp as nl
    using ok a b c w3
    by (simp add: main_def ensureAirInstalled_def checkCommandExists_def Print_def Let_def)
qed


text \<open>The four ways main ends before it touches the file system.\<close>

lemma main_air_missing:
  "\<not> look_path E ''air'' \<Longrightarrow> main E w = (Exits air_missing_message, w)"
  by (simp add: main_def ensureAirInstalled_def checkCommandExists_def)

lemma main_base_empty:
  assumes "look_path E ''air''" "base_line w = []"
  shows "main E w = (Exits ''Base path cannot be empty'',
      w\<lparr>stdout := stdout w @ [base_prompt], stdin := snd (ReadString (stdin w))\<rparr>)"
proof -
  obtain l1 r1 where a: "ReadString (stdin w) = (l1, r1)" by (cases "ReadString (stdin w)")
  with assms show ?thesis
    by (simp add: main_def ensureAirInstalled_def checkCommandExists_def Print_def Let_def
        base_line_def)
qed

lemma main_expand_error:
  assumes "look_path E ''air''" "base_line w \<noteq> []"
    "snd (fst (ExpandTilde E (base_line w) w)) = Some err"
  shows "main E w = (Exits (''Error expanding base path: '' @ err),
      w\<lparr>stdout := stdout w @ [base_prompt], stdin := snd (ReadString (stdin w))\<rparr>)"
proof -
  obtain l1 r1 where a: "ReadString (stdin w) = (l1, r1)" by (cases "ReadString (stdin w)")
  from assms(3) have "strings_HasPrefix (base_line w) ''~/''" "user_Current E = Inl err"
    by (auto simp: ExpandTilde_def split: if_splits sum.splits)
  with assms(1,2) a show ?thesis
    by (simp add: main_def ensureAirInstalled_def checkCommandExists_def Print_def Let_def
        base_line_def ExpandTilde_def)
qed

lemma main_name_empty:
  assumes "look_path E ''air''" "base_line w \<noteq> []"
    "snd (fst (ExpandTilde E (base_line w) w)) = None" "name_line w = []"
  shows "main E w = (Exits ''Project name cannot be empty'', asked w)"
proof -
  obtain l1 r1 where a: "ReadString (stdin w) = (l1, r1)" by (cases "ReadString (stdin w)")
  obtain l2 r2 where b: "ReadString r1 = (l2, r2)" by (cases "ReadString r1")
  let ?w2 = "w\<lparr>stdout := stdout w @ [base_prompt], stdin := r1\<rparr>"
  obtain x e w3 where c: "ExpandTilde E (strings_TrimSpace l1) ?w2 = ((x, e), w3)"
    by (metis surj_pair)
  from c have w3: "w3 = ?w2"
    using ExpandTilde_world[of E "strings_TrimSpace l1" ?w2] by simp
  have d: "fst (ExpandTilde E (strings_TrimSpace l1) w) = (x, e)"
    using c by (cases "user_Current E") (auto simp: ExpandTilde_def split: if_splits)
  from assms a b d have ok: "look_path E ''air''" "strings_TrimSpace l1 \<noteq> []" "e = None"
    "strings_TrimSpace l2 = []"
    by (simp_all add: base_line_def name_line_def)
  have as: "asked w = w\<lparr>stdout := stdout w @ [base_prompt], stdin := r1,
      stdout := stdout w @ [base_prompt, name_prompt], stdin := r2\<rparr>"
    using a b by (simp add: asked_def)
  show ?thesis
    unfolding as using ok a b c w3
    by (simp add: main_def ensureAirInstalled_def checkCommandExists_def Print_def Let_def)
qed

lemma main_early_exit:
  assumes "\<not> inputs_ok E w"
  shows "\<exists>m w'. main E w = (Exits m, w') \<and> fs w' = fs w \<and> procs w' = procs w"
proof -
  consider "\<not> look_path E ''air''"
    | "look_path E ''air''" "base_line w = []"
    | err where "look_path E ''air''" "base_line w \<noteq> []"
        "snd (fst (ExpandTilde E (base_line w) w)) = Some err"
    | "look_path E ''air''" "base_line w \<noteq> []"
        "snd (fst (ExpandTilde E (base_line w) w)) = None" "name_line w = []"
    using assms unfolding inputs_ok_def by (cases "snd (fst (ExpandTilde E (base_line w) w))") auto
  then show ?thesis
  proof cases
    case 1
    then show ?thesis by (simp add: main_air_missing)
  next
    case 2
    then show ?thesis by (simp add: main_base_empty)
  next
    case 3
    then show ?thesis by (simp add: main_expand_error)
  next
    case 4
    then show ?thesis by (simp add: main_name_empty asked_def)
  qed
qed

lemma project_path_nonempty: "name_line w \<noteq> [] \<Longrightarrow> project_path E w \<noteq> []"
  by (auto simp: project_path_def filepath_Join_def Clean_nonempty split: list.splits)

lemma os_Mkdir_cases:
  assumes "os_Mkdir E name w = (r, w')" "name \<noteq> []"
  shows "(r = None \<and> fs w (abs_path E name) = None \<and> abs_path E name \<noteq> []
            \<and> fs w (butlast (abs_path E name)) = Some Dir
            \<and> \<not> deny_create E (abs_path E name)
            \<and> w' = w\<lparr>fs := (fs w)(abs_path E name \<mapsto> Dir)\<rparr>)
       \<or> ((\<exists>e. r = Some (PathError ''mkdir'' name e)) \<and> w' = w
            \<and> (fs w (abs_path E name) \<noteq> None \<or> abs_path E name = []
                \<or> fs w (butlast (abs_path E name)) \<noteq> Some Dir
                \<or> deny_create E (abs_path E name)))"
proof -
  obtain e f' where m: "mkdir_at E (abs_path E name) (fs w) = (e, f')"
    by (cases "mkdir_at E (abs_path E name) (fs w)")
  from mkdir_at_cases[OF m] show ?thesis
  proof
    assume "e = None \<and> fs w (abs_path E name) = None \<and> abs_path E name \<noteq> []
       \<and> fs w (butlast (abs_path E name)) = Some Dir \<and> \<not> deny_create E (abs_path E name)
       \<and> f' = (fs w)(abs_path E name \<mapsto> Dir)"
    with assms m show ?thesis by (auto simp: os_Mkdir_def os_resolve_def)
  next
    assume a: "e \<noteq> None \<and> f' = fs w"
    then obtain x where "e = Some x" by auto
    with a assms m have "r = Some (PathError ''mkdir'' name x)" "w' = w"
      by (auto simp: os_Mkdir_def os_resolve_def)
    moreover from m a have "fs w (abs_path E name) \<noteq> None \<or> abs_path E name = []
                \<or> fs w (butlast (abs_path E name)) \<noteq> Some Dir
                \<or> deny_create E (abs_path E name)"
      by (auto simp: mkdir_at_def split: if_splits option.splits node.splits)
    ultimately show ?thesis by blast
  qed
qed

lemma os_Mkdir_exists:
  assumes "fs w (abs_path E name) \<noteq> None" "name \<noteq> []"
  shows "os_Mkdir E name w = (Some (PathError ''mkdir'' name EEXIST), w)"
  using assms by (auto simp: os_Mkdir_def os_resolve_def mkdir_at_def)

subsection \<open>The module commands\<close>

lemma runCommand_cases:
  "runCommand E dir command args w =
     (case fst (exec_effect E dir command args (fs w)) of
        Some err \<Rightarrow> Exits (''Error running command: '' @ err)
      | None \<Rightarrow> Returns None,
      w\<lparr>procs := procs w @ [(dir, command, args)],
        fs := snd (exec_effect E dir command args (fs w))\<rparr>)"
  by (auto simp: runCommand_def Let_def split: prod.splits option.splits)

lemma initializeGoMod_Returns:
  assumes "initializeGoMod E bp name w = (Returns (), w')"
  shows "fst (exec_effect E bp ''go'' [''mod'', ''init'', name] (fs w)) = None"
    and "fst (exec_effect E bp ''go'' [''mod'', ''tidy'']
           (snd (exec_effect E bp ''go'' [''mod'', ''init'', name] (fs w)))) = None"
    and "fs w' = go_mod_effect E bp name (fs w)"
    and "procs w' = procs w @ [(bp, ''go'', [''mod'', ''init'', name]), (bp, ''go'', [''mod'', ''tidy''])]"
    and "stdin w' = stdin w"
    and "stdout w' = stdout w @ [''Initializing Go module...'' @ [CHR 0x0A],
           ''Tidying up Go module dependencies...'' @ [CHR 0x0A],
           ''Go module initialized successfully!'' @ [CHR 0x0A]]"
  using assms
  by (auto simp: initializeGoMod_def runCommand_cases go_mod_effect_def Print_def
      split: option.splits)


subsection \<open>Nothing is ever deleted\<close>

lemma run_step_keeps:
  assumes "run_step E s w = (r, w')" "step_dir s \<noteq> []" "fs w p \<noteq> None"
  shows "fs w' p \<noteq> None"
proof (cases s)
  case (MakeDir bp d)
  with assms MakeDir_effect[of E bp d w r w'] show ?thesis by auto
next
  case (MakeFile dp fl)
  with assms MakeFile_effect[of E dp fl w r w'] show ?thesis by auto
qed

lemma run_steps_keeps:
  assumes "run_steps E S w = (r, w')" "\<forall>s\<in>set S. step_dir s \<noteq> []" "fs w p \<noteq> None"
  shows "fs w' p \<noteq> None"
  using assms
proof (induction S arbitrary: w)
  case Nil
  then show ?case by simp
next
  case (Cons s S)
  obtain r1 w1 where st: "run_step E s w = (r1, w1)" by (cases "run_step E s w")
  with Cons.prems have k: "fs w1 p \<noteq> None" by (auto dest: run_step_keeps)
  show ?case
  proof (cases r1)
    case (Exits m)
    with st Cons.prems(1) k show ?thesis by simp
  next
    case (Returns u)
    with st Cons.prems(1) have "run_steps E S w1 = (r, w')" by simp
    from Cons.IH[OF this _ k] Cons.prems(2) show ?thesis by simp
  qed
qed

lemma scaffold_keeps:
  assumes "createDirectoriesAndFiles E bp w = (r, w')" "bp \<noteq> []" "fs w p \<noteq> None"
  shows "fs w' p \<noteq> None"
proof -
  have "\<forall>s\<in>set (scaffold_steps E bp). step_dir s \<noteq> []"
    using assms(2) by (auto simp: scaffold_steps_def entry_steps_def Join2_nonempty)
  with assms run_steps_keeps[of E "scaffold_steps E bp" w r w' p] show ?thesis
    by (simp add: createDirectoriesAndFiles_steps)
qed

text \<open>The inputs of a run depend on standard input and on the user database only.\<close>

lemma ExpandTilde_result: "fst (ExpandTilde E path w) = fst (ExpandTilde E path w0)"
  by (cases "user_Current E") (simp_all add: ExpandTilde_def)

lemma same_inputs:
  assumes "stdin w2 = stdin w"
  shows "base_line w2 = base_line w" "name_line w2 = name_line w"
    "project_path E w2 = project_path E w" "inputs_ok E w2 = inputs_ok E w"
  using assms ExpandTilde_result[of E "base_line w" w2 w]
  by (simp_all add: base_line_def name_line_def project_path_def expanded_base_def inputs_ok_def)

lemma main_Returns:
  assumes "main E w = (Returns (), w')"
  obtains w6 w7 where "inputs_ok E w"
    "os_Mkdir E (project_path E w) (asked w) = (None, w6)"
    "createDirectoriesAndFiles E (project_path E w)
       (Print (''Created project base directory: '' @ project_path E w @ [CHR 0x0A]) w6)
       = (Returns (), w7)"
    "initializeGoMod E (project_path E w) (name_line w) w7 = (Returns (), w')"
proof -
  have ok: "inputs_ok E w"
  proof (rule ccontr)
    assume "\<not> inputs_ok E w"
    from main_early_exit[OF this] assms show False by auto
  qed
  obtain r6 w6 where m: "os_Mkdir E (project_path E w) (asked w) = (r6, w6)"
    by (cases "os_Mkdir E (project_path E w) (asked w)")
  with assms main_reaches_mkdir[OF ok] have r6: "r6 = None"
    by (cases r6) auto
  obtain r7 w7 where c: "createDirectoriesAndFiles E (project_path E w)
       (Print (''Created project base directory: '' @ project_path E w @ [CHR 0x0A]) w6) = (r7, w7)"
    by (cases "createDirectoriesAndFiles E (project_path E w)
       (Print (''Created project base directory: '' @ project_path E w @ [CHR 0x0A]) w6)")
  with assms main_reaches_mkdir[OF ok] m r6 have r7: "r7 = Returns ()"
    by (cases r7) auto
  from assms main_reaches_mkdir[OF ok] m r6 c r7
  have "initializeGoMod E (project_path E w) (name_line w) w7 = (Returns (), w')" by simp
  with ok m r6 c r7 that show ?thesis by blast
qed

lemma fresh_below:
  assumes "wf_fs f" "f B = None" "prefix B p"
  shows "f p = None"
proof (rule ccontr)
  assume "f p \<noteq> None"
  from wf_fs_ancestors[OF assms(1) this assms(3)] assms(2) show False
    by (cases "p = B") (use \<open>f p \<noteq> None\<close> in auto)
qed

lemma set_mset_eq: "mset xs = mset ys \<Longrightarrow> set xs = set ys"
  by (rule mset_eq_setD)

lemma rel_files_last: "map last rel_files = produced_files"
  by (simp add: rel_files_def produced_files_def dirs_def dockerFiles_def)

lemma rel_files_last_in: "r \<in> set rel_files \<Longrightarrow> last r \<in> set produced_files"
  using rel_files_last by (metis image_eqI list.set_map)

lemma scaffold_tree_keys:
  "fst ` set (scaffold_tree E f B) = (\<lambda>r. B @ r) ` (set rel_dirs \<union> set rel_files)"
  by (auto simp: scaffold_tree_def image_Un image_image)

lemma scaffold_tree_cong:
  assumes "\<And>n. n \<in> set produced_files \<Longrightarrow> template_content E f n = template_content E g n"
  shows "scaffold_tree E f B = scaffold_tree E g B"
  using assms by (simp add: scaffold_tree_def rel_files_last_in)

text \<open>What a run of main that returns has done.\<close>

lemma main_success:
  assumes run: "main E w = (Returns (), w')" and wf: "wf_fs (fs w)"
    and ord: "set (map_order E) = set dirs"
  shows "inputs_ok E w"
    and "fs w (abs_path E (project_path E w)) = None"
    and "\<forall>p. prefix (abs_path E (project_path E w)) p \<longrightarrow> fs w p = None"
    and "\<forall>f\<in>set produced_files.
           fs w (template_path E f) = Some (File (template_content E (fs w) f))"
    and "fs w' = go_mod_effect E (project_path E w) (name_line w)
           (fs w ++ map_of ((abs_path E (project_path E w), Dir)
              # scaffold_tree E (fs w) (abs_path E (project_path E w))))"
    and "stdout w' = stdout w @ [base_prompt, name_prompt,
             ''Created project base directory: '' @ project_path E w @ [CHR 0x0A]]
           @ map step_line (scaffold_steps E (project_path E w))
           @ [''Initializing Go module...'' @ [CHR 0x0A],
              ''Tidying up Go module dependencies...'' @ [CHR 0x0A],
              ''Go module initialized successfully!'' @ [CHR 0x0A]]"
    and "procs w' = procs w @ [(project_path E w, ''go'', [''mod'', ''init'', name_line w]),
           (project_path E w, ''go'', [''mod'', ''tidy''])]"
    and "stdin w' = snd (ReadString (snd (ReadString (stdin w))))"
proof -
  let ?pp = "project_path E w"
  let ?B = "abs_path E ?pp"
  let ?w6' = "\<lambda>w6. Print (''Created project base directory: '' @ ?pp @ [CHR 0x0A]) w6"
  from run obtain w6 w7 where ok: "inputs_ok E w"
    and m: "os_Mkdir E ?pp (asked w) = (None, w6)"
    and c: "createDirectoriesAndFiles E ?pp (?w6' w6) = (Returns (), w7)"
    and g: "initializeGoMod E ?pp (name_line w) w7 = (Returns (), w')"
    by (auto elim: main_Returns)
  show "inputs_ok E w" by fact
  from ok have ne: "?pp \<noteq> []" by (simp add: inputs_ok_def project_path_nonempty)
  from os_Mkdir_cases[OF m ne]
  have B0: "fs w ?B = None" and Bne: "?B \<noteq> []" and par: "fs w (butlast ?B) = Some Dir"
    and w6: "w6 = (asked w)\<lparr>fs := (fs w)(?B \<mapsto> Dir)\<rparr>"
    by (auto simp: asked_def)
  show "fs w ?B = None" by fact
  show below: "\<forall>p. prefix ?B p \<longrightarrow> fs w p = None"
    using fresh_below[OF wf B0] by blast
  let ?f6 = "(fs w)(?B \<mapsto> Dir)"
  have f6: "fs (?w6' w6) = ?f6" "stdin (?w6' w6) = snd (ReadString (snd (ReadString (stdin w))))"
    "procs (?w6' w6) = procs w"
    "stdout (?w6' w6) = stdout w @ [base_prompt, name_prompt,
        ''Created project base directory: '' @ ?pp @ [CHR 0x0A]]"
    using w6 by (simp_all add: Print_def asked_def)
  have wf6: "wf_fs ?f6" using wf_fs_put_dir[OF wf B0 Bne par] .
  note sc = scaffold_success[OF c ne, unfolded f6, OF wf6 ord]
  have B6: "?f6 ?B = Some Dir" by simp
  from sc(6)[OF B6] have t6: "\<forall>f\<in>set produced_files.
       ?f6 (template_path E f) = Some (File (template_content E ?f6 f))" .
  have tne: "template_path E f \<noteq> ?B" if "f \<in> set produced_files" for f
    using t6 that by (metis fun_upd_same node.distinct(1) option.inject)
  have tc: "template_content E ?f6 f = template_content E (fs w) f"
    if "f \<in> set produced_files" for f
    using tne[OF that] by (simp add: template_content_def file_content_def)
  show "\<forall>f\<in>set produced_files.
           fs w (template_path E f) = Some (File (template_content E (fs w) f))"
    using t6 tne tc by auto
  have tree: "scaffold_tree E ?f6 ?B = scaffold_tree E (fs w) ?B"
    using tc by (rule scaffold_tree_cong)
  have nk: "map_of (scaffold_tree E (fs w) ?B) ?B = None"
    using rel_dirs_nonempty rel_files_nonempty
    by (auto simp: scaffold_tree_lookup)
  have "fs w7 = ?f6 ++ map_of (scaffold_tree E (fs w) ?B)"
    using sc(1)[OF B6] tree by simp
  also have "\<dots> = fs w ++ map_of ((?B, Dir) # scaffold_tree E (fs w) ?B)"
    using nk by (auto simp: map_add_def fun_eq_iff split: option.splits)
  finally have f7: "fs w7 = fs w ++ map_of ((?B, Dir) # scaffold_tree E (fs w) ?B)" .
  note gm = initializeGoMod_Returns[OF g]
  from gm(3) f7 show "fs w' = go_mod_effect E ?pp (name_line w)
           (fs w ++ map_of ((?B, Dir) # scaffold_tree E (fs w) ?B))" by simp
  from gm(6) sc(3)[OF B6] f6 show "stdout w' = stdout w @ [base_prompt, name_prompt,
             ''Created project base directory: '' @ ?pp @ [CHR 0x0A]]
           @ map step_line (scaffold_steps E ?pp)
           @ [''Initializing Go module...'' @ [CHR 0x0A],
              ''Tidying up Go module dependencies...'' @ [CHR 0x0A],
              ''Go module initialized successfully!'' @ [CHR 0x0A]]"
    by simp
  from gm(4) sc(5)[OF B6] f6 show "procs w' = procs w @ [(?pp, ''go'', [''mod'', ''init'', name_line w]),
           (?pp, ''go'', [''mod'', ''tidy''])]" by simp
  from gm(5) sc(4)[OF B6] f6 show "stdin w' = snd (ReadString (snd (ReadString (stdin w))))"
    by simp
qed

lemma rel_dirs_eq:
  "rel_dirs = [[''cmd''], [''pkg'', ''router''], [''pkg'', ''middleware''],
      [''pkg'', ''handlers''], [''pkg'', ''models''], [''pkg''], [''pkg'', ''db''], [''config'']]"
  by (simp add: rel_dirs_def dirs_def Let_def)

lemma rel_files_eq:
  "rel_files = [[''cmd'', ''main.go''], [''pkg'', ''router'', ''router.go''],
      [''pkg'', ''middleware'', ''middleware.go''], [''pkg'', ''handlers'', ''handlers.go''],
      [''pkg'', ''models'', ''models.go''], [''pkg'', ''db'', ''db.go''],
      [''config'', ''config.yaml''], [''Dockerfile''], [''docker-compose.yaml''],
      [''Makefile''], [''.air.toml'']]"
  by (simp add: rel_files_def dirs_def dockerFiles_def Let_def)


lemma steps_good_mono:
  "steps_good E S \<Longrightarrow> set S' \<subseteq> set S \<Longrightarrow> steps_good E S'"
  unfolding steps_good_def by blast

lemma mset_concat_map_cong:
  assumes "mset xs = mset ys"
  shows "mset (concat (map g xs)) = mset (concat (map g ys))"
proof -
  have "mset (concat (map g zs)) = sum_mset (image_mset (mset \<circ> g) (mset zs))" for zs
    by (induction zs) simp_all
  with assms show ?thesis by simp
qed

lemma scaffold_step_files:
  "map step_file (filter (\<lambda>s. \<not> is_MakeDir s) (scaffold_steps E bp))
     = concat (map snd (map_order E)) @ dockerFiles"
proof -
  have a: "map step_file (filter (\<lambda>s. \<not> is_MakeDir s) (concat (map (entry_steps bp) es)))
      = concat (map snd es)" for es
    by (induction es) (simp_all add: entry_steps_def filter_map comp_def)
  have b: "map step_file (filter (\<lambda>s. \<not> is_MakeDir s) (map (MakeFile bp) fs)) = fs" for fs
    by (induction fs) simp_all
  have c: "map (step_file \<circ> MakeFile bp) fs = fs" for fs
    by (induction fs) simp_all
  show ?thesis by (simp add: scaffold_steps_def a b c)
qed

lemma scaffold_step_files_distinct:
  assumes "mset (map_order E) = mset dirs"
  shows "distinct (map step_file (filter (\<lambda>s. \<not> is_MakeDir s) (scaffold_steps E bp)))"
proof -
  have "mset (concat (map snd (map_order E)) @ dockerFiles) = mset produced_files"
    using mset_concat_map_cong[OF assms, of snd] by (simp add: produced_files_def)
  moreover have "distinct produced_files"
    by (simp add: produced_files_def dirs_def dockerFiles_def)
  ultimately show ?thesis
    unfolding scaffold_step_files by (metis mset_eq_imp_distinct_iff)
qed

text \<open>A file step of the scaffold works on a path no earlier step has worked on.\<close>

lemma scaffold_file_step_fresh:
  assumes ord: "mset (map_order E) = mset dirs" and bp: "bp \<noteq> []"
    and sp: "scaffold_steps E bp = pre @ s # post" and s: "\<not> is_MakeDir s"
  shows "step_target E s \<notin> dir_targets E pre" and "step_target E s \<notin> file_targets E pre"
proof -
  let ?S = "scaffold_steps E bp"
  from ord have so: "set (map_order E) = set dirs" by (rule mset_eq_setD)
  note good = scaffold_good[OF so bp]
  have sin: "s \<in> set ?S" and pin: "set pre \<subseteq> set ?S" using sp by auto
  show "step_target E s \<notin> dir_targets E pre"
  proof
    assume "step_target E s \<in> dir_targets E pre"
    then obtain s' where "s' \<in> set pre" "is_MakeDir s'"
      "prefix (step_target E s) (step_target E s')" by (auto simp: dir_targets_def)
    with good sin pin s show False unfolding steps_good_def by blast
  qed
  show "step_target E s \<notin> file_targets E pre"
  proof
    assume "step_target E s \<in> file_targets E pre"
    then obtain s' where s': "s' \<in> set pre" "\<not> is_MakeDir s'"
      "step_target E s = step_target E s'" by (auto simp: file_targets_def)
    from good sin pin s' have "step_ok s" "step_ok s'" unfolding steps_good_def by blast+
    with s s' have "step_file s = step_file s'"
      using file_step_last[of s E] file_step_last[of s' E] by simp
    moreover from scaffold_step_files_distinct[OF ord, of bp] s
    have "step_file s \<notin> set (map step_file (filter (\<lambda>s. \<not> is_MakeDir s) pre))"
      unfolding sp by simp
    ultimately show False using s' by auto
  qed
qed

lemma scaffold_tree_explicit:
  "scaffold_tree E f B =
     map (\<lambda>r. (B @ r, Dir))
       [[''cmd''], [''pkg'', ''router''], [''pkg'', ''middleware''], [''pkg'', ''handlers''],
        [''pkg'', ''models''], [''pkg''], [''pkg'', ''db''], [''config'']]
     @ map (\<lambda>(r, t). (B @ r, File (file_content f (abs_path E t))))
       [([''cmd'', ''main.go''], ''templates/main.txt''),
        ([''pkg'', ''router'', ''router.go''], ''templates/routes.txt''),
        ([''pkg'', ''middleware'', ''middleware.go''], ''templates/middleware.txt''),
        ([''pkg'', ''handlers'', ''handlers.go''], ''templates/handlers.txt''),
        ([''pkg'', ''models'', ''models.go''], ''templates/models.txt''),
        ([''pkg'', ''db'', ''db.go''], ''templates/db.txt''),
        ([''config'', ''config.yaml''], ''templates/config.txt''),
        ([''Dockerfile''], ''templates/dockers.txt''),
        ([''docker-compose.yaml''], ''templates/docker.txt''),
        ([''Makefile''], ''templates/makerun.txt''),
        ([''.air.toml''], ''templates/air.txt'')]"
  unfolding scaffold_tree_def rel_dirs_eq rel_files_eq
  by (simp add: template_content_def template_path_def getTemplateFileName_def templateMapping_def)

lemma order_irrelevant_abs: "abs_path (E\<lparr>map_order := ord\<rparr>) n = abs_path E n"
  by (simp add: abs_path_def)

lemma order_irrelevant_project: "project_path (E\<lparr>map_order := ord\<rparr>) w = project_path E w"
proof -
  have "ExpandTilde (E\<lparr>map_order := ord\<rparr>) p w = ExpandTilde E p w" for p
    by (simp add: ExpandTilde_def)
  then show ?thesis by (simp add: project_path_def expanded_base_def)
qed

lemma order_irrelevant_tree: "scaffold_tree (E\<lparr>map_order := ord\<rparr>) f B = scaffold_tree E f B"
proof -
  have "template_content (E\<lparr>map_order := ord\<rparr>) f n = template_content E f n" for n
    by (simp add: template_content_def template_path_def order_irrelevant_abs)
  then show ?thesis by (simp add: scaffold_tree_def)
qed

lemma order_irrelevant_go: "go_mod_effect (E\<lparr>map_order := ord\<rparr>) bp nm f = go_mod_effect E bp nm f"
  by (simp add: go_mod_effect_def)

lemmas order_irrelevant =
  order_irrelevant_abs order_irrelevant_project order_irrelevant_tree order_irrelevant_go



subsection \<open>Trimming\<close>

lemma space_runes_nonempty: "r \<in> set space_runes \<Longrightarrow> r \<noteq> []"
  by (auto simp: space_runes_def)

lemma space_runes_prefix_free:
  "list_all (\<lambda>r. list_all (\<lambda>r'. \<not> prefix r r' \<or> r = r') space_runes) space_runes"
  by code_simp

lemma strip_runes_decomp:
  "\<exists>ws. set ws \<subseteq> set rs \<and> s = concat ws @ strip_runes rs s"
proof (induction rs s rule: strip_runes.induct)
  case (1 rs s)
  show ?case
  proof (cases "find (\<lambda>r. r \<noteq> [] \<and> prefix r s) rs")
    case None
    then have "strip_runes rs s = s" by (simp add: strip_runes.simps[of rs s])
    then have "set [] \<subseteq> set rs \<and> s = concat [] @ strip_runes rs s" by simp
    then show ?thesis by blast
  next
    case (Some r)
    then have r: "r \<in> set rs" "prefix r s" by (auto simp: find_Some_iff)
    from Some have e: "strip_runes rs s = strip_runes rs (drop (length r) s)"
      by (simp add: strip_runes.simps[of rs s])
    from "1.IH"[OF Some] obtain ws where ws: "set ws \<subseteq> set rs"
      "drop (length r) s = concat ws @ strip_runes rs (drop (length r) s)" by blast
    from r(2) have "s = r @ drop (length r) s" by (auto simp: prefix_def)
    with ws(2) e have "s = concat (r # ws) @ strip_runes rs s" by simp
    moreover from r(1) ws(1) have "set (r # ws) \<subseteq> set rs" by simp
    ultimately show ?thesis by blast
  qed
qed

lemma strip_runes_no_prefix:
  "r \<in> set rs \<Longrightarrow> r \<noteq> [] \<Longrightarrow> \<not> prefix r (strip_runes rs s)"
proof (induction rs s rule: strip_runes.induct)
  case (1 rs s)
  show ?case
  proof (cases "find (\<lambda>r. r \<noteq> [] \<and> prefix r s) rs")
    case None
    then have "strip_runes rs s = s" by (simp add: strip_runes.simps[of rs s])
    with None "1.prems" show ?thesis by (auto simp: find_None_iff)
  next
    case (Some x)
    then have "strip_runes rs s = strip_runes rs (drop (length x) s)"
      by (simp add: strip_runes.simps[of rs s])
    with "1.IH"[OF Some "1.prems"] show ?thesis by simp
  qed
qed

lemma strip_runes_blank:
  assumes "set ws \<subseteq> set space_runes"
  shows "strip_runes space_runes (concat ws @ s) = strip_runes space_runes s"
  using assms
proof (induction ws)
  case Nil
  then show ?case by simp
next
  case (Cons r ws)
  then have r: "r \<in> set space_runes" "r \<noteq> []" by (auto dest: space_runes_nonempty)
  let ?s = "r @ concat ws @ s"
  from r have "\<exists>x\<in>set space_runes. x \<noteq> [] \<and> prefix x ?s" by auto
  then obtain x where f: "find (\<lambda>x. x \<noteq> [] \<and> prefix x ?s) space_runes = Some x"
    by (cases "find (\<lambda>x. x \<noteq> [] \<and> prefix x ?s) space_runes") (auto simp: find_None_iff)
  then have x: "x \<in> set space_runes" "prefix x ?s" by (auto simp: find_Some_iff)
  have "prefix r ?s" by simp
  with x(2) have "prefix x r \<or> prefix r x" by (rule prefix_same_cases)
  with space_runes_prefix_free r(1) x(1) have "x = r" by (auto simp: list_all_iff)
  with f have "strip_runes space_runes ?s = strip_runes space_runes (concat ws @ s)"
    by (simp add: strip_runes.simps[of space_runes ?s])
  with Cons show ?case by simp
qed

lemma strip_runes_Nil: "strip_runes rs [] = []"
proof -
  have "find (\<lambda>r. r \<noteq> [] \<and> prefix r []) rs = None" by (simp add: find_None_iff)
  then show ?thesis by (simp add: strip_runes.simps[of rs "[]"])
qed

lemma TrimSpace_blank: "blank s \<Longrightarrow> strings_TrimSpace s = []"
proof -
  assume "blank s"
  then obtain ws where "set ws \<subseteq> set space_runes" "s = concat ws" by (auto simp: blank_def)
  with strip_runes_blank[of ws "[]"] have "strip_runes space_runes s = strip_runes space_runes []"
    by simp
  also have "\<dots> = []" by (rule strip_runes_Nil)
  finally show ?thesis
    by (simp add: strings_TrimSpace_def strip_runes_Nil)
qed

lemma TrimSpace_decomp:
  "\<exists>a b. blank a \<and> blank b \<and> s = a @ strings_TrimSpace s @ b"
proof -
  let ?y = "strip_runes space_runes s"
  let ?rr = "map rev space_runes"
  from strip_runes_decomp[of space_runes s] obtain ws where
    ws: "set ws \<subseteq> set space_runes" "s = concat ws @ ?y" by blast
  from strip_runes_decomp[of ?rr "rev ?y"] obtain vs where
    vs: "set vs \<subseteq> set ?rr" "rev ?y = concat vs @ strip_runes ?rr (rev ?y)" by blast
  from vs(2) have "?y = rev (concat vs @ strip_runes ?rr (rev ?y))"
    by (metis rev_rev_ident)
  then have y: "?y = strings_TrimSpace s @ concat (map rev (rev vs))"
    by (simp add: strings_TrimSpace_def rev_concat)
  from vs(1) have "set (map rev (rev vs)) \<subseteq> set space_runes" by auto
  then have "blank (concat (map rev (rev vs)))" unfolding blank_def by blast
  moreover from ws(1) have "blank (concat ws)" unfolding blank_def by blast
  moreover from ws(2) y have "s = concat ws @ strings_TrimSpace s @ concat (map rev (rev vs))"
    by simp
  ultimately show ?thesis by blast
qed

lemma TrimSpace_trimmed: "trimmed (strings_TrimSpace s)"
  unfolding trimmed_def
proof (intro ballI conjI)
  fix r assume r: "r \<in> set space_runes"
  then have ne: "r \<noteq> []" by (rule space_runes_nonempty)
  let ?y = "strip_runes space_runes s"
  let ?rr = "map rev space_runes"
  have t: "rev (strings_TrimSpace s) = strip_runes ?rr (rev ?y)"
    by (simp add: strings_TrimSpace_def)
  show "\<not> suffix r (strings_TrimSpace s)"
  proof
    assume "suffix r (strings_TrimSpace s)"
    then have "prefix (rev r) (strip_runes ?rr (rev ?y))"
      unfolding t[symmetric] by (simp add: suffix_to_prefix)
    moreover from r ne have "rev r \<in> set ?rr" "rev r \<noteq> []" by auto
    ultimately show False using strip_runes_no_prefix by blast
  qed
  show "\<not> prefix r (strings_TrimSpace s)"
  proof
    assume p: "prefix r (strings_TrimSpace s)"
    from strip_runes_decomp[of ?rr "rev ?y"] obtain vs where
      "rev ?y = concat vs @ strip_runes ?rr (rev ?y)" by blast
    then have "?y = rev (concat vs @ strip_runes ?rr (rev ?y))" by (metis rev_rev_ident)
    then have "?y = strings_TrimSpace s @ rev (concat vs)"
      by (simp add: strings_TrimSpace_def)
    with p have "prefix r ?y" by (metis prefix_prefix)
    with strip_runes_no_prefix[OF r ne] show False by blast
  qed
qed


subsection \<open>The concrete machine\<close>

lemma wf_fs_map_of:
  assumes "list_all (\<lambda>p. p = [] \<or> map_of xs (butlast p) = Some Dir) (map fst xs)"
  shows "wf_fs (map_of xs)"
  unfolding wf_fs_def
proof (intro allI impI)
  fix p assume "p \<noteq> [] \<and> map_of xs p \<noteq> None"
  then have "p \<noteq> []" "p \<in> fst ` set xs" by (auto simp: map_of_eq_None_iff)
  with assms show "map_of xs (butlast p) = Some Dir" by (auto simp: list_all_iff)
qed

lemma demo_wf: "wf_fs (fs demo_world)"
proof -
  have "wf_fs demo_fs" unfolding demo_fs_def by (rule wf_fs_map_of) code_simp
  then show ?thesis by (simp add: demo_world_def)
qed

lemma demo_order: "mset (map_order demo_env) = mset dirs"
  by (simp add: demo_env_def)

lemma demo_run: "main demo_env demo_world = (Returns (), snd (main demo_env demo_world))"
proof -
  have "fst (main demo_env demo_world) = Returns ()" by code_simp
  then show ?thesis by (metis prod.collapse)
qed

lemma demo_run_dirs:
  "main (demo_env\<lparr>map_order := dirs\<rparr>) demo_world
     = (Returns (), snd (main (demo_env\<lparr>map_order := dirs\<rparr>) demo_world))"
proof -
  have "fst (main (demo_env\<lparr>map_order := dirs\<rparr>) demo_world) = Returns ()" by code_simp
  then show ?thesis by (metis prod.collapse)
qed

lemma demo_project:
  "project_path demo_env demo_world = ''/home/u/x/demo''"
  "abs_path demo_env ''/home/u/x/demo'' = [''home'', ''u'', ''x'', ''demo'']"
  "base_line demo_world = ''~/x''" "name_line demo_world = ''demo''"
  by code_simp+

lemma demo_exec_keeps: "exec_keeps demo_env"
  by (simp add: exec_keeps_def demo_env_def demo_exec_def)

section \<open>The claims\<close>

subsection \<open>C3: the template table covers every produced file\<close>

text \<open>
  Claim C3.  The eleven file names the program produces are the seven seed files of the
  directory table followed by the four root files; they are pairwise different; the keys
  of the template table are exactly these names, each key occurring once; and
  getTemplateFileName sends each name to its template resource, different names to
  different resources.
\<close>

theorem C3_template_mapping_total:
  "produced_files =
     [''main.go'', ''router.go'', ''middleware.go'', ''handlers.go'', ''models.go'', ''db.go'',
      ''config.yaml'', ''Dockerfile'', ''docker-compose.yaml'', ''Makefile'', ''.air.toml'']
   \<and> distinct produced_files
   \<and> dom (map_of templateMapping) = set produced_files
   \<and> distinct (map fst templateMapping)
   \<and> map getTemplateFileName produced_files =
       [''templates/main.txt'', ''templates/routes.txt'', ''templates/middleware.txt'',
        ''templates/handlers.txt'', ''templates/models.txt'', ''templates/db.txt'',
        ''templates/config.txt'', ''templates/dockers.txt'', ''templates/docker.txt'',
        ''templates/makerun.txt'', ''templates/air.txt'']
   \<and> map (map_of templateMapping) produced_files = map (Some \<circ> getTemplateFileName) produced_files
   \<and> distinct (map getTemplateFileName produced_files)"
proof -
  have pf: "produced_files =
     [''main.go'', ''router.go'', ''middleware.go'', ''handlers.go'', ''models.go'', ''db.go'',
      ''config.yaml'', ''Dockerfile'', ''docker-compose.yaml'', ''Makefile'', ''.air.toml'']"
    by (simp add: produced_files_def dirs_def dockerFiles_def)
  have d: "dom (map_of templateMapping) = set produced_files"
    unfolding pf by (simp add: templateMapping_def dom_map_of_conv_image_fst insert_commute)
  have k: "distinct (map fst templateMapping)"
    by (simp add: templateMapping_def)
  have g: "map getTemplateFileName produced_files =
       [''templates/main.txt'', ''templates/routes.txt'', ''templates/middleware.txt'',
        ''templates/handlers.txt'', ''templates/models.txt'', ''templates/db.txt'',
        ''templates/config.txt'', ''templates/dockers.txt'', ''templates/docker.txt'',
        ''templates/makerun.txt'', ''templates/air.txt'']"
    unfolding pf by (simp add: getTemplateFileName_def templateMapping_def)
  have m: "map (map_of templateMapping) produced_files =
      map (Some \<circ> getTemplateFileName) produced_files"
    unfolding pf by (simp add: getTemplateFileName_def templateMapping_def)
  have dg: "distinct (map getTemplateFileName produced_files)"
    unfolding g by simp
  have dp: "distinct produced_files"
    unfolding pf by simp
  from pf dp d k g m dg show ?thesis by blast
qed

subsection \<open>C2: ExpandTilde\<close>

text \<open>
  Claim C2.  For a path that starts with \<^verbatim>\<open>~/\<close> ExpandTilde returns the home directory of
  the current user joined (filepath.Join) with what follows the \<^verbatim>\<open>~/\<close>; when the home
  directory is a cleaned absolute path other than the root and the rest consists of
  ordinary elements, that is literally home, a separator and the rest.  A path that does
  not start with \<^verbatim>\<open>~/\<close> is returned as it is.  An error is returned exactly when the path
  starts with \<^verbatim>\<open>~/\<close> and the current user cannot be determined.  The world is never changed.
\<close>

theorem C2_ExpandTilde:
  "(strings_HasPrefix path ''~/'' \<and> user_Current E = Inr usr \<longrightarrow>
      ExpandTilde E path w = ((filepath_Join [HomeDir usr, drop 2 path], None), w)
      \<and> path = ''~/'' @ drop 2 path
      \<and> (filepath_Clean (HomeDir usr) = HomeDir usr \<and> is_rooted (HomeDir usr)
           \<and> HomeDir usr \<noteq> ''/'' \<and> list_all plain (split_path (drop 2 path)) \<longrightarrow>
         fst (fst (ExpandTilde E path w)) = HomeDir usr @ ''/'' @ drop 2 path))
   \<and> (\<not> strings_HasPrefix path ''~/'' \<longrightarrow> ExpandTilde E path w = ((path, None), w))
   \<and> (snd (fst (ExpandTilde E path w)) \<noteq> None \<longleftrightarrow>
        strings_HasPrefix path ''~/'' \<and> (\<exists>err. user_Current E = Inl err))
   \<and> snd (ExpandTilde E path w) = w"
proof -
  have a: "path = ''~/'' @ drop 2 path" if "strings_HasPrefix path ''~/''"
  proof -
    have l: "length ''~/'' = (2::nat)" by simp
    from that have "take 2 path = ''~/''" unfolding strings_HasPrefix_def l .
    then have "''~/'' @ drop 2 path = take 2 path @ drop 2 path" by (simp only:)
    then show ?thesis by (simp only: append_take_drop_id)
  qed
  have b: "fst (fst (ExpandTilde E path w)) = HomeDir usr @ ''/'' @ drop 2 path"
    if "strings_HasPrefix path ''~/''" "user_Current E = Inr usr"
      "filepath_Clean (HomeDir usr) = HomeDir usr" "is_rooted (HomeDir usr)"
      "HomeDir usr \<noteq> ''/''" "list_all plain (split_path (drop 2 path))"
    using that Join_literal[of "HomeDir usr" "drop 2 path"]
    by (simp add: ExpandTilde_def)
  have c: "snd (fst (ExpandTilde E path w)) \<noteq> None \<longleftrightarrow>
        strings_HasPrefix path ''~/'' \<and> (\<exists>err. user_Current E = Inl err)"
    by (cases "user_Current E") (simp_all add: ExpandTilde_def)
  have d: "snd (ExpandTilde E path w) = w"
    by (cases "user_Current E") (simp_all add: ExpandTilde_def)
  show ?thesis
    using a b c d by (simp add: ExpandTilde_def)
qed

theorem C2_ExpandTilde_witness:
  "ExpandTilde demo_env ''~/x/y'' demo_world = ((''/home/u/x/y'', None), demo_world)
   \<and> ExpandTilde demo_env ''~/a/../b/'' demo_world = ((''/home/u/b'', None), demo_world)
   \<and> ExpandTilde demo_env ''/tmp/x'' demo_world = ((''/tmp/x'', None), demo_world)
   \<and> ExpandTilde (demo_env\<lparr>user_Current := Inl ''user: unknown userid 7''\<rparr>) ''~/x'' demo_world
       = (([], Some ''user: unknown userid 7''), demo_world)"
proof -
  have p: "list_all plain (split_path ''x/y'')"
    by (simp add: plain_def Let_def)
  have c: "filepath_Clean ''/home/u'' = ''/home/u''"
    by (simp add: filepath_Clean_def is_rooted_def clean_elems_def Let_def)
  have u: "user_Current demo_env = Inr \<lparr>HomeDir = ''/home/u''\<rparr>"
    by (simp add: demo_env_def)
  have h: "strings_HasPrefix ''~/x/y'' ''~/''" "strings_HasPrefix ''~/a/../b/'' ''~/''"
    "\<not> strings_HasPrefix ''/tmp/x'' ''~/''" "strings_HasPrefix ''~/x'' ''~/''"
    by (simp_all add: strings_HasPrefix_def)
  note t1 = C2_ExpandTilde[of "''~/x/y''" demo_env "\<lparr>HomeDir = ''/home/u''\<rparr>" demo_world]
  from t1 h(1) u
  have a: "ExpandTilde demo_env ''~/x/y'' demo_world =
      ((filepath_Join [''/home/u'', ''x/y''], None), demo_world)"
    by simp
  from t1 h(1) u p c
  have b: "fst (fst (ExpandTilde demo_env ''~/x/y'' demo_world)) = ''/home/u/x/y''"
    by (auto simp add: is_rooted_def)
  from a b have 1: "ExpandTilde demo_env ''~/x/y'' demo_world = ((''/home/u/x/y'', None), demo_world)"
    by simp
  have 2: "ExpandTilde demo_env ''~/a/../b/'' demo_world = ((''/home/u/b'', None), demo_world)"
    using C2_ExpandTilde[of "''~/a/../b/''" demo_env "\<lparr>HomeDir = ''/home/u''\<rparr>" demo_world] h(2) u
    by (simp add: filepath_Join_def filepath_Clean_def is_rooted_def clean_elems_def Let_def)
  have 3: "ExpandTilde demo_env ''/tmp/x'' demo_world = ((''/tmp/x'', None), demo_world)"
    using C2_ExpandTilde[of "''/tmp/x''" demo_env undefined demo_world] h(3)
    by simp
  let ?E = "demo_env\<lparr>user_Current := Inl ''user: unknown userid 7''\<rparr>"
  from C2_ExpandTilde[of "''~/x''" ?E undefined demo_world] h(4)
  have "snd (fst (ExpandTilde ?E ''~/x'' demo_world)) \<noteq> None"
    "snd (ExpandTilde ?E ''~/x'' demo_world) = demo_world"
    by simp_all
  then have 4: "ExpandTilde ?E ''~/x'' demo_world
       = (([], Some ''user: unknown userid 7''), demo_world)"
    using h(4) by (simp add: ExpandTilde_def)
  from 1 2 3 4 show ?thesis by blast
qed

subsection \<open>C8: the live-reload tool is checked before anything else\<close>

text \<open>
  Claim C8.  When \<^verbatim>\<open>air\<close> is not found on the search path, main exits with the
  diagnostic of ensureAirInstalled and leaves the world as it was: nothing was printed
  to standard output (so neither prompt), nothing was read from standard input, and the
  file system is untouched.  The diagnostic contains the install command.
\<close>

theorem C8_air_missing_exits_first:
  assumes "\<not> look_path E ''air''"
  shows "main E w = (Exits air_missing_message, w)
    \<and> (\<exists>a b. air_missing_message = a @ install_command @ b)"
proof -
  have "air_missing_message =
      (''Error: 'air' is not installed. Please install it by running:''
         @ [CHR 0x0A, CHR 0x0A, CHR 0x09]) @ install_command @ [CHR 0x0A]"
    by (simp add: air_missing_message_def)
  then have "\<exists>a b. air_missing_message = a @ install_command @ b" by blast
  with assms show ?thesis
    by (simp add: main_def ensureAirInstalled_def checkCommandExists_def)
qed

theorem C8_air_missing_witness:
  "main (demo_env\<lparr>look_path := \<lambda>c. c = ''go''\<rparr>) demo_world
     = (Exits air_missing_message, demo_world)
   \<and> stdout demo_world = [] \<and> stdin demo_world \<noteq> []"
  using C8_air_missing_exits_first[of "demo_env\<lparr>look_path := \<lambda>c. c = ''go''\<rparr>" demo_world]
  by (simp add: demo_world_def)

subsection \<open>C4: empty input\<close>

text \<open>
  Claim C4.  When the trimmed base path line or the trimmed project name line is empty,
  main exits and the file system (and the list of commands run) is what it was: nothing
  was created.  With \<^verbatim>\<open>air\<close> installed, an empty base path gives the message
  \<^verbatim>\<open>Base path cannot be empty\<close>; with a base path that expands without error, an empty
  project name gives \<^verbatim>\<open>Project name cannot be empty\<close>.
\<close>

theorem C4_empty_input_aborts:
  assumes "base_line w = [] \<or> name_line w = []"
  shows "(\<exists>m w'. main E w = (Exits m, w') \<and> fs w' = fs w \<and> procs w' = procs w)
     \<and> (look_path E ''air'' \<and> base_line w = [] \<longrightarrow>
          fst (main E w) = Exits ''Base path cannot be empty'')
     \<and> (look_path E ''air'' \<and> base_line w \<noteq> []
          \<and> snd (fst (ExpandTilde E (base_line w) w)) = None \<and> name_line w = [] \<longrightarrow>
          fst (main E w) = Exits ''Project name cannot be empty'')"
proof -
  from assms have "\<not> inputs_ok E w" by (auto simp: inputs_ok_def)
  from main_early_exit[OF this] show ?thesis
    by (auto simp: main_base_empty main_name_empty)
qed


theorem C4_empty_input_witness:
  "(\<exists>m w'. main demo_env blank_base_world = (Exits m, w')
       \<and> fs w' = fs blank_base_world \<and> procs w' = procs blank_base_world)
   \<and> fst (main demo_env blank_base_world) = Exits ''Base path cannot be empty''
   \<and> (\<exists>m w'. main demo_env blank_name_world = (Exits m, w')
       \<and> fs w' = fs blank_name_world \<and> procs w' = procs blank_name_world)
   \<and> fst (main demo_env blank_name_world) = Exits ''Project name cannot be empty''"
proof -
  have b: "base_line blank_base_world = []" by code_simp
  have n: "name_line blank_name_world = []" "base_line blank_name_world \<noteq> []"
    "snd (fst (ExpandTilde demo_env (base_line blank_name_world) blank_name_world)) = None"
    by code_simp+
  have a: "look_path demo_env ''air''" by (simp add: demo_env_def)
  from C4_empty_input_aborts[of blank_base_world demo_env] b a
  have 1: "(\<exists>m w'. main demo_env blank_base_world = (Exits m, w')
       \<and> fs w' = fs blank_base_world \<and> procs w' = procs blank_base_world)
   \<and> fst (main demo_env blank_base_world) = Exits ''Base path cannot be empty''"
    by simp
  from C4_empty_input_aborts[of blank_name_world demo_env] n a
  have 2: "(\<exists>m w'. main demo_env blank_name_world = (Exits m, w')
       \<and> fs w' = fs blank_name_world \<and> procs w' = procs blank_name_world)
   \<and> fst (main demo_env blank_name_world) = Exits ''Project name cannot be empty''"
    by simp
  from 1 2 show ?thesis by blast
qed




subsection \<open>C5: the project directory is created once\<close>

text \<open>
  Claim C5.  When main reaches the creation of the project directory and that directory
  exists already, or its parent is not a directory, or the system refuses to create it,
  main exits with \<^verbatim>\<open>Failed to create project base directory\<close> and the file system is
  unchanged.  Hence after a run that returned, a second run on the same input (with
  external commands that remove nothing) exits there with \<^verbatim>\<open>file exists\<close>, and the
  file system stays as the first run left it.
\<close>

theorem C5_base_directory_once:
  "(inputs_ok E w
      \<and> (fs w (abs_path E (project_path E w)) \<noteq> None
          \<or> fs w (butlast (abs_path E (project_path E w))) \<noteq> Some Dir
          \<or> deny_create E (abs_path E (project_path E w))) \<longrightarrow>
      (\<exists>e. main E w = (Exits (''Failed to create project base directory: ''
                @ PathError ''mkdir'' (project_path E w) e), asked w))
      \<and> fs (snd (main E w)) = fs w)
   \<and> (main E w = (Returns (), w1) \<and> exec_keeps E \<and> stdin w2 = stdin w \<and> fs w2 = fs w1 \<longrightarrow>
      main E w2 = (Exits (''Failed to create project base directory: ''
                @ PathError ''mkdir'' (project_path E w) EEXIST), asked w2)
      \<and> fs (snd (main E w2)) = fs w1)"
proof (intro conjI impI)
  assume a: "inputs_ok E w
      \<and> (fs w (abs_path E (project_path E w)) \<noteq> None
          \<or> fs w (butlast (abs_path E (project_path E w))) \<noteq> Some Dir
          \<or> deny_create E (abs_path E (project_path E w)))"
  then have ne: "project_path E w \<noteq> []"
    by (simp add: inputs_ok_def project_path_nonempty)
  obtain r w6 where m: "os_Mkdir E (project_path E w) (asked w) = (r, w6)"
    by (cases "os_Mkdir E (project_path E w) (asked w)")
  from os_Mkdir_cases[OF m ne] a
  obtain e where "r = Some (PathError ''mkdir'' (project_path E w) e)" "w6 = asked w"
    by (auto simp: asked_def)
  moreover from a have "inputs_ok E w" by simp
  ultimately have "main E w = (Exits (''Failed to create project base directory: ''
                @ PathError ''mkdir'' (project_path E w) e), asked w)"
    using m by (simp add: main_reaches_mkdir)
  then show "\<exists>e. main E w = (Exits (''Failed to create project base directory: ''
                @ PathError ''mkdir'' (project_path E w) e), asked w)"
    and "fs (snd (main E w)) = fs w"
    by (auto simp: asked_def)
next
  assume a: "main E w = (Returns (), w1) \<and> exec_keeps E \<and> stdin w2 = stdin w \<and> fs w2 = fs w1"
  let ?pp = "project_path E w"
  let ?B = "abs_path E ?pp"
  from a obtain w6 w7 where ok: "inputs_ok E w"
    and m: "os_Mkdir E ?pp (asked w) = (None, w6)"
    and c: "createDirectoriesAndFiles E ?pp
       (Print (''Created project base directory: '' @ ?pp @ [CHR 0x0A]) w6) = (Returns (), w7)"
    and g: "initializeGoMod E ?pp (name_line w) w7 = (Returns (), w1)"
    by (auto elim: main_Returns)
  from ok have ne: "?pp \<noteq> []" by (simp add: inputs_ok_def project_path_nonempty)
  from os_Mkdir_cases[OF m ne] have "fs w6 ?B = Some Dir" by auto
  then have "fs (Print (''Created project base directory: '' @ ?pp @ [CHR 0x0A]) w6) ?B \<noteq> None"
    by (simp add: Print_def)
  from scaffold_keeps[OF c ne this] have "fs w7 ?B \<noteq> None" .
  with a initializeGoMod_Returns(3)[OF g] have "fs w1 ?B \<noteq> None"
    by (simp add: go_mod_effect_def exec_keeps_def)
  with a have ex: "fs (asked w2) ?B \<noteq> None" by (simp add: asked_def)
  from a have si: "stdin w2 = stdin w" by simp
  from same_inputs(3,4)[OF si] ok have ok2: "inputs_ok E w2" and pp2: "project_path E w2 = ?pp"
    by simp_all
  from os_Mkdir_exists[OF ex ne] main_reaches_mkdir[OF ok2] pp2
  have "main E w2 = (Exits (''Failed to create project base directory: ''
                @ PathError ''mkdir'' ?pp EEXIST), asked w2)"
    by simp
  with a show "main E w2 = (Exits (''Failed to create project base directory: ''
                @ PathError ''mkdir'' ?pp EEXIST), asked w2)"
    and "fs (snd (main E w2)) = fs w1"
    by (simp_all add: asked_def)
qed


theorem C5_base_directory_witness:
  "(\<exists>e. main demo_env existing_world =
        (Exits (''Failed to create project base directory: ''
           @ PathError ''mkdir'' (project_path demo_env existing_world) e), asked existing_world))
   \<and> fs (snd (main demo_env existing_world)) = fs existing_world
   \<and> main demo_env demo_again =
        (Exits ''Failed to create project base directory: mkdir /home/u/x/demo: file exists'',
         asked demo_again)
   \<and> fs (snd (main demo_env demo_again)) = fs (snd (main demo_env demo_world))"
proof -
  have h: "inputs_ok demo_env existing_world"
    "fs existing_world (abs_path demo_env (project_path demo_env existing_world)) \<noteq> None"
    by code_simp+
  from C5_base_directory_once[where E = demo_env and w = existing_world] h
  have 1: "(\<exists>e. main demo_env existing_world =
        (Exits (''Failed to create project base directory: ''
           @ PathError ''mkdir'' (project_path demo_env existing_world) e), asked existing_world))
   \<and> fs (snd (main demo_env existing_world)) = fs existing_world"
    by blast
  have g: "stdin demo_again = stdin demo_world" "fs demo_again = fs (snd (main demo_env demo_world))"
    by (simp_all add: demo_again_def)
  from C5_base_directory_once[where E = demo_env and w = demo_world
      and ?w1.0 = "snd (main demo_env demo_world)" and ?w2.0 = demo_again]
    demo_run demo_exec_keeps g
  have "main demo_env demo_again =
        (Exits (''Failed to create project base directory: ''
           @ PathError ''mkdir'' (project_path demo_env demo_world) EEXIST), asked demo_again)
   \<and> fs (snd (main demo_env demo_again)) = fs (snd (main demo_env demo_world))"
    by blast
  then have a: "main demo_env demo_again =
        (Exits (''Failed to create project base directory: ''
           @ PathError ''mkdir'' (project_path demo_env demo_world) EEXIST), asked demo_again)"
    and b: "fs (snd (main demo_env demo_again)) = fs (snd (main demo_env demo_world))"
    by blast+
  have "''Failed to create project base directory: ''
           @ PathError ''mkdir'' (project_path demo_env demo_world) EEXIST
     = ''Failed to create project base directory: mkdir /home/u/x/demo: file exists''"
    by (simp add: demo_project PathError_def)
  with a b have 2: "main demo_env demo_again =
        (Exits ''Failed to create project base directory: mkdir /home/u/x/demo: file exists'',
         asked demo_again)
   \<and> fs (snd (main demo_env demo_again)) = fs (snd (main demo_env demo_world))"
    by (simp only:)
  from 1 2 show ?thesis by blast
qed


subsection \<open>C7: external commands\<close>

text \<open>
  Claim C7.  runCommand starts the command in the given directory, the world it returns
  has the command's effect, and it exits the program when the command fails; otherwise
  it returns.  In initializeGoMod the tidy command is started only when the init command
  succeeded, and a failure of either ends the program.  When main gets as far as
  initializeGoMod, the outcome of main is the outcome of initializeGoMod.
\<close>

theorem C7_runCommand_fatal:
  "(runCommand E dir command args w = (r, w') \<longrightarrow>
      procs w' = procs w @ [(dir, command, args)]
      \<and> fs w' = snd (exec_effect E dir command args (fs w))
      \<and> (fst (exec_effect E dir command args (fs w)) = None \<longrightarrow> r = Returns None)
      \<and> (\<forall>err. fst (exec_effect E dir command args (fs w)) = Some err \<longrightarrow>
            r = Exits (''Error running command: '' @ err)))
   \<and> (initializeGoMod E bp name w = (r', w'') \<longrightarrow>
      (\<forall>err. fst (exec_effect E bp ''go'' [''mod'', ''init'', name] (fs w)) = Some err \<longrightarrow>
         r' = Exits (''Error running command: '' @ err)
         \<and> procs w'' = procs w @ [(bp, ''go'', [''mod'', ''init'', name])])
      \<and> (fst (exec_effect E bp ''go'' [''mod'', ''init'', name] (fs w)) = None \<longrightarrow>
         procs w'' = procs w @ [(bp, ''go'', [''mod'', ''init'', name]), (bp, ''go'', [''mod'', ''tidy''])]
         \<and> fs w'' = go_mod_effect E bp name (fs w)
         \<and> (r' = Returns () \<longleftrightarrow>
              fst (exec_effect E bp ''go'' [''mod'', ''tidy'']
                (snd (exec_effect E bp ''go'' [''mod'', ''init'', name] (fs w)))) = None)
         \<and> (\<forall>err. fst (exec_effect E bp ''go'' [''mod'', ''tidy'']
                (snd (exec_effect E bp ''go'' [''mod'', ''init'', name] (fs w)))) = Some err \<longrightarrow>
               r' = Exits (''Error running command: '' @ err)))
      \<and> ((bp, ''go'', [''mod'', ''tidy'']) \<in> set (procs w'') - set (procs w) \<longrightarrow>
           fst (exec_effect E bp ''go'' [''mod'', ''init'', name] (fs w)) = None))
   \<and> (inputs_ok E w0 \<and> os_Mkdir E (project_path E w0) (asked w0) = (None, w6)
        \<and> createDirectoriesAndFiles E (project_path E w0)
             (Print (''Created project base directory: '' @ project_path E w0 @ [CHR 0x0A]) w6)
           = (Returns (), w7) \<longrightarrow>
      main E w0 = initializeGoMod E (project_path E w0) (name_line w0) w7)"
proof (intro conjI impI)
  assume "runCommand E dir command args w = (r, w')"
  then show "procs w' = procs w @ [(dir, command, args)]"
    "fs w' = snd (exec_effect E dir command args (fs w))"
    "fst (exec_effect E dir command args (fs w)) = None \<Longrightarrow> r = Returns None"
    "\<forall>err. fst (exec_effect E dir command args (fs w)) = Some err \<longrightarrow>
            r = Exits (''Error running command: '' @ err)"
    by (auto simp: runCommand_cases)
next
  assume a: "initializeGoMod E bp name w = (r', w'')"
  let ?i = "exec_effect E bp ''go'' [''mod'', ''init'', name] (fs w)"
  let ?t = "exec_effect E bp ''go'' [''mod'', ''tidy''] (snd ?i)"
  show "\<forall>err. fst ?i = Some err \<longrightarrow>
         r' = Exits (''Error running command: '' @ err)
         \<and> procs w'' = procs w @ [(bp, ''go'', [''mod'', ''init'', name])]"
    using a by (auto simp: initializeGoMod_def runCommand_cases Print_def)
  show "\<forall>err. fst ?t = Some err \<longrightarrow> r' = Exits (''Error running command: '' @ err)"
    if "fst ?i = None"
    using a that by (auto simp: initializeGoMod_def runCommand_cases Print_def)
  show "procs w'' = procs w @ [(bp, ''go'', [''mod'', ''init'', name]), (bp, ''go'', [''mod'', ''tidy''])]"
    if "fst ?i = None"
    using a that
    by (auto simp: initializeGoMod_def runCommand_cases Print_def split: option.splits)
  show "fs w'' = go_mod_effect E bp name (fs w)" if "fst ?i = None"
    using a that
    by (auto simp: initializeGoMod_def runCommand_cases Print_def go_mod_effect_def
        split: option.splits)
  show "r' = Returns () \<longleftrightarrow> fst ?t = None" if "fst ?i = None"
    using a that
    by (auto simp: initializeGoMod_def runCommand_cases Print_def split: option.splits)
  show "fst ?i = None" if "(bp, ''go'', [''mod'', ''tidy'']) \<in> set (procs w'') - set (procs w)"
  proof (rule ccontr)
    assume "fst ?i \<noteq> None"
    then obtain err where "fst ?i = Some err" by auto
    with a have "procs w'' = procs w @ [(bp, ''go'', [''mod'', ''init'', name])]"
      by (auto simp: initializeGoMod_def runCommand_cases Print_def)
    with that show False by auto
  qed
next
  assume "inputs_ok E w0 \<and> os_Mkdir E (project_path E w0) (asked w0) = (None, w6)
        \<and> createDirectoriesAndFiles E (project_path E w0)
             (Print (''Created project base directory: '' @ project_path E w0 @ [CHR 0x0A]) w6)
           = (Returns (), w7)"
  then show "main E w0 = initializeGoMod E (project_path E w0) (name_line w0) w7"
    by (simp add: main_reaches_mkdir)
qed



theorem C7_runCommand_witness:
  "fst (runCommand demo_env ''/home/u/x'' ''go'' [''mod'', ''tidy''] demo_world) = Returns None
   \<and> procs (snd (runCommand demo_env ''/home/u/x'' ''go'' [''mod'', ''tidy''] demo_world))
       = [(''/home/u/x'', ''go'', [''mod'', ''tidy''])]
   \<and> fst (initializeGoMod broken_go_env ''/home/u/x'' ''demo'' demo_world)
       = Exits ''Error running command: exit status 1''
   \<and> procs (snd (initializeGoMod broken_go_env ''/home/u/x'' ''demo'' demo_world))
       = [(''/home/u/x'', ''go'', [''mod'', ''init'', ''demo''])]
   \<and> fst (initializeGoMod demo_env ''/home/u/x'' ''demo'' demo_world) = Returns ()
   \<and> procs (snd (initializeGoMod demo_env ''/home/u/x'' ''demo'' demo_world))
       = [(''/home/u/x'', ''go'', [''mod'', ''init'', ''demo'']),
          (''/home/u/x'', ''go'', [''mod'', ''tidy''])]
   \<and> (\<exists>w7. main demo_env demo_world = initializeGoMod demo_env ''/home/u/x/demo'' ''demo'' w7)"
proof -
  have e: "fst (exec_effect demo_env dir ''go'' args f) = None" for dir args f
    by (simp add: demo_env_def demo_exec_def)
  have b: "fst (exec_effect broken_go_env dir ''go'' args f) = Some ''exit status 1''" for dir args f
    by (simp add: broken_go_env_def demo_env_def)
  have p: "procs demo_world = []" by (simp add: demo_world_def)
  let ?rc = "runCommand demo_env ''/home/u/x'' ''go'' [''mod'', ''tidy''] demo_world"
  from C7_runCommand_fatal[where E = demo_env and dir = "''/home/u/x''" and command = "''go''"
      and args = "[''mod'', ''tidy'']" and w = demo_world and r = "fst ?rc" and w' = "snd ?rc"] e p
  have 1: "fst ?rc = Returns None \<and> procs (snd ?rc) = [(''/home/u/x'', ''go'', [''mod'', ''tidy''])]"
    by simp
  let ?ib = "initializeGoMod broken_go_env ''/home/u/x'' ''demo'' demo_world"
  from C7_runCommand_fatal[where E = broken_go_env and bp = "''/home/u/x''" and name = "''demo''"
      and w = demo_world and r' = "fst ?ib" and w'' = "snd ?ib"] b p
  have 2: "fst ?ib = Exits ''Error running command: exit status 1''
     \<and> procs (snd ?ib) = [(''/home/u/x'', ''go'', [''mod'', ''init'', ''demo''])]"
    by simp
  let ?ig = "initializeGoMod demo_env ''/home/u/x'' ''demo'' demo_world"
  from C7_runCommand_fatal[where E = demo_env and bp = "''/home/u/x''" and name = "''demo''"
      and w = demo_world and r' = "fst ?ig" and w'' = "snd ?ig"] e p
  have 3: "fst ?ig = Returns ()
     \<and> procs (snd ?ig) = [(''/home/u/x'', ''go'', [''mod'', ''init'', ''demo'']),
          (''/home/u/x'', ''go'', [''mod'', ''tidy''])]"
    by simp
  from demo_run obtain w6 w7 where "inputs_ok demo_env demo_world"
    "os_Mkdir demo_env (project_path demo_env demo_world) (asked demo_world) = (None, w6)"
    "createDirectoriesAndFiles demo_env (project_path demo_env demo_world)
       (Print (''Created project base directory: '' @ project_path demo_env demo_world @ [CHR 0x0A]) w6)
       = (Returns (), w7)"
    by (auto elim: main_Returns)
  with C7_runCommand_fatal[where E = demo_env and ?w0.0 = demo_world and ?w6.0 = w6 and ?w7.0 = w7]
  have "main demo_env demo_world
      = initializeGoMod demo_env (project_path demo_env demo_world) (name_line demo_world) w7"
    by blast
  then have 4: "\<exists>w7. main demo_env demo_world = initializeGoMod demo_env ''/home/u/x/demo'' ''demo'' w7"
    unfolding demo_project by blast
  from 1 2 3 4 show ?thesis by blast
qed


subsection \<open>C1: what a successful run creates\<close>

text \<open>
  Claim C1.  Let main return on a file system that is a tree, the runtime walking the
  directory table in some order.  Then both input lines were non-empty; the project
  directory (the base path joined with the project name) did not exist, and neither did
  any path of the tree of section 6 below it; every template resource was a file; and
  the file system handed to the two module commands is the old one with exactly the
  project directory, the eight directories and the eleven files added, each file
  holding the bytes of its template resource.
\<close>

theorem C1_successful_run_creates_the_tree:
  assumes "main E w = (Returns (), w')" and "wf_fs (fs w)"
    and "mset (map_order E) = mset dirs"
  shows "base_line w \<noteq> [] \<and> name_line w \<noteq> []
    \<and> fs w (abs_path E (project_path E w)) = None
    \<and> list_all (\<lambda>p. fs w p = None)
         (map fst (scaffold_tree E (fs w) (abs_path E (project_path E w))))
    \<and> list_all (\<lambda>f. \<exists>c. fs w (abs_path E (getTemplateFileName f)) = Some (File c)) produced_files
    \<and> fs w' = go_mod_effect E (project_path E w) (name_line w)
         (fs w ++ map_of ((abs_path E (project_path E w), Dir)
            # scaffold_tree E (fs w) (abs_path E (project_path E w))))
    \<and> scaffold_tree E (fs w) (abs_path E (project_path E w)) =
         map (\<lambda>r. (abs_path E (project_path E w) @ r, Dir))
           [[''cmd''], [''pkg'', ''router''], [''pkg'', ''middleware''], [''pkg'', ''handlers''],
            [''pkg'', ''models''], [''pkg''], [''pkg'', ''db''], [''config'']]
         @ map (\<lambda>(r, t). (abs_path E (project_path E w) @ r,
                  File (file_content (fs w) (abs_path E t))))
           [([''cmd'', ''main.go''], ''templates/main.txt''),
            ([''pkg'', ''router'', ''router.go''], ''templates/routes.txt''),
            ([''pkg'', ''middleware'', ''middleware.go''], ''templates/middleware.txt''),
            ([''pkg'', ''handlers'', ''handlers.go''], ''templates/handlers.txt''),
            ([''pkg'', ''models'', ''models.go''], ''templates/models.txt''),
            ([''pkg'', ''db'', ''db.go''], ''templates/db.txt''),
            ([''config'', ''config.yaml''], ''templates/config.txt''),
            ([''Dockerfile''], ''templates/dockers.txt''),
            ([''docker-compose.yaml''], ''templates/docker.txt''),
            ([''Makefile''], ''templates/makerun.txt''),
            ([''.air.toml''], ''templates/air.txt'')]"
proof -
  let ?B = "abs_path E (project_path E w)"
  from assms(3) have so: "set (map_order E) = set dirs" by (rule mset_eq_setD)
  note ms = main_success[OF assms(1,2) so]
  from ms(1) have a: "base_line w \<noteq> [] \<and> name_line w \<noteq> []" by (simp add: inputs_ok_def)
  have b: "list_all (\<lambda>p. fs w p = None) (map fst (scaffold_tree E (fs w) ?B))"
    using ms(3) by (auto simp: list_all_iff scaffold_tree_def)
  have c: "list_all (\<lambda>f. \<exists>c. fs w (abs_path E (getTemplateFileName f)) = Some (File c))
      produced_files"
    using ms(4) by (auto simp: list_all_iff template_path_def)
  from a ms(2) b c ms(5) scaffold_tree_explicit[of E "fs w" ?B] show ?thesis by blast
qed


theorem C1_successful_run_witness:
  "fs demo_world [''home'', ''u'', ''x'', ''demo''] = None
   \<and> fs (snd (main demo_env demo_world)) =
       go_mod_effect demo_env ''/home/u/x/demo'' ''demo''
         (fs demo_world ++ map_of (([''home'', ''u'', ''x'', ''demo''], Dir)
            # scaffold_tree demo_env (fs demo_world) [''home'', ''u'', ''x'', ''demo'']))
   \<and> fs (snd (main demo_env demo_world))
         [''home'', ''u'', ''x'', ''demo'', ''config'', ''config.yaml'']
       = Some (File ''template of config.yaml'')"
proof -
  note t = C1_successful_run_creates_the_tree[OF demo_run demo_wf demo_order, unfolded demo_project]
  from t have a: "fs demo_world [''home'', ''u'', ''x'', ''demo''] = None" by blast
  from t have b: "fs (snd (main demo_env demo_world)) =
       go_mod_effect demo_env ''/home/u/x/demo'' ''demo''
         (fs demo_world ++ map_of (([''home'', ''u'', ''x'', ''demo''], Dir)
            # scaffold_tree demo_env (fs demo_world) [''home'', ''u'', ''x'', ''demo'']))"
    by blast
  have "go_mod_effect demo_env ''/home/u/x/demo'' ''demo''
         (fs demo_world ++ map_of (([''home'', ''u'', ''x'', ''demo''], Dir)
            # scaffold_tree demo_env (fs demo_world) [''home'', ''u'', ''x'', ''demo'']))
         [''home'', ''u'', ''x'', ''demo'', ''config'', ''config.yaml'']
       = Some (File ''template of config.yaml'')"
    by code_simp
  with a b show ?thesis by simp
qed


subsection \<open>C6: a failing step ends the run and undoes nothing\<close>

text \<open>
  Claim C6.  The steps are the iterations of the loops of createDirectoriesAndFiles
  (lemma \<open>createDirectoriesAndFiles_steps\<close>).  Let main have created the project
  directory and let the steps before some step succeed and that step fail.  Then main
  ends with the failure of that step, in the world that step left; whatever existed
  before the failing step, the project directory and the work of the earlier steps
  included, is there unchanged: the directories they made are directories and the files
  they wrote hold their templates.  No external command was started.
\<close>

theorem C6_failure_leaves_earlier_work:
  assumes ok: "inputs_ok E w" and wf: "wf_fs (fs w)" and ord: "mset (map_order E) = mset dirs"
    and mk: "os_Mkdir E (project_path E w) (asked w) = (None, w6)"
    and sp: "scaffold_steps E (project_path E w) = pre @ s # post"
    and pre: "run_steps E pre
        (Print (''Created project base directory: '' @ project_path E w @ [CHR 0x0A]) w6)
        = (Returns (), w1)"
    and fail: "run_step E s w1 = (Exits m, w2)"
  shows "main E w = (Exits m, w2)
    \<and> (\<forall>p. fs w1 p \<noteq> None \<longrightarrow> fs w2 p = fs w1 p)
    \<and> fs w2 (abs_path E (project_path E w)) = Some Dir
    \<and> (\<forall>s'\<in>set pre. fs w2 (step_target E s') =
          (if is_MakeDir s' then Some Dir
           else Some (File (template_content E (fs w) (step_file s')))))
    \<and> procs w2 = procs w"
proof -
  let ?pp = "project_path E w"
  let ?B = "abs_path E ?pp"
  let ?S = "scaffold_steps E ?pp"
  let ?w0 = "Print (''Created project base directory: '' @ ?pp @ [CHR 0x0A]) w6"
  from ord have so: "set (map_order E) = set dirs" by (rule mset_eq_setD)
  from ok have ne: "?pp \<noteq> []" by (simp add: inputs_ok_def project_path_nonempty)
  from os_Mkdir_cases[OF mk ne]
  have B0: "fs w ?B = None" and Bne: "?B \<noteq> []" and par: "fs w (butlast ?B) = Some Dir"
    and w6: "w6 = (asked w)\<lparr>fs := (fs w)(?B \<mapsto> Dir)\<rparr>"
    by (auto simp: asked_def)
  let ?f6 = "(fs w)(?B \<mapsto> Dir)"
  have f6: "fs ?w0 = ?f6" "procs ?w0 = procs w" using w6 by (simp_all add: Print_def asked_def)
  have wf6: "wf_fs (fs ?w0)" unfolding f6 using wf_fs_put_dir[OF wf B0 Bne par] .
  note good = scaffold_good[OF so ne]
  have sin: "s \<in> set ?S" and pin: "set pre \<subseteq> set ?S" using sp by auto
  from good pin have goodp: "steps_good E pre" by (rule steps_good_mono)
  note ss = steps_success[OF pre wf6 goodp]
  from ss have wf1: "wf_fs (fs w1)"
    and pt: "\<And>p. fs w1 p =
          (if p \<in> dir_targets E pre then Some Dir
           else if p \<in> file_targets E pre
             then Some (File (template_content E ?f6 (last p)))
           else ?f6 p)"
    and tm: "\<And>s'. s' \<in> set pre \<Longrightarrow> \<not> is_MakeDir s' \<Longrightarrow>
          ?f6 (template_path E (step_file s'))
            = Some (File (template_content E ?f6 (step_file s')))"
    and pr: "procs w1 = procs w"
    unfolding f6 by blast+
  \<comment> \<open>the run ends with the failing step\<close>
  have "createDirectoriesAndFiles E ?pp ?w0 = (Exits m, w2)"
    using pre fail by (simp add: createDirectoriesAndFiles_steps sp run_steps_append)
  with mk have 1: "main E w = (Exits m, w2)"
    by (simp add: main_reaches_mkdir[OF ok])
  from good sin have oks: "step_ok s" unfolding steps_good_def by blast
  \<comment> \<open>the failing step changes nothing that was there\<close>
  have 2: "\<forall>p. fs w1 p \<noteq> None \<longrightarrow> fs w2 p = fs w1 p" and pr2: "procs w2 = procs w1"
  proof -
    show "\<forall>p. fs w1 p \<noteq> None \<longrightarrow> fs w2 p = fs w1 p"
    proof (cases s)
      case (MakeDir bp d)
      with oks have "bp \<noteq> []" by simp
      from MakeDir_effect[OF fail[unfolded MakeDir] this] show ?thesis by blast
    next
      case (MakeFile dp fl)
      with oks have dp: "dp \<noteq> []" by simp
      let ?q = "step_target E s"
      from MakeFile have nd: "\<not> is_MakeDir s" by simp
      from scaffold_step_shape[OF sin so ne] nd obtain r
        where "?q = ?B @ r @ [step_file s]" by auto
      then have "prefix ?B ?q" "?q \<noteq> ?B" by auto
      with fresh_below[OF wf B0] have "?f6 ?q = None" by simp
      with pt[of ?q] scaffold_file_step_fresh[OF ord ne sp nd] have "fs w1 ?q = None" by simp
      with MakeFile_effect[OF fail[unfolded MakeFile] dp] MakeFile show ?thesis by metis
    qed
    show "procs w2 = procs w1"
    proof (cases s)
      case (MakeDir bp d)
      with oks have "bp \<noteq> []" by simp
      from MakeDir_effect[OF fail[unfolded MakeDir] this] show ?thesis by blast
    next
      case (MakeFile dp fl)
      with oks have "dp \<noteq> []" by simp
      from MakeFile_effect[OF fail[unfolded MakeFile] this] show ?thesis by blast
    qed
  qed
  \<comment> \<open>the project directory is still there\<close>
  have "fs w1 ?B \<noteq> None"
    using run_steps_keeps[OF pre, of ?B] goodp f6
    by (auto simp: steps_good_def) (metis step_dir.simps step_ok.elims(2))
  moreover have "fs w1 ?B = Some Dir \<or> fs w1 ?B = None \<or> (\<exists>c. fs w1 ?B = Some (File c))"
    by (metis node.exhaust option.exhaust)
  moreover have "?B \<notin> file_targets E pre"
  proof
    assume "?B \<in> file_targets E pre"
    then obtain s' where s': "s' \<in> set pre" "\<not> is_MakeDir s'" "?B = step_target E s'"
      by (auto simp: file_targets_def)
    with pin scaffold_step_shape[OF _ so ne, of s'] show False by auto
  qed
  ultimately have B1: "fs w1 ?B = Some Dir" using pt[of ?B] by (auto split: if_splits)
  with 2 have 3: "fs w2 ?B = Some Dir" by simp
  \<comment> \<open>what the earlier steps made is still there\<close>
  have 4: "\<forall>s'\<in>set pre. fs w2 (step_target E s') =
          (if is_MakeDir s' then Some Dir
           else Some (File (template_content E (fs w) (step_file s'))))"
  proof
    fix s' assume s': "s' \<in> set pre"
    let ?p = "step_target E s'"
    from goodp s' have ok': "step_ok s'" unfolding steps_good_def by blast
    have "fs w1 ?p = (if is_MakeDir s' then Some Dir
           else Some (File (template_content E (fs w) (step_file s'))))"
    proof (cases "is_MakeDir s'")
      case True
      with s' have "?p \<in> dir_targets E pre" by (auto simp: dir_targets_def)
      with pt[of ?p] True show ?thesis by simp
    next
      case False
      with s' have ft: "?p \<in> file_targets E pre" by (auto simp: file_targets_def)
      have nd: "?p \<notin> dir_targets E pre"
      proof
        assume "?p \<in> dir_targets E pre"
        then obtain s'' where "s'' \<in> set pre" "is_MakeDir s''" "prefix ?p (step_target E s'')"
          by (auto simp: dir_targets_def)
        with goodp s' False show False unfolding steps_good_def by blast
      qed
      from tm[OF s' False] have "template_path E (step_file s') \<noteq> ?B"
        by (metis fun_upd_same node.distinct(1) option.inject)
      then have "template_content E ?f6 (step_file s') = template_content E (fs w) (step_file s')"
        by (simp add: template_content_def file_content_def)
      with pt[of ?p] ft nd file_step_last[OF ok' False, of E] False show ?thesis by simp
    qed
    moreover from this have "fs w1 ?p \<noteq> None" by (simp split: if_splits)
    ultimately show "fs w2 ?p = (if is_MakeDir s' then Some Dir
           else Some (File (template_content E (fs w) (step_file s'))))"
      using 2 by simp
  qed
  from 1 2 3 4 pr pr2 show ?thesis by simp
qed


theorem C6_failure_witness:
  "main failing_env demo_world =
     (Exits (''Error creating file /home/u/x/demo/pkg/db/db.go: ''
        @ ''open /home/u/x/demo/pkg/db/db.go: permission denied''), demo_after_failure)
   \<and> fs demo_after_failure [''home'', ''u'', ''x'', ''demo''] = Some Dir
   \<and> fs demo_after_failure [''home'', ''u'', ''x'', ''demo'', ''config'', ''config.yaml'']
       = Some (File ''template of config.yaml'')
   \<and> fs demo_after_failure [''home'', ''u'', ''x'', ''demo'', ''pkg'', ''db''] = Some Dir
   \<and> procs demo_after_failure = []"
proof -
  have pp: "project_path failing_env demo_world = ''/home/u/x/demo''"
    "abs_path failing_env ''/home/u/x/demo'' = [''home'', ''u'', ''x'', ''demo'']"
    by code_simp+
  have ok: "inputs_ok failing_env demo_world" by code_simp
  have ord: "mset (map_order failing_env) = mset dirs"
    by (simp add: failing_env_def demo_env_def)
  have "fst (os_Mkdir failing_env ''/home/u/x/demo'' (asked demo_world)) = None" by code_simp
  then have mk: "os_Mkdir failing_env (project_path failing_env demo_world) (asked demo_world)
      = (None, snd (os_Mkdir failing_env ''/home/u/x/demo'' (asked demo_world)))"
    unfolding pp by (metis prod.collapse)
  have "length demo_steps = 18" by code_simp
  then have "demo_steps = take 3 demo_steps @ demo_steps ! 3 # drop 4 demo_steps"
    using id_take_nth_drop[of 3 demo_steps] by simp
  then have sp: "scaffold_steps failing_env (project_path failing_env demo_world)
      = take 3 demo_steps @ demo_steps ! 3 # drop 4 demo_steps"
    unfolding pp demo_steps_def[symmetric] .
  have "fst (run_steps failing_env (take 3 demo_steps) demo_mkdir_world) = Returns ()"
    by code_simp
  then have pre: "run_steps failing_env (take 3 demo_steps)
        (Print (''Created project base directory: '' @ project_path failing_env demo_world @ [CHR 0x0A])
           (snd (os_Mkdir failing_env ''/home/u/x/demo'' (asked demo_world))))
        = (Returns (), demo_before_failure)"
    unfolding pp demo_before_failure_def demo_mkdir_world_def by (metis prod.collapse)
  have "fst (run_step failing_env (demo_steps ! 3) demo_before_failure)
      = Exits (''Error creating file /home/u/x/demo/pkg/db/db.go: ''
        @ ''open /home/u/x/demo/pkg/db/db.go: permission denied'')"
    by code_simp
  then have fail: "run_step failing_env (demo_steps ! 3) demo_before_failure
      = (Exits (''Error creating file /home/u/x/demo/pkg/db/db.go: ''
        @ ''open /home/u/x/demo/pkg/db/db.go: permission denied''), demo_after_failure)"
    unfolding demo_after_failure_def by (metis prod.collapse)
  note t = C6_failure_leaves_earlier_work[OF ok demo_wf ord mk sp pre fail, unfolded pp]
  have s1: "demo_steps ! 1 \<in> set (take 3 demo_steps)" "\<not> is_MakeDir (demo_steps ! 1)"
    "step_target failing_env (demo_steps ! 1)
      = [''home'', ''u'', ''x'', ''demo'', ''config'', ''config.yaml'']"
    "template_content failing_env (fs demo_world) (step_file (demo_steps ! 1))
      = ''template of config.yaml''"
    by code_simp+
  have s2: "demo_steps ! 2 \<in> set (take 3 demo_steps)" "is_MakeDir (demo_steps ! 2)"
    "step_target failing_env (demo_steps ! 2) = [''home'', ''u'', ''x'', ''demo'', ''pkg'', ''db'']"
    by code_simp+
  from t have a: "main failing_env demo_world =
     (Exits (''Error creating file /home/u/x/demo/pkg/db/db.go: ''
        @ ''open /home/u/x/demo/pkg/db/db.go: permission denied''), demo_after_failure)"
    and b: "fs demo_after_failure [''home'', ''u'', ''x'', ''demo''] = Some Dir"
    and c: "\<forall>s'\<in>set (take 3 demo_steps). fs demo_after_failure (step_target failing_env s') =
          (if is_MakeDir s' then Some Dir
           else Some (File (template_content failing_env (fs demo_world) (step_file s'))))"
    and d: "procs demo_after_failure = procs demo_world"
    by blast+
  from c s1 have e: "fs demo_after_failure [''home'', ''u'', ''x'', ''demo'', ''config'', ''config.yaml'']
       = Some (File ''template of config.yaml'')"
    by (metis (full_types))
  from c s2 have f: "fs demo_after_failure [''home'', ''u'', ''x'', ''demo'', ''pkg'', ''db''] = Some Dir"
    by (metis (full_types))
  from d have g: "procs demo_after_failure = []" by (simp add: demo_world_def)
  from a b e f g show ?thesis by blast
qed


subsection \<open>C10: the order of the directory table\<close>

text \<open>
  Claim C10.  Two runs of main that return, from the same world and differing only in
  the order in which the directory table is walked, end with the same file system, the
  same commands run and the same input left.  Their outputs have the same lines: they
  agree before and after the lines of the directory table, and those lines are printed
  directory by directory in the order of the walk.
\<close>

theorem C10_map_order_does_not_matter:
  assumes "main E w = (Returns (), w1)" and "main (E\<lparr>map_order := ord\<rparr>) w = (Returns (), w2)"
    and "wf_fs (fs w)" and "mset (map_order E) = mset dirs" and "mset ord = mset dirs"
  shows "fs w1 = fs w2 \<and> procs w1 = procs w2 \<and> stdin w1 = stdin w2
    \<and> mset (stdout w1) = mset (stdout w2)
    \<and> (\<exists>a b. stdout w1 =
            a @ concat (map (map step_line \<circ> entry_steps (project_path E w)) (map_order E)) @ b
          \<and> stdout w2 =
            a @ concat (map (map step_line \<circ> entry_steps (project_path E w)) ord) @ b)"
proof -
  let ?E2 = "E\<lparr>map_order := ord\<rparr>"
  let ?pp = "project_path E w"
  from assms(4) have so: "set (map_order E) = set dirs" by (rule mset_eq_setD)
  from assms(5) have "set ord = set dirs" by (rule mset_eq_setD)
  then have so2: "set (map_order ?E2) = set dirs" by simp
  note m1 = main_success[OF assms(1,3) so]
  note m2 = main_success[OF assms(2,3) so2, unfolded order_irrelevant]
  let ?a = "stdout w @ [base_prompt, name_prompt,
             ''Created project base directory: '' @ ?pp @ [CHR 0x0A]]"
  let ?b = "map step_line (map (MakeFile ?pp) dockerFiles)
           @ [''Initializing Go module...'' @ [CHR 0x0A],
              ''Tidying up Go module dependencies...'' @ [CHR 0x0A],
              ''Go module initialized successfully!'' @ [CHR 0x0A]]"
  let ?g = "map step_line \<circ> entry_steps ?pp"
  have sl: "map step_line (scaffold_steps X ?pp)
      = concat (map ?g (map_order X)) @ map step_line (map (MakeFile ?pp) dockerFiles)" for X
    by (simp add: scaffold_steps_def map_concat)
  have mo: "map_order ?E2 = ord" by simp
  have o1: "stdout w1 = ?a @ concat (map ?g (map_order E)) @ ?b"
    using m1(6) unfolding sl by (simp only: append_assoc)
  have o2: "stdout w2 = ?a @ concat (map ?g ord) @ ?b"
    using m2(6) unfolding sl mo by (simp only: append_assoc)
  have "mset (concat (map ?g (map_order E))) = mset (concat (map ?g ord))"
    using assms(4,5) by (intro mset_concat_map_cong) simp
  then have ms: "mset (stdout w1) = mset (stdout w2)"
    unfolding o1 o2 by (simp only: mset_append)
  from m1(5) m2(5) have "fs w1 = fs w2" by simp
  moreover from m1(7) m2(7) have "procs w1 = procs w2" by simp
  moreover from m1(8) m2(8) have "stdin w1 = stdin w2" by simp
  ultimately show ?thesis using ms o1 o2 by blast
qed


theorem C10_map_order_witness:
  "fs (snd (main demo_env demo_world)) = fs (snd (main (demo_env\<lparr>map_order := dirs\<rparr>) demo_world))
   \<and> mset (stdout (snd (main demo_env demo_world)))
       = mset (stdout (snd (main (demo_env\<lparr>map_order := dirs\<rparr>) demo_world)))
   \<and> stdout (snd (main demo_env demo_world))
       \<noteq> stdout (snd (main (demo_env\<lparr>map_order := dirs\<rparr>) demo_world))"
proof -
  have d: "mset dirs = mset dirs" by simp
  from C10_map_order_does_not_matter[OF demo_run demo_run_dirs demo_wf demo_order d]
  have "fs (snd (main demo_env demo_world)) = fs (snd (main (demo_env\<lparr>map_order := dirs\<rparr>) demo_world))
   \<and> mset (stdout (snd (main demo_env demo_world)))
       = mset (stdout (snd (main (demo_env\<lparr>map_order := dirs\<rparr>) demo_world)))"
    by blast
  moreover have "stdout (snd (main demo_env demo_world))
       \<noteq> stdout (snd (main (demo_env\<lparr>map_order := dirs\<rparr>) demo_world))"
    by code_simp
  ultimately show ?thesis by blast
qed



subsection \<open>C9: the input lines are trimmed\<close>

text \<open>
  Claim C9.  Each input line is white space, the trimmed line, white space; the trimmed
  line neither starts nor ends with white space.  A line of white space only (the line
  feed included) ends the run before the file system is touched, the first line with
  the message \<^verbatim>\<open>Base path cannot be empty\<close>.  In a run that returns, the project path is
  made of the trimmed lines, the module name passed to the init command is the trimmed
  second line, and what is created lies below the project path.
\<close>

theorem C9_inputs_are_trimmed:
  "(\<exists>a b. blank a \<and> blank b \<and> fst (ReadString (stdin w)) = a @ base_line w @ b)
   \<and> (\<exists>a b. blank a \<and> blank b
         \<and> fst (ReadString (snd (ReadString (stdin w)))) = a @ name_line w @ b)
   \<and> trimmed (base_line w) \<and> trimmed (name_line w)
   \<and> (blank (fst (ReadString (stdin w))) \<or> blank (fst (ReadString (snd (ReadString (stdin w)))))
        \<longrightarrow> (\<exists>m w'. main E w = (Exits m, w') \<and> fs w' = fs w \<and> procs w' = procs w))
   \<and> (blank (fst (ReadString (stdin w))) \<and> look_path E ''air'' \<longrightarrow>
         fst (main E w) = Exits ''Base path cannot be empty'')
   \<and> (main E w = (Returns (), w') \<and> wf_fs (fs w) \<and> mset (map_order E) = mset dirs \<longrightarrow>
         project_path E w = filepath_Join [fst (fst (ExpandTilde E (base_line w) w)), name_line w]
         \<and> procs w' = procs w @ [(project_path E w, ''go'', [''mod'', ''init'', name_line w]),
                                  (project_path E w, ''go'', [''mod'', ''tidy''])]
         \<and> fs w' = go_mod_effect E (project_path E w) (name_line w)
              (fs w ++ map_of ((abs_path E (project_path E w), Dir)
                 # scaffold_tree E (fs w) (abs_path E (project_path E w)))))"
proof -
  have 1: "\<exists>a b. blank a \<and> blank b \<and> fst (ReadString (stdin w)) = a @ base_line w @ b"
    unfolding base_line_def by (rule TrimSpace_decomp)
  have 2: "\<exists>a b. blank a \<and> blank b
         \<and> fst (ReadString (snd (ReadString (stdin w)))) = a @ name_line w @ b"
    unfolding name_line_def by (rule TrimSpace_decomp)
  have 3: "trimmed (base_line w)" "trimmed (name_line w)"
    unfolding base_line_def name_line_def by (rule TrimSpace_trimmed)+
  have 4: "\<exists>m w'. main E w = (Exits m, w') \<and> fs w' = fs w \<and> procs w' = procs w"
    if "blank (fst (ReadString (stdin w))) \<or> blank (fst (ReadString (snd (ReadString (stdin w)))))"
  proof -
    from that have "base_line w = [] \<or> name_line w = []"
      by (auto simp: base_line_def name_line_def TrimSpace_blank)
    then have "\<not> inputs_ok E w" by (auto simp: inputs_ok_def)
    then show ?thesis by (rule main_early_exit)
  qed
  have 5: "fst (main E w) = Exits ''Base path cannot be empty''"
    if "blank (fst (ReadString (stdin w)))" "look_path E ''air''"
    using that by (simp add: main_base_empty base_line_def TrimSpace_blank)
  have 6: "project_path E w = filepath_Join [fst (fst (ExpandTilde E (base_line w) w)), name_line w]
         \<and> procs w' = procs w @ [(project_path E w, ''go'', [''mod'', ''init'', name_line w]),
                                  (project_path E w, ''go'', [''mod'', ''tidy''])]
         \<and> fs w' = go_mod_effect E (project_path E w) (name_line w)
              (fs w ++ map_of ((abs_path E (project_path E w), Dir)
                 # scaffold_tree E (fs w) (abs_path E (project_path E w))))"
    if "main E w = (Returns (), w')" "wf_fs (fs w)" "mset (map_order E) = mset dirs"
  proof -
    from that(3) have so: "set (map_order E) = set dirs" by (rule mset_eq_setD)
    note ms = main_success[OF that(1,2) so]
    from ms(5) ms(7) show ?thesis by (simp add: project_path_def expanded_base_def)
  qed
  from 1 2 3 4 5 6 show ?thesis by blast
qed



theorem C9_inputs_witness:
  "(\<exists>m w'. main demo_env blank_base_world = (Exits m, w')
       \<and> fs w' = fs blank_base_world \<and> procs w' = procs blank_base_world)
   \<and> fst (main demo_env blank_base_world) = Exits ''Base path cannot be empty''
   \<and> fst (ReadString (stdin demo_world)) = '' ~/x '' @ [CHR 0x0A]
   \<and> base_line demo_world = ''~/x'' \<and> trimmed ''~/x''
   \<and> fst (ReadString (snd (ReadString (stdin demo_world)))) = ''demo'' @ [CHR 0x0D, CHR 0x0A]
   \<and> name_line demo_world = ''demo'' \<and> trimmed ''demo''
   \<and> procs (snd (main demo_env demo_world))
       = [(''/home/u/x/demo'', ''go'', [''mod'', ''init'', ''demo'']),
          (''/home/u/x/demo'', ''go'', [''mod'', ''tidy''])]"
proof -
  have l: "fst (ReadString (stdin blank_base_world)) = [CHR 0x20, CHR 0x09, CHR 0x0D, CHR 0x0A]"
    by code_simp
  have "set [[CHR 0x20], [CHR 0x09], [CHR 0x0D], [CHR 0x0A]] \<subseteq> set space_runes
      \<and> [CHR 0x20, CHR 0x09, CHR 0x0D, CHR 0x0A]
         = concat [[CHR 0x20], [CHR 0x09], [CHR 0x0D], [CHR 0x0A]]"
    by (simp add: space_runes_def)
  then have bl: "blank (fst (ReadString (stdin blank_base_world)))"
    unfolding l blank_def by blast
  have air: "look_path demo_env ''air''" by (simp add: demo_env_def)
  have p: "procs demo_world = []" by (simp add: demo_world_def)
  have r: "fst (ReadString (stdin demo_world)) = '' ~/x '' @ [CHR 0x0A]"
    "fst (ReadString (snd (ReadString (stdin demo_world)))) = ''demo'' @ [CHR 0x0D, CHR 0x0A]"
    by code_simp+
  note t1 = C9_inputs_are_trimmed[where w = blank_base_world and E = demo_env]
  from t1 bl air
  have 1: "(\<exists>m w'. main demo_env blank_base_world = (Exits m, w')
       \<and> fs w' = fs blank_base_world \<and> procs w' = procs blank_base_world)
   \<and> fst (main demo_env blank_base_world) = Exits ''Base path cannot be empty''"
    by blast
  note t2 = C9_inputs_are_trimmed[where w = demo_world and E = demo_env
      and w' = "snd (main demo_env demo_world)", unfolded demo_project]
  from t2 have 2: "trimmed ''~/x''" "trimmed ''demo''" by blast+
  from t2 demo_run demo_wf demo_order p
  have 3: "procs (snd (main demo_env demo_world))
       = [(''/home/u/x/demo'', ''go'', [''mod'', ''init'', ''demo'']),
          (''/home/u/x/demo'', ''go'', [''mod'', ''tidy''])]"
    by simp
  from 1 2 3 r demo_project show ?thesis by simp
qed


end
